theory Spec2Isabelle
  imports Main "HOL-Library.Sublist"
begin

section \<open>JavaScript strings, errors and values\<close>

text \<open>
  Strings are byte strings (the UTF-8 encoding of the JavaScript string).  An exception
  is a value of \<open>js_error\<close>, carrying the \<open>name\<close> and the \<open>message\<close> of the
  thrown \<open>Error\<close> object.
\<close>

datatype js_error = JsError (err_name: string) (err_message: string)

definition error_toString :: "js_error \<Rightarrow> string" where
  "error_toString e = err_name e @ '': '' @ err_message e"

fun startsWith :: "string \<Rightarrow> string \<Rightarrow> bool" where
  "startsWith s [] = True"
| "startsWith [] (p # ps) = False"
| "startsWith (c # cs) (p # ps) = (c = p \<and> startsWith cs ps)"

definition endsWith :: "string \<Rightarrow> string \<Rightarrow> bool" where
  "endsWith s p = startsWith (rev s) (rev p)"

fun str_includes :: "string \<Rightarrow> string \<Rightarrow> bool" where
  "str_includes [] p = (p = [])"
| "str_includes (c # cs) p = (startsWith (c # cs) p \<or> str_includes cs p)"

text \<open>\<open>s.split(d)\<close> for a one-character separator: never the empty list.\<close>

fun split_on :: "char \<Rightarrow> string \<Rightarrow> string list" where
  "split_on d [] = [[]]"
| "split_on d (c # cs) =
     (if c = d then [] # split_on d cs
      else (case split_on d cs of [] \<Rightarrow> [[c]] | s # ss \<Rightarrow> (c # s) # ss))"

fun join :: "string \<Rightarrow> string list \<Rightarrow> string" where
  "join sep [] = []"
| "join sep [s] = s"
| "join sep (s # t # ss) = s @ sep @ join sep (t # ss)"

text \<open>
  \<open>toLowerCase\<close>, as far as it gives ASCII letters: the ASCII capitals, and the Kelvin
  sign (U+212A, the bytes E2 84 AA), whose lower case is \<open>k\<close>.  Every other byte is
  kept: the lower case of every other letter is outside ASCII.
\<close>

definition toLower :: "char \<Rightarrow> char" where
  "toLower c =
     (case map_of (zip ''ABCDEFGHIJKLMNOPQRSTUVWXYZ'' ''abcdefghijklmnopqrstuvwxyz'') c of
        Some l \<Rightarrow> l
      | None \<Rightarrow> c)"

fun toLowerCase :: "string \<Rightarrow> string" where
  "toLowerCase (a # b # c # cs) =
     (if a = CHR 0xE2 \<and> b = CHR 0x84 \<and> c = CHR 0xAA then CHR ''k'' # toLowerCase cs
      else toLower a # toLowerCase (b # c # cs))"
| "toLowerCase (a # cs) = toLower a # toLowerCase cs"
| "toLowerCase [] = []"

definition digit_char :: "nat \<Rightarrow> char" where
  "digit_char d = ''0123456789'' ! (d mod 10)"

function show_nat :: "nat \<Rightarrow> string" where
  "show_nat n = (if n < 10 then [digit_char n] else show_nat (n div 10) @ [digit_char n])"
  by pat_completeness auto
termination
  by (relation "measure id") auto

declare show_nat.simps [simp del]

definition show_int :: "int \<Rightarrow> string" where
  "show_int i = (if i < 0 then CHR ''-'' # show_nat (nat (- i)) else show_nat (nat i))"

text \<open>
  The values \<open>JSON.parse\<close> can return, and \<open>undefined\<close> (what reading a missing
  property gives).  Numbers are the integers below \<open>10\<^sup>2\<^sup>1\<close> in magnitude, which
  JavaScript prints in full, digit by digit.  An object keeps its members in the order of
  the text; a later member of the same name wins.
\<close>

datatype js =
    JUndefined
  | JNull
  | JBool bool
  | JNum int
  | JStr string
  | JArr "js list"
  | JObj "(string \<times> js) list"

text \<open>
  \<open>v.k\<close>, for the property names this program reads (\<open>Records\<close>, \<open>s3\<close>,
  \<open>object\<close>, \<open>bucket\<close>, \<open>key\<close>, \<open>name\<close>, \<open>size\<close>, \<open>eventName\<close>,
  \<open>eventTime\<close>): a TypeError on \<open>undefined\<close> and \<open>null\<close>, the member of an
  object, and \<open>undefined\<close> on everything else.
\<close>

definition get_prop :: "js \<Rightarrow> string \<Rightarrow> js_error + js" where
  "get_prop v k =
     (case v of
        JUndefined \<Rightarrow>
          Inl (JsError ''TypeError''
            (''Cannot read properties of undefined (reading '' @ [CHR 0x27] @ k @ [CHR 0x27] @ '')''))
      | JNull \<Rightarrow>
          Inl (JsError ''TypeError''
            (''Cannot read properties of null (reading '' @ [CHR 0x27] @ k @ [CHR 0x27] @ '')''))
      | JObj kvs \<Rightarrow> Inr (case map_of (rev kvs) k of None \<Rightarrow> JUndefined | Some x \<Rightarrow> x)
      | _ \<Rightarrow> Inr JUndefined)"

fun truthy :: "js \<Rightarrow> bool" where
  "truthy JUndefined = False"
| "truthy JNull = False"
| "truthy (JBool b) = b"
| "truthy (JNum n) = (n \<noteq> 0)"
| "truthy (JStr s) = (s \<noteq> [])"
| "truthy (JArr xs) = True"
| "truthy (JObj kvs) = True"

fun isArray :: "js \<Rightarrow> bool" where
  "isArray (JArr xs) = True"
| "isArray _ = False"

fun ToString :: "js \<Rightarrow> string" where
  "ToString JUndefined = ''undefined''"
| "ToString JNull = ''null''"
| "ToString (JBool b) = (if b then ''true'' else ''false'')"
| "ToString (JNum n) = show_int n"
| "ToString (JStr s) = s"
| "ToString (JArr xs) =
     join '','' (map (\<lambda>x. if x = JUndefined \<or> x = JNull then [] else ToString x) xs)"
| "ToString (JObj kvs) = ''[object Object]''"

text \<open>
  \<open>v.includes(s)\<close>: the substring test of a string, the membership test of an array,
  and a TypeError on every other value (it has no such method).
\<close>

definition js_includes :: "js \<Rightarrow> string \<Rightarrow> js_error + bool" where
  "js_includes v s =
     (case v of
        JStr t \<Rightarrow> Inr (str_includes t s)
      | JArr xs \<Rightarrow> Inr (JStr s \<in> set xs)
      | JUndefined \<Rightarrow>
          Inl (JsError ''TypeError'' ''Cannot read properties of undefined (reading 'includes')'')
      | JNull \<Rightarrow>
          Inl (JsError ''TypeError'' ''Cannot read properties of null (reading 'includes')'')
      | _ \<Rightarrow> Inl (JsError ''TypeError'' ''includes is not a function''))"

subsection \<open>decodeURIComponent\<close>

text \<open>
  The Decode operation of ECMAScript with an empty reserved set.  Every \<open>%XX\<close> is
  replaced by its octet; an octet with the top bit set must start a run of escapes that
  is the UTF-8 encoding of one code point.  Every other malformed escape is a URIError.
\<close>

definition hex_digit :: "char \<Rightarrow> nat option" where
  "hex_digit c =
     map_of (zip ''0123456789abcdefABCDEF''
       [0, 1, 2, 3, 4, 5, 6, 7, 8, 9, 10, 11, 12, 13, 14, 15, 10, 11, 12, 13, 14, 15]) c"

datatype uri_item = Lit char | Esc nat

fun uri_items :: "string \<Rightarrow> uri_item list option" where
  "uri_items [] = Some []"
| "uri_items (c # cs) =
     (if c = CHR ''%'' then
        (case cs of
           h # l # rest \<Rightarrow>
             (case (hex_digit h, hex_digit l) of
                (Some a, Some b) \<Rightarrow> map_option ((#) (Esc (16 * a + b))) (uri_items rest)
              | _ \<Rightarrow> None)
         | _ \<Rightarrow> None)
      else map_option ((#) (Lit c)) (uri_items cs))"

definition lead_ones :: "nat \<Rightarrow> nat" where
  "lead_ones b =
     (if b < 128 then 0 else if b < 192 then 1 else if b < 224 then 2
      else if b < 240 then 3 else if b < 248 then 4 else 5)"

fun continuation :: "uri_item \<Rightarrow> nat option" where
  "continuation (Esc b) = (if b div 64 = 2 then Some b else None)"
| "continuation (Lit c) = None"

definition utf8_value :: "nat \<Rightarrow> nat list \<Rightarrow> nat" where
  "utf8_value b bs = foldl (\<lambda>a c. a * 64 + c mod 64) (b mod 2 ^ (7 - lead_ones b)) bs"

definition utf8_ok :: "nat \<Rightarrow> nat list \<Rightarrow> bool" where
  "utf8_ok b bs =
     (let v = utf8_value b bs; n = length bs in
      if n = 1 then 128 \<le> v
      else if n = 2 then 2048 \<le> v \<and> \<not> (55296 \<le> v \<and> v \<le> 57343)
      else if n = 3 then 65536 \<le> v \<and> v \<le> 1114111
      else False)"

definition byte_char :: "nat \<Rightarrow> char" where
  "byte_char n =
     Char (odd n) (odd (n div 2)) (odd (n div 4)) (odd (n div 8))
       (odd (n div 16)) (odd (n div 32)) (odd (n div 64)) (odd (n div 128))"

fun uri_decode :: "uri_item list \<Rightarrow> string option" where
  "uri_decode [] = Some []"
| "uri_decode (Lit c # xs) = map_option ((#) c) (uri_decode xs)"
| "uri_decode (Esc b # xs) =
     (let n = lead_ones b in
      if n = 0 then map_option ((#) (byte_char b)) (uri_decode xs)
      else if n = 1 \<or> 4 < n \<or> length xs < n - 1 then None
      else
        (let cont = map continuation (take (n - 1) xs) in
         if None \<in> set cont \<or> \<not> utf8_ok b (map the cont) then None
         else map_option ((@) (map byte_char (b # map the cont))) (uri_decode (drop (n - 1) xs))))"

definition decodeURIComponent :: "js \<Rightarrow> js_error + string" where
  "decodeURIComponent v =
     (case Option.bind (uri_items (ToString v)) uri_decode of
        None \<Rightarrow> Inl (JsError ''URIError'' ''URI malformed'')
      | Some s \<Rightarrow> Inr s)"

section \<open>The world: local files, the clock, and the trace of what was done\<close>

datatype level = DEBUG | INFO | WARN | ERROR

record local_file =
  content :: string
  mtime :: int

record notification_event =
  n_type :: string
  n_path :: string
  n_localPath :: string
  n_size :: nat
  n_timestamp :: int
  n_downloadDuration :: int

record send_message =
  QueueUrl :: string
  MessageBody :: notification_event
  ModelType :: string
  Category :: string

text \<open>
  Every call that leaves the program (the object store, the queue, the file system) and
  every log line is an event.  \<open>Data n\<close> is a \<open>data\<close> event of a readable stream,
  with a chunk of \<open>n\<close> bytes; \<open>Finish p\<close> is the write stream of \<open>p\<close> flushed and
  closed, which is what the promise of \<open>pipeline\<close> waits for.
\<close>

datatype event =
    Log level string
  | HeadObject string
  | GetObject string
  | ListObjectsV2 "string option"
  | SendMessage send_message
  | EnsureDir string
  | Access string
  | PathExists string
  | Stat string
  | ReadStream string
  | OpenWrite string
  | Data nat
  | Write string nat
  | Finish string
  | Remove string
  | Move string string

record world =
  files :: "string \<Rightarrow> local_file option"
  clock :: int
  trace :: "event list"

record head_output =
  ContentLength :: "nat option"
  LastModified :: "int option"
  ETag :: "string option"

record readable =
  chunks :: "string list"
  stream_error :: "js_error option"

record get_output =
  Body :: "readable option"

record list_entry =
  Key :: "string option"

record list_output =
  Contents :: "list_entry list option"
  NextContinuationToken :: "string option"

text \<open>
  What the program is configured with and what surrounds it.  The remote bucket answers
  \<open>head_object\<close>, \<open>get_object\<close> and \<open>list_objects\<close>; \<open>JSON_parse\<close> and \<open>sha256\<close>
  are the runtime's parser and digest.  \<open>fault\<close> decides, from the trace so far, whether
  an external call fails and with which error, and \<open>delay\<close> how long it takes
  (milliseconds), so that every call can fail and take time in every way.
\<close>

record env =
  modelsBasePath :: string
  notificationQueueUrl :: string
  head_object :: "string \<Rightarrow> head_output option"
  get_object :: "string \<Rightarrow> get_output option"
  list_objects :: "string option \<Rightarrow> list_output"
  JSON_parse :: "string \<Rightarrow> js_error + js"
  sha256 :: "string \<Rightarrow> string"
  fault :: "event list \<Rightarrow> event \<Rightarrow> js_error option"
  delay :: "event list \<Rightarrow> event \<Rightarrow> nat"

subsection \<open>Asynchronous code: a state and exception monad\<close>

text \<open>
  An \<open>async\<close> function is a function from the state to its outcome (\<open>Inl\<close>: the
  exception it throws or rejects with) and the state it leaves.  \<open>io_bind\<close> is
  \<open>await\<close> and sequencing, \<open>try_catch\<close> is \<open>try { ... } catch (error) { ... }\<close>.
\<close>

type_synonym ('s, 'a) io = "'s \<Rightarrow> (js_error + 'a) \<times> 's"

definition io_return :: "'a \<Rightarrow> ('s, 'a) io" where
  "io_return x = (\<lambda>s. (Inr x, s))"

definition io_throw :: "js_error \<Rightarrow> ('s, 'a) io" where
  "io_throw e = (\<lambda>s. (Inl e, s))"

definition io_bind :: "('s, 'a) io \<Rightarrow> ('a \<Rightarrow> ('s, 'b) io) \<Rightarrow> ('s, 'b) io" where
  "io_bind m f = (\<lambda>s. case m s of (Inl e, s') \<Rightarrow> (Inl e, s') | (Inr x, s') \<Rightarrow> f x s')"

definition io_then :: "('s, 'a) io \<Rightarrow> ('s, 'b) io \<Rightarrow> ('s, 'b) io" where
  "io_then m n = io_bind m (\<lambda>_. n)"

definition try_catch :: "('s, 'a) io \<Rightarrow> (js_error \<Rightarrow> ('s, 'a) io) \<Rightarrow> ('s, 'a) io" where
  "try_catch m h = (\<lambda>s. case m s of (Inl e, s') \<Rightarrow> h e s' | (Inr x, s') \<Rightarrow> (Inr x, s'))"

text \<open>A function with a mutable local variable runs on the pair of the variable and the world.\<close>

definition lift :: "(world, 'a) io \<Rightarrow> ('l \<times> world, 'a) io" where
  "lift m = (\<lambda>(l, w). case m w of (r, w') \<Rightarrow> (r, (l, w')))"

definition get_local :: "('l \<times> world, 'l) io" where
  "get_local = (\<lambda>(l, w). (Inr l, (l, w)))"

definition set_local :: "'l \<Rightarrow> ('l \<times> world, unit) io" where
  "set_local l' = (\<lambda>(l, w). (Inr (), (l', w)))"

definition with_local :: "'l \<Rightarrow> ('l \<times> world, 'a) io \<Rightarrow> (world, 'a) io" where
  "with_local l m = (\<lambda>w. case m (l, w) of (r, (l', w')) \<Rightarrow> (r, w'))"

subsection \<open>The primitives\<close>

definition Date_now :: "(world, int) io" where
  "Date_now = (\<lambda>w. (Inr (clock w), w))"

definition logger :: "level \<Rightarrow> string \<Rightarrow> (world, unit) io" where
  "logger lvl msg = (\<lambda>w. (Inr (), w\<lparr>trace := trace w @ [Log lvl msg]\<rparr>))"

text \<open>
  An external call: it takes its time, is recorded, and fails when the environment says
  so; otherwise it does what \<open>act\<close> says.
\<close>

definition ext :: "env \<Rightarrow> event \<Rightarrow> (world, 'a) io \<Rightarrow> (world, 'a) io" where
  "ext E ev act = (\<lambda>w.
     let w' = w\<lparr>clock := clock w + int (delay E (trace w) ev), trace := trace w @ [ev]\<rparr>
     in case fault E (trace w) ev of Some e \<Rightarrow> (Inl e, w') | None \<Rightarrow> act w')"

definition ENOENT :: "string \<Rightarrow> string \<Rightarrow> js_error" where
  "ENOENT syscall p =
     JsError ''Error''
       (''ENOENT: no such file or directory, '' @ syscall @ '' '' @ [CHR 0x27] @ p @ [CHR 0x27])"

text \<open>\<open>fs.pathExists\<close> of fs-extra: \<open>access\<close>, with every failure turned into \<open>false\<close>.\<close>

definition fs_pathExists :: "env \<Rightarrow> string \<Rightarrow> (world, bool) io" where
  "fs_pathExists E p =
     try_catch (ext E (PathExists p) (\<lambda>w. (Inr (files w p \<noteq> None), w)))
       (\<lambda>error. io_return False)"

definition fs_stat :: "env \<Rightarrow> string \<Rightarrow> (world, nat \<times> int) io" where
  "fs_stat E p = ext E (Stat p) (\<lambda>w.
     case files w p of
       None \<Rightarrow> (Inl (ENOENT ''stat'' p), w)
     | Some f \<Rightarrow> (Inr (length (content f), mtime f), w))"

text \<open>\<open>fs.remove\<close> of fs-extra: removing what is not there succeeds.\<close>

definition fs_remove :: "env \<Rightarrow> string \<Rightarrow> (world, unit) io" where
  "fs_remove E p = ext E (Remove p) (\<lambda>w. (Inr (), w\<lparr>files := (files w)(p := None)\<rparr>))"

text \<open>\<open>fs.move\<close> with \<open>overwrite: true\<close>: a rename onto the destination.\<close>

definition fs_move :: "env \<Rightarrow> string \<Rightarrow> string \<Rightarrow> (world, unit) io" where
  "fs_move E src dst = ext E (Move src dst) (\<lambda>w.
     case files w src of
       None \<Rightarrow> (Inl (ENOENT ''lstat'' src), w)
     | Some f \<Rightarrow>
         if src = dst then
           (Inl (JsError ''Error'' ''Source and destination must not be the same.''), w)
         else (Inr (), w\<lparr>files := (files w)(src := None, dst := Some f)\<rparr>))"

text \<open>Directories are not part of \<open>files\<close>: creating and reaching one only can fail.\<close>

definition fs_ensureDir :: "env \<Rightarrow> string \<Rightarrow> (world, unit) io" where
  "fs_ensureDir E d = ext E (EnsureDir d) (\<lambda>w. (Inr (), w))"

definition fs_access :: "env \<Rightarrow> string \<Rightarrow> (world, unit) io" where
  "fs_access E p = ext E (Access p) (\<lambda>w. (Inr (), w))"

text \<open>
  \<open>path.dirname\<close> (POSIX), as Node computes it: the path is read from its end down to
  its second character, the slashes at the end and the last segment are passed, and the
  result is what stands before the slash found there.  The slashes before that one are
  kept.  When no slash is found the result is \<open>/\<close> for a path that starts with a
  slash and \<open>.\<close> otherwise.
\<close>

definition dirname :: "string \<Rightarrow> string" where
  "dirname p =
     (if p = [] then ''.''
      else
        (let hasRoot = (hd p = CHR ''/'');
             found = dropWhile (\<lambda>c. c \<noteq> CHR ''/'')
                       (dropWhile (\<lambda>c. c = CHR ''/'') (rev (tl p)))
         in if found = [] then (if hasRoot then ''/'' else ''.'')
            else if hasRoot \<and> tl found = [] then ''//''
            else hd p # rev (tl found)))"

text \<open>
  \<open>pipeline(bodyStream, fs.createWriteStream(tmp))\<close>, with the \<open>data\<close> listener the
  caller has put on the body: the file is opened (created, or truncated), every chunk
  is handed to the listener and written, and when the body has ended the write stream
  is flushed and closed.  The promise rejects with the first error, of the body or of
  a write, and fulfils only after \<open>Finish\<close>.  The write stream keeps pace with the
  body: a chunk is in the file before the body delivers the next chunk, ends or fails.
\<close>

definition open_write :: "env \<Rightarrow> string \<Rightarrow> (world, unit) io" where
  "open_write E p = ext E (OpenWrite p) (\<lambda>w.
     (Inr (), w\<lparr>files := (files w)(p := Some \<lparr>content = [], mtime = clock w\<rparr>)\<rparr>))"

definition write_chunk :: "env \<Rightarrow> string \<Rightarrow> string \<Rightarrow> (world, unit) io" where
  "write_chunk E p c = ext E (Write p (length c)) (\<lambda>w.
     case files w p of
       None \<Rightarrow> (Inl (ENOENT ''write'' p), w)
     | Some f \<Rightarrow>
         (Inr (), w\<lparr>files := (files w)(p := Some \<lparr>content = content f @ c, mtime = clock w\<rparr>)\<rparr>))"

definition finish_write :: "env \<Rightarrow> string \<Rightarrow> (world, unit) io" where
  "finish_write E p = ext E (Finish p) (\<lambda>w. (Inr (), w))"

definition emit_data :: "nat \<Rightarrow> ('l \<times> world, unit) io" where
  "emit_data n = lift (\<lambda>w. (Inr (), w\<lparr>trace := trace w @ [Data n]\<rparr>))"

fun pump :: "env \<Rightarrow> (string \<Rightarrow> ('l \<times> world, unit) io) \<Rightarrow> string \<Rightarrow> string list
    \<Rightarrow> ('l \<times> world, unit) io" where
  "pump E on_data p [] = io_return ()"
| "pump E on_data p (c # cs) =
     io_then (emit_data (length c))
       (io_then (on_data c)
          (io_then (lift (write_chunk E p c)) (pump E on_data p cs)))"

definition pipeline :: "env \<Rightarrow> (string \<Rightarrow> ('l \<times> world, unit) io) \<Rightarrow> readable \<Rightarrow> string
    \<Rightarrow> ('l \<times> world, unit) io" where
  "pipeline E on_data bodyStream p =
     io_then (lift (open_write E p))
       (io_then (pump E on_data p (chunks bodyStream))
          (case stream_error bodyStream of
             Some e \<Rightarrow> io_throw e
           | None \<Rightarrow> lift (finish_write E p)))"

text \<open>A value or exception already computed, as a computation.\<close>

definition io_of :: "js_error + 'a \<Rightarrow> ('s, 'a) io" where
  "io_of r = (\<lambda>s. (r, s))"

text \<open>
  Log lines keep their level and the text of the message with its string-valued
  interpolations; pictographs, numbers and the metadata object are left out.
\<close>

section \<open>utils/fileValidator.ts\<close>

definition isModelFile :: "string \<Rightarrow> bool" where
  "isModelFile key =
     (let modelExtensions =
            [''.pth'', ''.bin'', ''.onnx'', ''.safetensors'', ''.pkl'', ''.json'', ''.txt''];
          lowerKey = toLowerCase key
      in list_ex (\<lambda>ext. endsWith lowerKey ext) modelExtensions)"

definition calculateSHA256 :: "env \<Rightarrow> string \<Rightarrow> (world, string) io" where
  "calculateSHA256 E filePath = ext E (ReadStream filePath) (\<lambda>w.
     case files w filePath of
       None \<Rightarrow> (Inl (ENOENT ''open'' filePath), w)
     | Some f \<Rightarrow> (Inr (sha256 E (content f)), w))"

text \<open>
  The optional parameters are \<open>None\<close> when left out.  \<open>expectedSize && ...\<close> and
  \<open>if (expectedHash)\<close> test truthiness: a number other than 0, a string other than
  the empty one.
\<close>

definition verifyFileIntegrity ::
    "env \<Rightarrow> string \<Rightarrow> nat option \<Rightarrow> string option \<Rightarrow> (world, bool) io" where
  "verifyFileIntegrity E filePath expectedSize expectedHash =
     try_catch
       (io_bind (fs_stat E filePath) (\<lambda>stats.
          if expectedSize \<noteq> None \<and> expectedSize \<noteq> Some 0 \<and> Some (fst stats) \<noteq> expectedSize then
            io_then (logger WARN ''File size mismatch'') (io_return False)
          else if expectedHash \<noteq> None \<and> expectedHash \<noteq> Some [] then
            io_bind (calculateSHA256 E filePath) (\<lambda>actualHash.
              if Some actualHash \<noteq> expectedHash then
                io_then (logger WARN ''File hash mismatch'') (io_return False)
              else
                io_then (logger INFO ''File integrity verified successfully'') (io_return True))
          else
            io_then (logger INFO ''File integrity verified successfully'') (io_return True)))
       (\<lambda>error.
          io_then (logger ERROR (''Error verifying file integrity: '' @ error_toString error))
            (io_return False))"

definition checkDiskSpace :: "env \<Rightarrow> string \<Rightarrow> (world, bool) io" where
  "checkDiskSpace E targetPath =
     try_catch
       (io_then (fs_access E targetPath) (io_return True))
       (\<lambda>error.
          io_then (logger ERROR (''Error checking disk space: '' @ error_toString error))
            (io_return False))"

definition cleanupTempFile :: "env \<Rightarrow> string \<Rightarrow> (world, unit) io" where
  "cleanupTempFile E filePath =
     try_catch
       (io_bind (fs_pathExists E filePath) (\<lambda>present.
          if present then
            io_then (fs_remove E filePath) (logger DEBUG (''Cleaned up temp file: '' @ filePath))
          else io_return ()))
       (\<lambda>error. logger WARN (''Failed to cleanup temp file: '' @ error_toString error))"

section \<open>services/S3Service.ts\<close>

record object_info =
  obj_size :: nat
  lastModified :: int
  etag :: string

record download_result =
  dl_success :: bool
  dl_size :: nat
  dl_duration :: int

definition s3_send_head :: "env \<Rightarrow> string \<Rightarrow> (world, head_output) io" where
  "s3_send_head E key = ext E (HeadObject key) (\<lambda>w.
     case head_object E key of
       None \<Rightarrow> (Inl (JsError ''NotFound'' ''UnknownError''), w)
     | Some r \<Rightarrow> (Inr r, w))"

definition s3_send_get :: "env \<Rightarrow> string \<Rightarrow> (world, get_output) io" where
  "s3_send_get E key = ext E (GetObject key) (\<lambda>w.
     case get_object E key of
       None \<Rightarrow> (Inl (JsError ''NoSuchKey'' ''The specified key does not exist.''), w)
     | Some r \<Rightarrow> (Inr r, w))"

definition s3_send_list :: "env \<Rightarrow> string option \<Rightarrow> (world, list_output) io" where
  "s3_send_list E token = ext E (ListObjectsV2 token) (\<lambda>w. (Inr (list_objects E token), w))"

definition getObjectInfo :: "env \<Rightarrow> string \<Rightarrow> (world, object_info option) io" where
  "getObjectInfo E key =
     try_catch
       (io_bind (s3_send_head E key) (\<lambda>response.
          io_bind Date_now (\<lambda>newDate.
            io_return (Some
              \<lparr>obj_size = (case ContentLength response of None \<Rightarrow> 0 | Some n \<Rightarrow> n),
               lastModified = (case LastModified response of None \<Rightarrow> newDate | Some t \<Rightarrow> t),
               etag = (case ETag response of
                         None \<Rightarrow> []
                       | Some t \<Rightarrow> filter (\<lambda>c. c \<noteq> CHR 0x22) t)\<rparr>))))
       (\<lambda>error.
          if err_name error = ''NotFound'' then io_return None
          else
            io_then (logger ERROR (''Error getting S3 object info: '' @ err_message error))
              (io_throw error))"

text \<open>The \<open>data\<close> listener of \<open>downloadFile\<close>; the local variable is \<open>downloadedSize\<close>.\<close>

definition downloadFile_on_data :: "string \<Rightarrow> (nat \<times> world, unit) io" where
  "downloadFile_on_data chunk =
     io_bind get_local (\<lambda>downloadedSize.
       io_then (set_local (downloadedSize + length chunk))
         (if (downloadedSize + length chunk) mod (10 * 1024 * 1024) = 0 then
            lift (logger DEBUG ''Download progress'')
          else io_return ()))"

text \<open>The inner \<open>try\<close> of \<open>downloadFile\<close>, from the staging path on, with its \<open>catch\<close>.\<close>

definition downloadFile_staging ::
    "env \<Rightarrow> string \<Rightarrow> string \<Rightarrow> int \<Rightarrow> object_info \<Rightarrow> readable
      \<Rightarrow> (nat \<times> world, download_result) io" where
  "downloadFile_staging E s3Key localPath startTime objectInfo bodyStream =
     (let tempPath = localPath @ ''.tmp'' in
      try_catch
        (io_then (pipeline E downloadFile_on_data bodyStream tempPath)
           (io_bind (lift (verifyFileIntegrity E tempPath (Some (obj_size objectInfo)) None))
              (\<lambda>isValid.
                 if \<not> isValid then
                   io_then (lift (cleanupTempFile E tempPath))
                     (io_throw (JsError ''Error'' ''Downloaded file failed integrity check''))
                 else
                   io_then (lift (fs_move E tempPath localPath))
                     (io_bind (lift Date_now) (\<lambda>t.
                        let duration = t - startTime in
                        io_then (lift (logger INFO ''Successfully downloaded file from S3''))
                          (io_bind get_local (\<lambda>downloadedSize.
                             io_return
                               \<lparr>dl_success = True, dl_size = downloadedSize,
                                dl_duration = duration\<rparr>)))))))
        (\<lambda>error. io_then (lift (cleanupTempFile E tempPath)) (io_throw error)))"

text \<open>The outer \<open>try\<close> of \<open>downloadFile\<close>.\<close>

definition downloadFile_body ::
    "env \<Rightarrow> string \<Rightarrow> string \<Rightarrow> int \<Rightarrow> (nat \<times> world, download_result) io" where
  "downloadFile_body E s3Key localPath startTime =
     io_then (lift (logger INFO (''Starting download from S3: '' @ s3Key @ '' -> '' @ localPath)))
       (io_bind (lift (getObjectInfo E s3Key)) (\<lambda>info.
          case info of
            None \<Rightarrow> io_throw (JsError ''Error'' (''S3 object not found: '' @ s3Key))
          | Some objectInfo \<Rightarrow>
              (let targetDir = dirname localPath in
               io_then (lift (fs_ensureDir E targetDir))
                 (io_bind (lift (checkDiskSpace E targetDir)) (\<lambda>hasSpace.
                    if \<not> hasSpace then
                      io_throw (JsError ''Error''
                        (''Insufficient disk space for download: ''
                           @ show_nat (obj_size objectInfo) @ '' bytes required''))
                    else
                      io_bind (lift (s3_send_get E s3Key)) (\<lambda>response.
                        case Body response of
                          None \<Rightarrow> io_throw (JsError ''Error'' ''Empty response body from S3'')
                        | Some bodyStream \<Rightarrow>
                            downloadFile_staging E s3Key localPath startTime objectInfo
                              bodyStream))))))"

definition downloadFile :: "env \<Rightarrow> string \<Rightarrow> string \<Rightarrow> (world, download_result) io" where
  "downloadFile E s3Key localPath =
     io_bind Date_now (\<lambda>startTime.
       with_local 0
         (try_catch (downloadFile_body E s3Key localPath startTime)
            (\<lambda>error.
               io_bind (lift Date_now) (\<lambda>t.
                 let duration = t - startTime in
                 io_then
                   (lift (logger ERROR
                      (''Failed to download file from S3: '' @ err_message error)))
                   (io_bind get_local (\<lambda>downloadedSize.
                      io_return
                        \<lparr>dl_success = False, dl_size = downloadedSize,
                         dl_duration = duration\<rparr>))))))"

definition shouldUpdateFile :: "env \<Rightarrow> string \<Rightarrow> string \<Rightarrow> (world, bool) io" where
  "shouldUpdateFile E s3Key localPath =
     try_catch
       (io_bind (fs_pathExists E localPath) (\<lambda>present.
          if \<not> present then
            io_then (logger DEBUG (''Local file does not exist, update needed: '' @ localPath))
              (io_return True)
          else
            io_bind (getObjectInfo E s3Key) (\<lambda>info.
              case info of
                None \<Rightarrow> io_then (logger WARN (''S3 object not found: '' @ s3Key)) (io_return False)
              | Some s3Info \<Rightarrow>
                  io_bind (fs_stat E localPath) (\<lambda>localStats.
                    if fst localStats \<noteq> obj_size s3Info then
                      io_then (logger DEBUG ''File size differs, update needed'') (io_return True)
                    else if snd localStats < lastModified s3Info then
                      io_then (logger DEBUG ''S3 file is newer, update needed'') (io_return True)
                    else
                      io_then (logger DEBUG (''File is up to date: '' @ localPath))
                        (io_return False)))))
       (\<lambda>error.
          io_then (logger ERROR (''Error checking if file should update: '' @ err_message error))
            (io_return True))"

text \<open>
  The \<open>do ... while (continuationToken)\<close> of \<open>listAllModels\<close>.  The bucket decides the
  tokens, so the loop need not end: not returning is the value \<open>None\<close>.
\<close>

definition listed_models :: "list_output \<Rightarrow> string list" where
  "listed_models response =
     (case Contents response of
        None \<Rightarrow> []
      | Some objects \<Rightarrow>
          concat (map (\<lambda>object.
            case Key object of
              None \<Rightarrow> []
            | Some k \<Rightarrow> if k \<noteq> [] \<and> isModelFile k then [k] else []) objects))"

partial_function (option) listAllModels_loop ::
    "env \<Rightarrow> string option \<Rightarrow> string list \<Rightarrow> world \<Rightarrow> ((js_error + string list) \<times> world) option"
  where
  "listAllModels_loop E continuationToken models w =
     (case s3_send_list E continuationToken w of
        (Inl e, w') \<Rightarrow> Some (Inl e, w')
      | (Inr response, w') \<Rightarrow>
          (let models' = models @ listed_models response;
               continuationToken' = NextContinuationToken response
           in if continuationToken' \<noteq> None \<and> continuationToken' \<noteq> Some []
              then listAllModels_loop E continuationToken' models' w'
              else Some (Inr models', w')))"

declare listAllModels_loop.simps [code]

definition listAllModels :: "env \<Rightarrow> world \<Rightarrow> ((js_error + string list) \<times> world) option" where
  "listAllModels E w =
     map_option
       (\<lambda>(r, w').
          try_catch
            (io_bind (io_of r) (\<lambda>models.
               io_then (logger INFO ''Found model files in S3 bucket'') (io_return models)))
            (\<lambda>error.
               io_then (logger ERROR (''Error listing models from S3: '' @ err_message error))
                 (io_throw error))
            w')
       (listAllModels_loop E None [] w)"

section \<open>services/ModelSyncService.ts\<close>

record sqs_message =
  MessageId :: "string option"
  ReceiptHandle :: "string option"
  MessageText :: "string option"

text \<open>\<open>MessageText\<close> is the \<open>Body\<close> of the received message.\<close>

record model_update_event =
  ev_type :: string
  ev_bucket :: js
  ev_key :: string
  ev_size :: js
  ev_timestamp :: js
  ev_category :: string
  ev_modelType :: string

record sync_summary =
  r_success :: bool
  r_totalModels :: nat
  r_syncedModels :: nat
  r_errors :: "string list"
  r_duration :: int

definition getLocalModelPath :: "env \<Rightarrow> string \<Rightarrow> string" where
  "getLocalModelPath E s3Key = modelsBasePath E @ ''/'' @ s3Key"

definition parseModelEvent :: "js \<Rightarrow> string \<Rightarrow> (world, model_update_event option) io" where
  "parseModelEvent rcd decodedKey =
     try_catch
       (let pathParts = split_on (CHR ''/'') decodedKey in
        if length pathParts < 2 then io_return None
        else
          (let category = pathParts ! 0; modelType = pathParts ! 1 in
           io_bind (io_of (get_prop rcd ''eventName'')) (\<lambda>eventName.
           io_bind (io_of (js_includes eventName ''ObjectRemoved'')) (\<lambda>removed.
           io_bind (io_of (get_prop rcd ''s3'')) (\<lambda>s3.
           io_bind (io_of (get_prop s3 ''bucket'')) (\<lambda>bucket.
           io_bind (io_of (get_prop bucket ''name'')) (\<lambda>bucketName.
           io_bind (io_of (get_prop s3 ''object'')) (\<lambda>obj.
           io_bind (io_of (get_prop obj ''size'')) (\<lambda>objSize.
           io_bind (io_of (get_prop rcd ''eventTime'')) (\<lambda>eventTime.
             io_return (Some
               \<lparr>ev_type = (if removed then ''model_deleted'' else ''model_updated''),
                ev_bucket = bucketName,
                ev_key = decodedKey,
                ev_size = objSize,
                ev_timestamp = eventTime,
                ev_category = category,
                ev_modelType = modelType\<rparr>)))))))))))
       (\<lambda>error. io_then (logger ERROR ''Error parsing model event'') (io_return None))"

definition notifyApplications :: "env \<Rightarrow> notification_event \<Rightarrow> (world, unit) io" where
  "notifyApplications E notification =
     try_catch
       (let parts = split_on (CHR ''/'') (n_path notification) in
        io_then
          (ext E
             (SendMessage
                \<lparr>QueueUrl = notificationQueueUrl E,
                 MessageBody = notification,
                 ModelType =
                   (if 1 < length parts \<and> parts ! 1 \<noteq> [] then parts ! 1 else ''unknown''),
                 Category =
                   (if 0 < length parts \<and> parts ! 0 \<noteq> [] then parts ! 0 else ''unknown'')\<rparr>)
             (io_return ()))
          (logger INFO ''Notification sent to applications''))
       (\<lambda>error.
          io_then (logger ERROR (''Failed to notify applications: '' @ err_message error))
            (io_throw error))"

definition handleModelUpdate :: "env \<Rightarrow> model_update_event \<Rightarrow> (world, unit) io" where
  "handleModelUpdate E event =
     try_catch
       (io_then (logger INFO (''Processing model update: '' @ ev_key event))
          (let localPath = getLocalModelPath E (ev_key event) in
           io_bind (shouldUpdateFile E (ev_key event) localPath) (\<lambda>shouldUpdate.
             if \<not> shouldUpdate then
               io_then (logger INFO (''Model is already up to date: '' @ ev_key event))
                 (io_return ())
             else
               io_bind (downloadFile E (ev_key event) localPath) (\<lambda>downloadResult.
                 if dl_success downloadResult then
                   io_then (logger INFO (''Model updated successfully: '' @ ev_key event))
                     (io_bind Date_now (\<lambda>t.
                        notifyApplications E
                          \<lparr>n_type = ''model_updated'',
                           n_path = ev_key event,
                           n_localPath = localPath,
                           n_size = dl_size downloadResult,
                           n_timestamp = t,
                           n_downloadDuration = dl_duration downloadResult\<rparr>))
                 else io_throw (JsError ''Error'' ''Model download failed'')))))
       (\<lambda>error.
          io_then (logger ERROR (''Failed to update model: '' @ err_message error))
            (io_throw error))"

definition handleModelDeletion :: "env \<Rightarrow> model_update_event \<Rightarrow> (world, unit) io" where
  "handleModelDeletion E event =
     try_catch
       (io_then (logger INFO (''Processing model deletion: '' @ ev_key event))
          (let localPath = getLocalModelPath E (ev_key event) in
           io_then (cleanupTempFile E localPath)
             (logger INFO (''Model deleted successfully: '' @ ev_key event))))
       (\<lambda>error.
          io_then (logger ERROR (''Failed to delete model: '' @ err_message error))
            (io_throw error))"

definition handleS3Event :: "env \<Rightarrow> js \<Rightarrow> (world, unit) io" where
  "handleS3Event E rcd =
     io_bind (io_of (get_prop rcd ''s3'')) (\<lambda>s3.
     io_bind (io_of (get_prop s3 ''object'')) (\<lambda>obj.
     io_bind (io_of (get_prop obj ''key'')) (\<lambda>rawKey.
     io_bind (io_of (decodeURIComponent rawKey)) (\<lambda>key.
     io_bind (io_of (get_prop rcd ''eventName'')) (\<lambda>eventName.
       io_then (logger INFO (''Processing S3 event: '' @ ToString eventName @ '' for '' @ key))
         (if \<not> isModelFile key then
            io_then (logger DEBUG (''Skipping non-model file: '' @ key)) (io_return ())
          else
            io_bind (parseModelEvent rcd key) (\<lambda>parsed.
              case parsed of
                None \<Rightarrow>
                  io_then (logger WARN (''Failed to parse model event for: '' @ key))
                    (io_return ())
              | Some modelEvent \<Rightarrow>
                  io_bind (io_of (js_includes eventName ''ObjectCreated'')) (\<lambda>created.
                  io_bind (if created then io_return True
                           else io_of (js_includes eventName ''ObjectModified'')) (\<lambda>updated.
                    if updated then handleModelUpdate E modelEvent
                    else
                      io_bind (io_of (js_includes eventName ''ObjectRemoved'')) (\<lambda>removed.
                        if removed then handleModelDeletion E modelEvent
                        else
                          logger DEBUG
                            (''Unsupported event type: '' @ ToString eventName)))))))))))"

text \<open>The \<open>for (const record of s3Event.Records)\<close> of \<open>handleMessage\<close>.\<close>

fun handleMessage_records :: "env \<Rightarrow> js list \<Rightarrow> (world, unit) io" where
  "handleMessage_records E [] = io_return ()"
| "handleMessage_records E (rcd # rest) =
     io_then (handleS3Event E rcd) (handleMessage_records E rest)"

definition handleMessage :: "env \<Rightarrow> sqs_message \<Rightarrow> (world, unit) io" where
  "handleMessage E message =
     try_catch
       (io_bind
          (io_of (JSON_parse E
             (case MessageText message of None \<Rightarrow> ''undefined'' | Some text \<Rightarrow> text)))
          (\<lambda>s3Event.
             io_bind (io_of (get_prop s3Event ''Records'')) (\<lambda>records.
               if \<not> truthy records \<or> \<not> isArray records then
                 io_then (logger WARN ''Invalid S3 event format, skipping'') (io_return ())
               else
                 handleMessage_records E (case records of JArr rs \<Rightarrow> rs | _ \<Rightarrow> []))))
       (\<lambda>error.
          io_then (logger ERROR (''Error parsing SQS message: '' @ err_message error))
            (io_throw error))"

text \<open>
  The \<open>for (const modelKey of allModels)\<close> of \<open>triggerFullSync\<close>; the local variables
  are \<open>errors\<close> and \<open>syncedModels\<close>.
\<close>

fun triggerFullSync_models ::
    "env \<Rightarrow> string list \<Rightarrow> ((string list \<times> nat) \<times> world, unit) io" where
  "triggerFullSync_models E [] = io_return ()"
| "triggerFullSync_models E (modelKey # rest) =
     io_then
       (try_catch
          (let localPath = getLocalModelPath E modelKey in
           io_bind (lift (shouldUpdateFile E modelKey localPath)) (\<lambda>shouldUpdate.
             if shouldUpdate then
               io_then (lift (logger INFO (''Syncing model: '' @ modelKey)))
                 (io_bind (lift (downloadFile E modelKey localPath)) (\<lambda>downloadResult.
                    if dl_success downloadResult then
                      io_bind get_local (\<lambda>(errors, syncedModels).
                        io_then (set_local (errors, syncedModels + 1))
                          (lift (logger INFO (''Successfully synced: '' @ modelKey))))
                    else
                      io_bind get_local (\<lambda>(errors, syncedModels).
                        io_then
                          (set_local (errors @ [''Failed to download '' @ modelKey], syncedModels))
                          (lift (logger ERROR (''Failed to sync: '' @ modelKey))))))
             else lift (logger DEBUG (''Model already up to date: '' @ modelKey))))
          (\<lambda>error.
             io_bind get_local (\<lambda>(errors, syncedModels).
               io_then
                 (set_local
                    (errors @ [''Error syncing '' @ modelKey @ '': '' @ err_message error],
                     syncedModels))
                 (lift (logger ERROR
                    (''Error syncing model '' @ modelKey @ '': '' @ err_message error))))))
       (triggerFullSync_models E rest)"

definition triggerFullSync :: "env \<Rightarrow> world \<Rightarrow> ((js_error + sync_summary) \<times> world) option" where
  "triggerFullSync E w =
     (let startTime = clock w;
          w1 = snd (logger INFO ''Starting manual full sync...'' w)
      in map_option
           (\<lambda>(listed, w2).
              with_local ([], 0)
                (try_catch
                   (io_bind (io_of listed) (\<lambda>allModels.
                      if length allModels = 0 then
                        io_then (lift (logger INFO ''No models found in S3 bucket''))
                          (io_bind (lift Date_now) (\<lambda>t.
                             io_return
                               \<lparr>r_success = True, r_totalModels = 0, r_syncedModels = 0,
                                r_errors = [], r_duration = t - startTime\<rparr>))
                      else
                        io_then (lift (logger INFO ''Found models in S3, starting sync...''))
                          (io_then (triggerFullSync_models E allModels)
                             (io_bind (lift Date_now) (\<lambda>t.
                                io_bind get_local (\<lambda>(errors, syncedModels).
                                  io_then (lift (logger INFO ''Full sync completed''))
                                    (io_return
                                       \<lparr>r_success = (length errors = 0),
                                        r_totalModels = length allModels,
                                        r_syncedModels = syncedModels,
                                        r_errors = errors,
                                        r_duration = t - startTime\<rparr>)))))))
                   (\<lambda>error.
                      io_bind (lift Date_now) (\<lambda>t.
                        io_then (lift (logger ERROR (''Full sync failed: '' @ err_message error)))
                          (io_bind get_local (\<lambda>(errors, syncedModels).
                             io_return
                               \<lparr>r_success = False, r_totalModels = 0,
                                r_syncedModels = syncedModels,
                                r_errors = [err_message error],
                                r_duration = t - startTime\<rparr>)))))
                w2)
           (listAllModels E w1))"

section \<open>services/HealthCheckService.ts\<close>

text \<open>
  Times are milliseconds.  \<open>now\<close> is what the clock reads during the call and
  \<open>process_uptime\<close> what \<open>Math.floor(process.uptime())\<close> gives; the memory usage is
  left out of the health data.
\<close>

record health_service =
  lastProcessedTime :: "int option"
  hs_startTime :: int
  isHealthy :: bool

record health_data =
  status :: string
  uptime :: int
  h_timestamp :: int
  lastProcessed :: "int option"
  timeSinceLastProcess :: "int option"

definition new_HealthCheckService :: "int \<Rightarrow> health_service" where
  "new_HealthCheckService now = \<lparr>lastProcessedTime = None, hs_startTime = now, isHealthy = True\<rparr>"

definition getHealth :: "int \<Rightarrow> int \<Rightarrow> health_service \<Rightarrow> health_data \<times> health_service" where
  "getHealth now process_uptime svc =
     (let healthData =
            \<lparr>status = (if isHealthy svc then ''healthy'' else ''unhealthy''),
             uptime = process_uptime,
             h_timestamp = now,
             lastProcessed = lastProcessedTime svc,
             timeSinceLastProcess =
               (case lastProcessedTime svc of None \<Rightarrow> None | Some t \<Rightarrow> Some (now - t))\<rparr>;
          maxIdleTime = 10 * 60 * 1000
      in case lastProcessedTime svc of
           None \<Rightarrow> (healthData, svc)
         | Some t \<Rightarrow>
             if maxIdleTime < now - t then
               (healthData\<lparr>status := ''unhealthy''\<rparr>, svc\<lparr>isHealthy := False\<rparr>)
             else (healthData, svc))"

definition updateLastProcessed :: "int \<Rightarrow> health_service \<Rightarrow> health_service" where
  "updateLastProcessed now svc = svc\<lparr>lastProcessedTime := Some now, isHealthy := True\<rparr>"

definition setHealthy :: "bool \<Rightarrow> health_service \<Rightarrow> health_service" where
  "setHealthy healthy svc = svc\<lparr>isHealthy := healthy\<rparr>"

text \<open>
  The calls the HTTP surface and the sync loop make on the service, to speak of every
  sequence of calls.
\<close>

datatype health_call = GetHealth int int | UpdateLastProcessed int | SetHealthy bool

fun health_step :: "health_call \<Rightarrow> health_service \<Rightarrow> health_service" where
  "health_step (GetHealth now process_uptime) svc = snd (getHealth now process_uptime svc)"
| "health_step (UpdateLastProcessed now) svc = updateLastProcessed now svc"
| "health_step (SetHealthy healthy) svc = setHealthy healthy svc"

fun is_update :: "health_call \<Rightarrow> bool" where
  "is_update (UpdateLastProcessed now) = True"
| "is_update (GetHealth now process_uptime) = False"
| "is_update (SetHealthy healthy) = False"

section \<open>Concrete environments\<close>

text \<open>
  An environment with an empty bucket in which no call fails and every call takes one
  millisecond, and a world with no local file; the concrete runs below start from them.
\<close>

definition env0 :: env where
  "env0 =
     \<lparr>modelsBasePath = ''/models'',
      notificationQueueUrl = ''https://sqs.local/notify'',
      head_object = (\<lambda>key. None),
      get_object = (\<lambda>key. None),
      list_objects = (\<lambda>token. \<lparr>Contents = None, NextContinuationToken = None\<rparr>),
      JSON_parse = (\<lambda>text. Inl (JsError ''SyntaxError'' ''Unexpected token'')),
      sha256 = (\<lambda>bytes. bytes),
      fault = (\<lambda>h ev. None),
      delay = (\<lambda>h ev. 1)\<rparr>"

definition world0 :: world where
  "world0 = \<lparr>files = (\<lambda>p. None), clock = 0, trace = []\<rparr>"

definition put_file :: "string \<Rightarrow> string \<Rightarrow> int \<Rightarrow> world \<Rightarrow> world" where
  "put_file p bytes t w = w\<lparr>files := (files w)(p := Some \<lparr>content = bytes, mtime = t\<rparr>)\<rparr>"

definition removal_event :: model_update_event where
  "removal_event =
     \<lparr>ev_type = ''model_deleted'', ev_bucket = JStr ''voice-models'',
      ev_key = ''essential/voice/model.bin'', ev_size = JNum 1000,
      ev_timestamp = JStr ''2024-01-01T00:00:00.000Z'',
      ev_category = ''essential'', ev_modelType = ''voice''\<rparr>"

definition env_remove_fails :: env where
  "env_remove_fails =
     env0\<lparr>fault := (\<lambda>h ev.
       if ev = Remove ''/models/essential/voice/model.bin''
       then Some (JsError ''Error'' ''EPERM: operation not permitted'') else None)\<rparr>"

definition model_key :: string where
  "model_key = ''essential/voice/model.bin''"

definition model_path :: string where
  "model_path = ''/models/essential/voice/model.bin''"

text \<open>The bucket holds one object of three bytes, served in two chunks.\<close>

definition env_model :: env where
  "env_model =
     env0\<lparr>head_object := (\<lambda>key.
             if key = model_key
             then Some \<lparr>ContentLength = Some 3, LastModified = Some 5000, ETag = Some ''abc''\<rparr>
             else None),
          get_object := (\<lambda>key.
             if key = model_key
             then Some \<lparr>Body = Some \<lparr>chunks = [''ab'', ''c''], stream_error = None\<rparr>\<rparr>
             else None)\<rparr>"

section \<open>Notions the properties are stated with\<close>

text \<open>
  The staleness decision in the words of the specification, on what the three
  observations gave: whether a local file exists, the remote descriptor (absent, or an
  unexpected error), and the size and modification time of the local file.
\<close>

definition needsUpdate_spec ::
    "bool \<Rightarrow> js_error + object_info option \<Rightarrow> js_error + nat \<times> int \<Rightarrow> bool" where
  "needsUpdate_spec localExists remote localStat =
     (if \<not> localExists then True
      else
        (case remote of
           Inl unexpected \<Rightarrow> True
         | Inr None \<Rightarrow> False
         | Inr (Some descriptor) \<Rightarrow>
             (case localStat of
                Inl unexpected \<Rightarrow> True
              | Inr (localSize, localTime) \<Rightarrow>
                  if localSize \<noteq> obj_size descriptor then True
                  else if localTime < lastModified descriptor then True
                  else False)))"

text \<open>The bytes that the \<open>data\<close> events of a trace have delivered.\<close>

fun data_bytes :: "event list \<Rightarrow> nat" where
  "data_bytes [] = 0"
| "data_bytes (Data n # evs) = n + data_bytes evs"
| "data_bytes (ev # evs) = data_bytes evs"

text \<open>
  \<open>keeps R m\<close>: every run of \<open>m\<close> relates the state it starts from to the state it
  leaves.  \<open>only_events A\<close> relates two worlds when the trace has grown by events that
  satisfy \<open>A\<close>.
\<close>

definition keeps :: "('s \<Rightarrow> 's \<Rightarrow> bool) \<Rightarrow> ('s, 'a) io \<Rightarrow> bool" where
  "keeps R m = (\<forall>s r s'. m s = (r, s') \<longrightarrow> R s s')"

definition preorder_rel :: "('s \<Rightarrow> 's \<Rightarrow> bool) \<Rightarrow> bool" where
  "preorder_rel R = ((\<forall>s. R s s) \<and> (\<forall>s t u. R s t \<longrightarrow> R t u \<longrightarrow> R s u))"

definition only_events :: "(event \<Rightarrow> bool) \<Rightarrow> world \<Rightarrow> world \<Rightarrow> bool" where
  "only_events A w w' = (\<exists>evs. trace w' = trace w @ evs \<and> list_all A evs)"

definition on_world :: "(world \<Rightarrow> world \<Rightarrow> bool) \<Rightarrow> 'l \<times> world \<Rightarrow> 'l \<times> world \<Rightarrow> bool" where
  "on_world R s s' = R (snd s) (snd s')"

text \<open>
  The steps of the outer \<open>try\<close> of \<open>downloadFile\<close> before the staging path, as a
  computation of their own: what they hand to the rest is the descriptor and the body.
\<close>

definition downloadFile_fetch :: "env \<Rightarrow> string \<Rightarrow> string \<Rightarrow> (world, object_info \<times> readable) io" where
  "downloadFile_fetch E s3Key localPath =
     io_then (logger INFO (''Starting download from S3: '' @ s3Key @ '' -> '' @ localPath))
       (io_bind (getObjectInfo E s3Key) (\<lambda>info.
          case info of
            None \<Rightarrow> io_throw (JsError ''Error'' (''S3 object not found: '' @ s3Key))
          | Some objectInfo \<Rightarrow>
              io_then (fs_ensureDir E (dirname localPath))
                (io_bind (checkDiskSpace E (dirname localPath)) (\<lambda>hasSpace.
                   if \<not> hasSpace then
                     io_throw (JsError ''Error''
                       (''Insufficient disk space for download: ''
                          @ show_nat (obj_size objectInfo) @ '' bytes required''))
                   else
                     io_bind (s3_send_get E s3Key) (\<lambda>response.
                       case Body response of
                         None \<Rightarrow> io_throw (JsError ''Error'' ''Empty response body from S3'')
                       | Some bodyStream \<Rightarrow> io_return (objectInfo, bodyStream))))))"

definition same_files :: "world \<Rightarrow> world \<Rightarrow> bool" where
  "same_files w w' = (files w' = files w)"

definition bytes_rel :: "nat \<times> world \<Rightarrow> nat \<times> world \<Rightarrow> bool" where
  "bytes_rel s s' =
     (data_bytes (trace (snd s')) + fst s = data_bytes (trace (snd s)) + fst s')"

text \<open>\<open>precedes a b evs\<close>: every \<open>b\<close> in \<open>evs\<close> has an \<open>a\<close> before it.\<close>

fun precedes :: "'a \<Rightarrow> 'a \<Rightarrow> 'a list \<Rightarrow> bool" where
  "precedes a b [] = True"
| "precedes a b (x # xs) = (x = a \<or> (x \<noteq> b \<and> precedes a b xs))"

text \<open>
  The body stream aborts after two bytes; the same, with the removal of the staging
  file refused; and a body of two bytes where three are expected, with the removal
  refused.
\<close>

definition env_aborted :: env where
  "env_aborted =
     env_model\<lparr>get_object := (\<lambda>key.
        if key = model_key
        then Some \<lparr>Body = Some \<lparr>chunks = [''ab''],
                      stream_error = Some (JsError ''Error'' ''aborted'')\<rparr>\<rparr>
        else None)\<rparr>"

definition env_stuck :: env where
  "env_stuck =
     env_aborted\<lparr>fault := (\<lambda>h ev.
        if ev = Remove (model_path @ ''.tmp'')
        then Some (JsError ''Error'' ''EPERM: operation not permitted'') else None)\<rparr>"

definition env_short :: env where
  "env_short =
     env_model\<lparr>get_object := (\<lambda>key.
          if key = model_key
          then Some \<lparr>Body = Some \<lparr>chunks = [''ab''], stream_error = None\<rparr>\<rparr>
          else None),
        fault := (\<lambda>h ev.
          if ev = Remove (model_path @ ''.tmp'')
          then Some (JsError ''Error'' ''EPERM: operation not permitted'') else None)\<rparr>"

text \<open>
  The bucket of one object, with no room on the disk (reaching the target directory is
  refused); and with a body of two bytes where the descriptor announces three.
\<close>

definition env_full :: env where
  "env_full =
     env_model\<lparr>fault := (\<lambda>h ev.
        if ev = Access ''/models/essential/voice''
        then Some (JsError ''Error'' ''ENOSPC: no space left on device'') else None)\<rparr>"

definition env_truncated :: env where
  "env_truncated =
     env_model\<lparr>get_object := (\<lambda>key.
        if key = model_key
        then Some \<lparr>Body = Some \<lparr>chunks = [''ab''], stream_error = None\<rparr>\<rparr>
        else None)\<rparr>"

text \<open>The bucket of one object whose descriptor announces a content length of 0.\<close>

definition env_unsized :: env where
  "env_unsized =
     env_model\<lparr>head_object := (\<lambda>key.
        if key = model_key
        then Some \<lparr>ContentLength = Some 0, LastModified = Some 5000, ETag = Some ''abc''\<rparr>
        else None)\<rparr>"

text \<open>
  One pass of the loop of \<open>triggerFullSync\<close> over one key, without the two counters:
  what it does to the world and how it ends for the key.  \<open>sync_keys\<close> runs the
  passes one after the other, whatever the outcome of each, and collects the outcomes.
\<close>

datatype key_outcome = UpToDate | Synced | DownloadFailed | Threw js_error

definition sync_key :: "env \<Rightarrow> string \<Rightarrow> (world, key_outcome) io" where
  "sync_key E modelKey =
     try_catch
       (io_bind (shouldUpdateFile E modelKey (getLocalModelPath E modelKey)) (\<lambda>needed.
          if needed then
            io_then (logger INFO (''Syncing model: '' @ modelKey))
              (io_bind (downloadFile E modelKey (getLocalModelPath E modelKey)) (\<lambda>result.
                 if dl_success result then
                   io_then (logger INFO (''Successfully synced: '' @ modelKey)) (io_return Synced)
                 else
                   io_then (logger ERROR (''Failed to sync: '' @ modelKey))
                     (io_return DownloadFailed)))
          else
            io_then (logger DEBUG (''Model already up to date: '' @ modelKey))
              (io_return UpToDate)))
       (\<lambda>error.
          io_then (logger ERROR (''Error syncing model '' @ modelKey @ '': '' @ err_message error))
            (io_return (Threw error)))"

fun sync_keys :: "env \<Rightarrow> string list \<Rightarrow> world \<Rightarrow> key_outcome list \<times> world" where
  "sync_keys E [] w = ([], w)"
| "sync_keys E (k # ks) w =
     (case sync_key E k w of
        (Inl e, w1) \<Rightarrow> (case sync_keys E ks w1 of (outs, w2) \<Rightarrow> (Threw e # outs, w2))
      | (Inr out, w1) \<Rightarrow> (case sync_keys E ks w1 of (outs, w2) \<Rightarrow> (out # outs, w2)))"

fun error_entry :: "string \<times> key_outcome \<Rightarrow> string list" where
  "error_entry (k, DownloadFailed) = [''Failed to download '' @ k]"
| "error_entry (k, Threw e) = [''Error syncing '' @ k @ '': '' @ err_message e]"
| "error_entry (k, UpToDate) = []"
| "error_entry (k, Synced) = []"

text \<open>
  The keys that the listing of \<open>triggerFullSync\<close> returns, the world in which its loop
  over them starts, the outcome of each key there, and the keys whose download failed.
\<close>

definition listed_keys :: "env \<Rightarrow> world \<Rightarrow> (js_error + string list) option" where
  "listed_keys E w =
     map_option fst (listAllModels E (snd (logger INFO ''Starting manual full sync...'' w)))"

definition sync_start :: "env \<Rightarrow> world \<Rightarrow> string list \<Rightarrow> world" where
  "sync_start E w keys =
     (let w2 = snd (the (listAllModels E (snd (logger INFO ''Starting manual full sync...'' w))))
      in if keys = [] then w2
         else snd (logger INFO ''Found models in S3, starting sync...'' w2))"

definition key_outcomes :: "env \<Rightarrow> world \<Rightarrow> string list \<Rightarrow> key_outcome list" where
  "key_outcomes E w keys = fst (sync_keys E keys (sync_start E w keys))"

definition failed_keys :: "string list \<Rightarrow> key_outcome list \<Rightarrow> string list" where
  "failed_keys keys outs = map fst (filter (\<lambda>(k, out). out = DownloadFailed) (zip keys outs))"

text \<open>
  A bucket of four objects, three of them models; the body of the second model is missing.
\<close>

definition env_bucket :: env where
  "env_bucket =
     env0\<lparr>head_object := (\<lambda>key.
             Some \<lparr>ContentLength = Some 3, LastModified = Some 5000, ETag = None\<rparr>),
          get_object := (\<lambda>key.
             if key = ''optional/bert/b.bin'' then Some \<lparr>Body = None\<rparr>
             else Some \<lparr>Body = Some \<lparr>chunks = [''abc''], stream_error = None\<rparr>\<rparr>),
          list_objects := (\<lambda>token.
             \<lparr>Contents = Some
                [\<lparr>Key = Some ''essential/voice/a.bin''\<rparr>,
                 \<lparr>Key = Some ''essential/voice/readme.md''\<rparr>,
                 \<lparr>Key = Some ''optional/bert/b.bin''\<rparr>,
                 \<lparr>Key = Some ''optional/g2p/c.json''\<rparr>],
              NextContinuationToken = None\<rparr>)\<rparr>"

text \<open>The local paths that an event names.\<close>

fun fs_paths :: "event \<Rightarrow> string list" where
  "fs_paths (EnsureDir d) = [d]"
| "fs_paths (Access d) = [d]"
| "fs_paths (PathExists p) = [p]"
| "fs_paths (Stat p) = [p]"
| "fs_paths (ReadStream p) = [p]"
| "fs_paths (OpenWrite p) = [p]"
| "fs_paths (Write p n) = [p]"
| "fs_paths (Finish p) = [p]"
| "fs_paths (Remove p) = [p]"
| "fs_paths (Move p q) = [p, q]"
| "fs_paths (Log lvl msg) = []"
| "fs_paths (HeadObject k) = []"
| "fs_paths (GetObject k) = []"
| "fs_paths (ListObjectsV2 t) = []"
| "fs_paths (SendMessage m) = []"
| "fs_paths (Data n) = []"

text \<open>
  What \<open>handleS3Event\<close> reads as the key of a record: \<open>record.s3.object.key\<close>,
  URL-decoded; or the error that reading it throws.
\<close>

definition record_key :: "js \<Rightarrow> js_error + string" where
  "record_key rcd =
     (case get_prop rcd ''s3'' of
        Inl e \<Rightarrow> Inl e
      | Inr s3 \<Rightarrow>
          (case get_prop s3 ''object'' of
             Inl e \<Rightarrow> Inl e
           | Inr obj \<Rightarrow>
               (case get_prop obj ''key'' of
                  Inl e \<Rightarrow> Inl e
                | Inr rawKey \<Rightarrow> decodeURIComponent rawKey)))"

text \<open>
  Where a path leads: its segments are followed from the root, an empty segment and
  \<open>.\<close> stay, \<open>..\<close> goes up (and stays at the root).  A path lies under a base when
  the directories of the base are the first directories of the path.
\<close>

definition resolve_step :: "string list \<Rightarrow> string \<Rightarrow> string list" where
  "resolve_step dirs seg =
     (if seg = [] \<or> seg = ''.'' then dirs
      else if seg = ''..'' then butlast dirs
      else dirs @ [seg])"

definition normalize :: "string \<Rightarrow> string list" where
  "normalize p = foldl resolve_step [] (split_on (CHR ''/'') p)"

definition lies_under :: "string \<Rightarrow> string \<Rightarrow> bool" where
  "lies_under base p = prefix (normalize base) (normalize p)"

definition touches_only :: "string set \<Rightarrow> event \<Rightarrow> bool" where
  "touches_only P ev = (set (fs_paths ev) \<subseteq> P)"

text \<open>
  A removal record for a key as S3 writes it; a record with an event name only; a record
  whose object has no key; and the messages the parser knows, named by their texts.
\<close>

definition removed_record :: "string \<Rightarrow> js" where
  "removed_record rawKey =
     JObj [(''eventName'', JStr ''ObjectRemoved:Delete''),
           (''eventTime'', JStr ''2024-01-01T00:00:00.000Z''),
           (''s3'', JObj [(''bucket'', JObj [(''name'', JStr ''voice-models'')]),
                         (''object'', JObj [(''key'', JStr rawKey), (''size'', JNum 3)])])]"

definition bare_record :: js where
  "bare_record = JObj [(''eventName'', JStr ''ObjectCreated:Put'')]"

definition keyless_record :: js where
  "keyless_record =
     JObj [(''eventName'', JStr ''ObjectCreated:Put''),
           (''s3'', JObj [(''bucket'', JObj [(''name'', JStr ''voice-models'')]),
                         (''object'', JObj [(''size'', JNum 3)])])]"

definition env_messages :: env where
  "env_messages =
     env0\<lparr>JSON_parse := (\<lambda>text.
        if text = ''bare, removed'' then
          Inr (JObj [(''Records'', JArr [bare_record, removed_record model_key])])
        else if text = ''keyless, removed'' then
          Inr (JObj [(''Records'', JArr [keyless_record, removed_record model_key])])
        else if text = ''flat, removed'' then
          Inr (JObj [(''Records'', JArr [removed_record ''model.bin'', removed_record model_key])])
        else if text = ''removed'' then
          Inr (JObj [(''Records'', JArr [removed_record model_key])])
        else Inl (JsError ''SyntaxError'' ''Unexpected token''))\<rparr>"

definition message :: "string \<Rightarrow> sqs_message" where
  "message text = \<lparr>MessageId = Some ''m-1'', ReceiptHandle = Some ''r-1'', MessageText = Some text\<rparr>"

section \<open>Properties\<close>

lemmas io_defs = io_return_def io_throw_def io_bind_def io_then_def try_catch_def io_of_def
  lift_def get_local_def set_local_def with_local_def Date_now_def logger_def ext_def

subsection \<open>Integrity Validator\<close>

text \<open>
  C5.  \<open>verifyFileIntegrity\<close> is to return \<open>false\<close> when a provided expected size
  differs from the size of the file, and when a provided expected hash differs from the
  digest.  The code tests the two parameters for truthiness: for a file of five bytes an
  expected size of 0 is accepted, and so is an expected hash that is the empty string,
  while an expected size of 3 is refused.
\<close>

theorem verifyFileIntegrity_zero_expected:
  "fst (verifyFileIntegrity env0 ''/models/a/b.txt.tmp'' (Some 0) None
         (put_file ''/models/a/b.txt.tmp'' ''hello'' 0 world0)) = Inr True
   \<and> fst (verifyFileIntegrity env0 ''/models/a/b.txt.tmp'' None (Some [])
         (put_file ''/models/a/b.txt.tmp'' ''hello'' 0 world0)) = Inr True
   \<and> fst (verifyFileIntegrity env0 ''/models/a/b.txt.tmp'' (Some 3) None
         (put_file ''/models/a/b.txt.tmp'' ''hello'' 0 world0)) = Inr False"
  by (simp add: verifyFileIntegrity_def fs_stat_def env0_def world0_def put_file_def io_defs)

lemma cleanupTempFile_total: "fst (cleanupTempFile E p w) = Inr ()"
  by (simp add: cleanupTempFile_def fs_pathExists_def fs_remove_def io_defs Let_def
      split: option.splits sum.splits prod.splits)

lemma cleanupTempFile_no_throw: "cleanupTempFile E p w \<noteq> (Inl e, w')"
  using cleanupTempFile_total [of E p w] by auto

lemma cleanupTempFile_absent:
  "files w p = None \<Longrightarrow> files (snd (cleanupTempFile E p w)) = files w"
  by (auto simp add: cleanupTempFile_def fs_pathExists_def fs_remove_def io_defs Let_def
      split: option.splits sum.splits prod.splits)

lemma cleanupTempFile_removes:
  "\<forall>h. fault E h (PathExists p) = None \<and> fault E h (Remove p) = None \<Longrightarrow>
     files (snd (cleanupTempFile E p w)) p = None"
  by (auto simp add: cleanupTempFile_def fs_pathExists_def fs_remove_def io_defs Let_def
      split: option.splits sum.splits prod.splits)

lemma cleanupTempFile_trace_fault:
  "files w p \<noteq> None \<Longrightarrow> fault E (trace w) (PathExists p) = None \<Longrightarrow>
   fault E (trace w @ [PathExists p]) (Remove p) = Some e \<Longrightarrow>
   trace (snd (cleanupTempFile E p w)) =
     trace w @ [PathExists p, Remove p, Log WARN (''Failed to cleanup temp file: '' @ error_toString e)]
   \<and> files (snd (cleanupTempFile E p w)) = files w"
  by (auto simp add: cleanupTempFile_def fs_pathExists_def fs_remove_def io_defs Let_def
      split: option.splits sum.splits prod.splits)

subsection \<open>The deletion path\<close>

text \<open>
  C9.  The deletion path never raises, whatever the environment does: it returns
  normally from every world, so also when it is invoked a second time on the world the
  first invocation left.  When no local file exists the files are left as they are.
  When checking for the file and removing it do not fail, the file is absent afterwards
  and a second invocation changes no file.  When the removal is attempted and fails,
  the files are left as they are, a warning is logged, and the call still returns
  normally.
\<close>

theorem handleModelDeletion_idempotent:
  "fst (handleModelDeletion E ev w) = Inr ()
   \<and> fst (handleModelDeletion E ev (snd (handleModelDeletion E ev w))) = Inr ()
   \<and> (files w (getLocalModelPath E (ev_key ev)) = None \<longrightarrow>
        files (snd (handleModelDeletion E ev w)) = files w)
   \<and> ((\<forall>h. fault E h (PathExists (getLocalModelPath E (ev_key ev))) = None
          \<and> fault E h (Remove (getLocalModelPath E (ev_key ev))) = None) \<longrightarrow>
        files (snd (handleModelDeletion E ev w)) (getLocalModelPath E (ev_key ev)) = None
        \<and> files (snd (handleModelDeletion E ev (snd (handleModelDeletion E ev w))))
            = files (snd (handleModelDeletion E ev w)))
   \<and> (\<forall>e. files w (getLocalModelPath E (ev_key ev)) \<noteq> None
          \<and> fault E (trace w @ [Log INFO (''Processing model deletion: '' @ ev_key ev)])
              (PathExists (getLocalModelPath E (ev_key ev))) = None
          \<and> fault E (trace w @ [Log INFO (''Processing model deletion: '' @ ev_key ev),
                PathExists (getLocalModelPath E (ev_key ev))])
              (Remove (getLocalModelPath E (ev_key ev))) = Some e \<longrightarrow>
        files (snd (handleModelDeletion E ev w)) = files w
        \<and> Log WARN (''Failed to cleanup temp file: '' @ error_toString e)
            \<in> set (trace (snd (handleModelDeletion E ev w))))"
proof -
  let ?p = "getLocalModelPath E (ev_key ev)"
  let ?l = "Log INFO (''Processing model deletion: '' @ ev_key ev)"
  have del: "fst (handleModelDeletion E ev w') = Inr ()" for w'
    by (simp add: handleModelDeletion_def io_defs Let_def cleanupTempFile_no_throw
        split: prod.splits sum.splits)
  have fl: "files (snd (handleModelDeletion E ev w')) =
      files (snd (cleanupTempFile E ?p (w'\<lparr>trace := trace w' @ [?l]\<rparr>)))" for w'
    by (simp add: handleModelDeletion_def io_defs Let_def cleanupTempFile_no_throw
        split: prod.splits sum.splits)
  have tr: "set (trace (snd (cleanupTempFile E ?p (w'\<lparr>trace := trace w' @ [?l]\<rparr>))))
      \<subseteq> set (trace (snd (handleModelDeletion E ev w')))" for w'
    by (auto simp add: handleModelDeletion_def io_defs Let_def cleanupTempFile_no_throw
        split: prod.splits sum.splits)
  have absent: "files w' ?p = None \<Longrightarrow> files (snd (handleModelDeletion E ev w')) = files w'"
    for w'
    using cleanupTempFile_absent [of "w'\<lparr>trace := trace w' @ [?l]\<rparr>" ?p E]
    by (simp add: fl)
  have removed: "\<forall>h. fault E h (PathExists ?p) = None \<and> fault E h (Remove ?p) = None \<Longrightarrow>
      files (snd (handleModelDeletion E ev w')) ?p = None" for w'
    using cleanupTempFile_removes [of E ?p "w'\<lparr>trace := trace w' @ [?l]\<rparr>"]
    by (simp add: fl)
  have warned: "files w ?p \<noteq> None \<Longrightarrow> fault E (trace w @ [?l]) (PathExists ?p) = None \<Longrightarrow>
      fault E (trace w @ [?l, PathExists ?p]) (Remove ?p) = Some e \<Longrightarrow>
      files (snd (handleModelDeletion E ev w)) = files w
      \<and> Log WARN (''Failed to cleanup temp file: '' @ error_toString e)
            \<in> set (trace (snd (handleModelDeletion E ev w)))" for e
    using cleanupTempFile_trace_fault [of "w\<lparr>trace := trace w @ [?l]\<rparr>" ?p E e] tr [of w]
    by (auto simp add: fl)
  show ?thesis
    using del absent removed warned by (intro conjI allI impI) auto
qed

theorem handleModelDeletion_idempotent_witness:
  "fst (handleModelDeletion env0 removal_event
          (put_file ''/models/essential/voice/model.bin'' ''abc'' 0 world0)) = Inr ()
   \<and> files (snd (handleModelDeletion env0 removal_event
          (put_file ''/models/essential/voice/model.bin'' ''abc'' 0 world0)))
        ''/models/essential/voice/model.bin'' = None
   \<and> fst (handleModelDeletion env0 removal_event
          (snd (handleModelDeletion env0 removal_event
             (put_file ''/models/essential/voice/model.bin'' ''abc'' 0 world0)))) = Inr ()
   \<and> files (snd (handleModelDeletion env0 removal_event world0)) = files world0
   \<and> fst (handleModelDeletion env_remove_fails removal_event
          (put_file ''/models/essential/voice/model.bin'' ''abc'' 0 world0)) = Inr ()
   \<and> Log WARN ''Failed to cleanup temp file: Error: EPERM: operation not permitted''
        \<in> set (trace (snd (handleModelDeletion env_remove_fails removal_event
          (put_file ''/models/essential/voice/model.bin'' ''abc'' 0 world0))))"
  using handleModelDeletion_idempotent [of env0 removal_event
      "put_file ''/models/essential/voice/model.bin'' ''abc'' 0 world0"]
    handleModelDeletion_idempotent [of env0 removal_event world0]
    handleModelDeletion_idempotent [of env_remove_fails removal_event
      "put_file ''/models/essential/voice/model.bin'' ''abc'' 0 world0"]
  by (simp add: env0_def world0_def put_file_def removal_event_def env_remove_fails_def
      getLocalModelPath_def error_toString_def)

subsection \<open>Liveness Tracker\<close>

lemma health_never_processed:
  "\<not> list_ex is_update calls \<Longrightarrow> lastProcessedTime svc = None \<Longrightarrow>
     lastProcessedTime (fold health_step calls svc) = None"
proof (induction calls arbitrary: svc)
  case Nil
  then show ?case by simp
next
  case (Cons c cs)
  then show ?case
    by (cases c) (simp_all add: getHealth_def setHealthy_def Let_def)
qed

text \<open>
  C10.  While the last-processed time is unset, \<open>getHealth\<close> leaves the service as it
  is, whatever the clock reads, and reports the stored flag.  The time stays unset over
  every sequence of calls since construction that has no \<open>updateLastProcessed\<close>.
  \<open>getHealth\<close> turns a healthy service unhealthy only when a last-processed time is
  set and lies more than ten minutes back.  \<open>updateLastProcessed\<close> sets the flag to
  healthy and the time to now.
\<close>

theorem getHealth_idle_rule:
  "(lastProcessedTime svc = None \<longrightarrow>
      snd (getHealth now up svc) = svc \<and>
      status (fst (getHealth now up svc)) = (if isHealthy svc then ''healthy'' else ''unhealthy''))
   \<and> (\<not> list_ex is_update calls \<longrightarrow>
      lastProcessedTime (fold health_step calls (new_HealthCheckService t0)) = None)
   \<and> (isHealthy svc \<and> \<not> isHealthy (snd (getHealth now up svc)) \<longrightarrow>
      (\<exists>t. lastProcessedTime svc = Some t \<and> 10 * 60 * 1000 < now - t))
   \<and> isHealthy (updateLastProcessed now svc)
   \<and> lastProcessedTime (updateLastProcessed now svc) = Some now"
proof -
  have a: "lastProcessedTime (new_HealthCheckService t0) = None"
    by (simp add: new_HealthCheckService_def)
  show ?thesis
    using health_never_processed [OF _ a, of calls]
    by (auto simp: getHealth_def updateLastProcessed_def Let_def split: option.splits if_splits)
qed

theorem getHealth_idle_rule_witness:
  "isHealthy (fold health_step [GetHealth 99999999 99999, GetHealth 999999999 999999]
      (new_HealthCheckService 0))
   \<and> lastProcessedTime (fold health_step [GetHealth 99999999 99999, GetHealth 999999999 999999]
      (new_HealthCheckService 0)) = None
   \<and> \<not> isHealthy (snd (getHealth 600001 600 (updateLastProcessed 0 (new_HealthCheckService 0))))
   \<and> isHealthy (updateLastProcessed 700000
        (snd (getHealth 600001 600 (updateLastProcessed 0 (new_HealthCheckService 0)))))"
  using getHealth_idle_rule [of "new_HealthCheckService 0" 99999999 99999
      "[GetHealth 99999999 99999, GetHealth 999999999 999999]" 0]
    getHealth_idle_rule [of "updateLastProcessed 0 (new_HealthCheckService 0)" 600001 600 "[]" 0]
  by (simp add: new_HealthCheckService_def getHealth_def updateLastProcessed_def Let_def)

subsection \<open>Preservation of relations between states\<close>

lemma data_bytes_append [simp]: "data_bytes (xs @ ys) = data_bytes xs + data_bytes ys"
  by (induction xs rule: data_bytes.induct) simp_all

lemma preorder_only_events [simp]: "preorder_rel (only_events A)"
  unfolding preorder_rel_def only_events_def
proof (intro conjI allI impI)
  fix s show "\<exists>evs. trace s = trace s @ evs \<and> list_all A evs"
    by (rule exI [of _ "[]"]) simp
next
  fix s t u
  assume "\<exists>evs. trace t = trace s @ evs \<and> list_all A evs"
    and "\<exists>evs. trace u = trace t @ evs \<and> list_all A evs"
  then obtain xs ys where "trace t = trace s @ xs" "list_all A xs"
    "trace u = trace t @ ys" "list_all A ys" by blast
  then have "trace u = trace s @ (xs @ ys) \<and> list_all A (xs @ ys)" by simp
  then show "\<exists>evs. trace u = trace s @ evs \<and> list_all A evs" by blast
qed

lemma preorder_on_world [simp]: "preorder_rel R \<Longrightarrow> preorder_rel (on_world R)"
  unfolding preorder_rel_def on_world_def by blast

lemma keeps_return: "preorder_rel R \<Longrightarrow> keeps R (io_return x)"
  by (simp add: keeps_def preorder_rel_def io_return_def)

lemma keeps_throw: "preorder_rel R \<Longrightarrow> keeps R (io_throw e)"
  by (simp add: keeps_def preorder_rel_def io_throw_def)

lemma keeps_of: "preorder_rel R \<Longrightarrow> keeps R (io_of r)"
  by (simp add: keeps_def preorder_rel_def io_of_def)

lemma keeps_bind:
  assumes "preorder_rel R" "keeps R m" "\<And>x. keeps R (f x)"
  shows "keeps R (io_bind m f)"
  unfolding keeps_def io_bind_def
proof (intro allI impI)
  fix s r s'
  assume run: "(case m s of (Inl e, s1) \<Rightarrow> (Inl e, s1) | (Inr x, s1) \<Rightarrow> f x s1) = (r, s')"
  obtain r1 s1 where m: "m s = (r1, s1)" by (cases "m s")
  with assms(2) have 1: "R s s1" by (simp add: keeps_def)
  show "R s s'"
  proof (cases r1)
    case (Inl e)
    with run m 1 show ?thesis by simp
  next
    case (Inr x)
    with run m have "f x s1 = (r, s')" by simp
    with assms(3) have "R s1 s'" by (simp add: keeps_def)
    with 1 assms(1) show ?thesis unfolding preorder_rel_def by blast
  qed
qed

lemma keeps_then:
  "preorder_rel R \<Longrightarrow> keeps R m \<Longrightarrow> keeps R n \<Longrightarrow> keeps R (io_then m n)"
  unfolding io_then_def by (rule keeps_bind)

lemma keeps_try_catch:
  assumes "preorder_rel R" "keeps R m" "\<And>e. keeps R (h e)"
  shows "keeps R (try_catch m h)"
  unfolding keeps_def try_catch_def
proof (intro allI impI)
  fix s r s'
  assume run: "(case m s of (Inl e, s1) \<Rightarrow> h e s1 | (Inr x, s1) \<Rightarrow> (Inr x, s1)) = (r, s')"
  obtain r1 s1 where m: "m s = (r1, s1)" by (cases "m s")
  with assms(2) have 1: "R s s1" by (simp add: keeps_def)
  show "R s s'"
  proof (cases r1)
    case (Inr x)
    with run m 1 show ?thesis by simp
  next
    case (Inl e)
    with run m have "h e s1 = (r, s')" by simp
    with assms(3) have "R s1 s'" by (simp add: keeps_def)
    with 1 assms(1) show ?thesis unfolding preorder_rel_def by blast
  qed
qed

lemma keeps_lift: "keeps R m \<Longrightarrow> keeps (on_world R) (lift m)"
  by (auto simp add: keeps_def on_world_def lift_def split: prod.splits)

lemma keeps_get_local: "preorder_rel R \<Longrightarrow> keeps (on_world R) get_local"
  by (auto simp add: keeps_def on_world_def get_local_def preorder_rel_def)

lemma keeps_set_local: "preorder_rel R \<Longrightarrow> keeps (on_world R) (set_local l)"
  by (auto simp add: keeps_def on_world_def set_local_def preorder_rel_def)

lemma keeps_with_local: "keeps (on_world R) m \<Longrightarrow> keeps R (with_local l m)"
  by (fastforce simp add: keeps_def on_world_def with_local_def split: prod.splits)

lemma keeps_Date_now: "preorder_rel R \<Longrightarrow> keeps R Date_now"
  by (simp add: keeps_def preorder_rel_def Date_now_def)

lemma keeps_logger: "A (Log lvl msg) \<Longrightarrow> keeps (only_events A) (logger lvl msg)"
  by (simp add: keeps_def only_events_def logger_def)

lemma keeps_ext:
  assumes "A ev" "keeps (only_events A) act"
  shows "keeps (only_events A) (ext E ev act)"
proof -
  have step: "only_events A w (w\<lparr>clock := c, trace := trace w @ [ev]\<rparr>)" for w c
    using assms(1) by (simp add: only_events_def)
  have tr: "only_events A s t \<Longrightarrow> only_events A t u \<Longrightarrow> only_events A s u" for s t u
    using preorder_only_events [of A] unfolding preorder_rel_def by blast
  show ?thesis
    unfolding keeps_def ext_def Let_def
  proof (intro allI impI)
    fix w r w'
    assume run: "(case fault E (trace w) ev of
        None \<Rightarrow> act (w\<lparr>clock := clock w + int (delay E (trace w) ev), trace := trace w @ [ev]\<rparr>)
      | Some e \<Rightarrow> (Inl e, w\<lparr>clock := clock w + int (delay E (trace w) ev), trace := trace w @ [ev]\<rparr>))
      = (r, w')"
    show "only_events A w w'"
    proof (cases "fault E (trace w) ev")
      case (Some e)
      with run step show ?thesis by auto
    next
      case None
      with run assms(2) have "only_events A
          (w\<lparr>clock := clock w + int (delay E (trace w) ev), trace := trace w @ [ev]\<rparr>) w'"
        by (simp add: keeps_def)
      with step tr show ?thesis by blast
    qed
  qed
qed

lemma keeps_silent:
  assumes "\<And>w. trace (snd (act w)) = trace w"
  shows "keeps (only_events A) act"
  unfolding keeps_def only_events_def
proof (intro allI impI)
  fix w r w'
  assume "act w = (r, w')"
  with assms [of w] show "\<exists>evs. trace w' = trace w @ evs \<and> list_all A evs" by simp
qed

lemma keeps_prim:
  "A ev \<Longrightarrow> (\<And>w. trace (snd (act w)) = trace w) \<Longrightarrow> keeps (only_events A) (ext E ev act)"
  by (rule keeps_ext) (simp_all add: keeps_silent)

lemma keeps_fs_pathExists: "A (PathExists p) \<Longrightarrow> keeps (only_events A) (fs_pathExists E p)"
  unfolding fs_pathExists_def
  by (intro keeps_try_catch keeps_prim keeps_return) simp_all

lemma keeps_fs_stat: "A (Stat p) \<Longrightarrow> keeps (only_events A) (fs_stat E p)"
  unfolding fs_stat_def by (rule keeps_prim) (simp_all split: option.splits)

lemma keeps_fs_remove: "A (Remove p) \<Longrightarrow> keeps (only_events A) (fs_remove E p)"
  unfolding fs_remove_def by (rule keeps_prim) simp_all

lemma keeps_fs_move: "A (Move p q) \<Longrightarrow> keeps (only_events A) (fs_move E p q)"
  unfolding fs_move_def by (rule keeps_prim) (simp_all split: option.splits)

lemma keeps_fs_ensureDir: "A (EnsureDir p) \<Longrightarrow> keeps (only_events A) (fs_ensureDir E p)"
  unfolding fs_ensureDir_def by (rule keeps_prim) simp_all

lemma keeps_fs_access: "A (Access p) \<Longrightarrow> keeps (only_events A) (fs_access E p)"
  unfolding fs_access_def by (rule keeps_prim) simp_all

lemma keeps_open_write: "A (OpenWrite p) \<Longrightarrow> keeps (only_events A) (open_write E p)"
  unfolding open_write_def by (rule keeps_prim) simp_all

lemma keeps_write_chunk: "A (Write p (length c)) \<Longrightarrow> keeps (only_events A) (write_chunk E p c)"
  unfolding write_chunk_def by (rule keeps_prim) (simp_all split: option.splits)

lemma keeps_finish_write: "A (Finish p) \<Longrightarrow> keeps (only_events A) (finish_write E p)"
  unfolding finish_write_def by (rule keeps_prim) simp_all

lemma keeps_calculateSHA256: "A (ReadStream p) \<Longrightarrow> keeps (only_events A) (calculateSHA256 E p)"
  unfolding calculateSHA256_def by (rule keeps_prim) (simp_all split: option.splits)

lemma keeps_s3_send_head: "A (HeadObject k) \<Longrightarrow> keeps (only_events A) (s3_send_head E k)"
  unfolding s3_send_head_def by (rule keeps_prim) (simp_all split: option.splits)

lemma keeps_s3_send_get: "A (GetObject k) \<Longrightarrow> keeps (only_events A) (s3_send_get E k)"
  unfolding s3_send_get_def by (rule keeps_prim) (simp_all split: option.splits)

lemma keeps_s3_send_list: "A (ListObjectsV2 t) \<Longrightarrow> keeps (only_events A) (s3_send_list E t)"
  unfolding s3_send_list_def by (rule keeps_prim) simp_all

lemmas keeps_intros = keeps_return keeps_throw keeps_of keeps_bind keeps_then keeps_try_catch
  keeps_lift keeps_get_local keeps_set_local keeps_with_local keeps_Date_now keeps_logger
  keeps_fs_pathExists keeps_fs_stat keeps_fs_remove keeps_fs_move keeps_fs_ensureDir
  keeps_fs_access keeps_open_write keeps_write_chunk keeps_finish_write keeps_calculateSHA256
  keeps_s3_send_head keeps_s3_send_get keeps_s3_send_list
  preorder_only_events preorder_on_world

lemma keeps_cleanupTempFile:
  "A (PathExists p) \<Longrightarrow> A (Remove p) \<Longrightarrow> (\<And>l m. A (Log l m)) \<Longrightarrow>
   keeps (only_events A) (cleanupTempFile E p)"
  unfolding cleanupTempFile_def
  by (auto intro!: keeps_intros)

lemma keeps_verifyFileIntegrity:
  "A (Stat p) \<Longrightarrow> A (ReadStream p) \<Longrightarrow> (\<And>l m. A (Log l m)) \<Longrightarrow>
   keeps (only_events A) (verifyFileIntegrity E p n h)"
  unfolding verifyFileIntegrity_def
  by (auto intro!: keeps_intros)

lemma keeps_getObjectInfo:
  "A (HeadObject k) \<Longrightarrow> (\<And>l m. A (Log l m)) \<Longrightarrow> keeps (only_events A) (getObjectInfo E k)"
  unfolding getObjectInfo_def
  by (auto intro!: keeps_intros)

lemma keeps_checkDiskSpace:
  "A (Access d) \<Longrightarrow> (\<And>l m. A (Log l m)) \<Longrightarrow> keeps (only_events A) (checkDiskSpace E d)"
  unfolding checkDiskSpace_def
  by (auto intro!: keeps_intros)

lemma keeps_shouldUpdateFile:
  "A (PathExists p) \<Longrightarrow> A (HeadObject k) \<Longrightarrow> A (Stat p) \<Longrightarrow> (\<And>l m. A (Log l m)) \<Longrightarrow>
   keeps (only_events A) (shouldUpdateFile E k p)"
  unfolding shouldUpdateFile_def
  by (auto intro!: keeps_intros keeps_getObjectInfo split: option.splits)

subsection \<open>The staleness decision\<close>

lemma fs_pathExists_no_throw: "fs_pathExists E p w \<noteq> (Inl e, w')"
  by (simp add: fs_pathExists_def io_defs Let_def split: option.splits)

lemma fs_pathExists_absent: "files w p = None \<Longrightarrow> fst (fs_pathExists E p w) = Inr False"
  by (simp add: fs_pathExists_def io_defs Let_def split: option.splits)

lemma shouldUpdateFile_unfold:
  "shouldUpdateFile E k p w =
     (case fs_pathExists E p w of
        (Inl e, w1) \<Rightarrow> (Inr True, w1\<lparr>trace := trace w1 @ [Log ERROR (''Error checking if file should update: '' @ err_message e)]\<rparr>)
      | (Inr present, w1) \<Rightarrow>
          if \<not> present then
            (Inr True, w1\<lparr>trace := trace w1 @ [Log DEBUG (''Local file does not exist, update needed: '' @ p)]\<rparr>)
          else
            (case getObjectInfo E k w1 of
               (Inl e, w2) \<Rightarrow> (Inr True, w2\<lparr>trace := trace w2 @ [Log ERROR (''Error checking if file should update: '' @ err_message e)]\<rparr>)
             | (Inr None, w2) \<Rightarrow> (Inr False, w2\<lparr>trace := trace w2 @ [Log WARN (''S3 object not found: '' @ k)]\<rparr>)
             | (Inr (Some d), w2) \<Rightarrow>
                 (case fs_stat E p w2 of
                    (Inl e, w3) \<Rightarrow> (Inr True, w3\<lparr>trace := trace w3 @ [Log ERROR (''Error checking if file should update: '' @ err_message e)]\<rparr>)
                  | (Inr st, w3) \<Rightarrow>
                      if fst st \<noteq> obj_size d then (Inr True, w3\<lparr>trace := trace w3 @ [Log DEBUG ''File size differs, update needed'']\<rparr>)
                      else if snd st < lastModified d then (Inr True, w3\<lparr>trace := trace w3 @ [Log DEBUG ''S3 file is newer, update needed'']\<rparr>)
                      else (Inr False, w3\<lparr>trace := trace w3 @ [Log DEBUG (''File is up to date: '' @ p)]\<rparr>))))"
  by (simp add: shouldUpdateFile_def io_return_def io_throw_def io_bind_def io_then_def
      try_catch_def logger_def split: prod.splits sum.splits option.splits)

lemma shouldUpdateFile_no_throw: "shouldUpdateFile E k p w \<noteq> (Inl e, w')"
  by (simp add: shouldUpdateFile_unfold split: prod.splits sum.splits option.splits)

text \<open>
  C2.  \<open>shouldUpdateFile\<close> never throws, and what it returns is the decision of the
  specification on what its three observations gave, taken in order: true when no local
  file is seen; otherwise false, with a warning, when the remote object is absent;
  otherwise true when the sizes differ; otherwise true when the remote time is strictly
  newer; otherwise false; and true when getting the descriptor or the local attributes
  fails.  A path with no file gives true.  Where no call fails and the remote object has
  a modification time, the result is: the sizes differ or the remote time is newer.
\<close>

theorem shouldUpdateFile_decision:
  "fst (shouldUpdateFile E k p w) =
     Inr (needsUpdate_spec (fst (fs_pathExists E p w) = Inr True)
            (fst (getObjectInfo E k (snd (fs_pathExists E p w))))
            (fst (fs_stat E p (snd (getObjectInfo E k (snd (fs_pathExists E p w)))))))
   \<and> (files w p = None \<longrightarrow> fst (shouldUpdateFile E k p w) = Inr True)
   \<and> (fst (fs_pathExists E p w) = Inr True
        \<and> fst (getObjectInfo E k (snd (fs_pathExists E p w))) = Inr None \<longrightarrow>
      fst (shouldUpdateFile E k p w) = Inr False
      \<and> Log WARN (''S3 object not found: '' @ k) \<in> set (trace (snd (shouldUpdateFile E k p w))))
   \<and> (\<forall>f r t. (\<forall>h ev. fault E h ev = None) \<and> files w p = Some f \<and> head_object E k = Some r
        \<and> LastModified r = Some t \<longrightarrow>
      fst (shouldUpdateFile E k p w) =
        Inr (length (content f) \<noteq> (case ContentLength r of None \<Rightarrow> 0 | Some n \<Rightarrow> n)
             \<or> mtime f < t))"
proof -
  have 1: "fst (shouldUpdateFile E k p w) =
     Inr (needsUpdate_spec (fst (fs_pathExists E p w) = Inr True)
            (fst (getObjectInfo E k (snd (fs_pathExists E p w))))
            (fst (fs_stat E p (snd (getObjectInfo E k (snd (fs_pathExists E p w)))))))"
    by (auto simp add: shouldUpdateFile_unfold needsUpdate_spec_def fs_pathExists_no_throw
        split: prod.splits sum.splits option.splits)
  have 2: "files w p = None \<Longrightarrow> fst (shouldUpdateFile E k p w) = Inr True"
    using fs_pathExists_absent [of w p E]
    by (auto simp add: shouldUpdateFile_unfold split: prod.splits sum.splits option.splits)
  have 3: "fst (fs_pathExists E p w) = Inr True \<Longrightarrow>
      fst (getObjectInfo E k (snd (fs_pathExists E p w))) = Inr None \<Longrightarrow>
      fst (shouldUpdateFile E k p w) = Inr False
      \<and> Log WARN (''S3 object not found: '' @ k) \<in> set (trace (snd (shouldUpdateFile E k p w)))"
    by (auto simp add: shouldUpdateFile_unfold split: prod.splits sum.splits option.splits)
  have 4: "(\<forall>h ev. fault E h ev = None) \<Longrightarrow> files w p = Some f \<Longrightarrow> head_object E k = Some r \<Longrightarrow>
      LastModified r = Some t \<Longrightarrow>
      fst (shouldUpdateFile E k p w) =
        Inr (length (content f) \<noteq> (case ContentLength r of None \<Rightarrow> 0 | Some n \<Rightarrow> n)
             \<or> mtime f < t)" for f r t
    by (simp add: shouldUpdateFile_def getObjectInfo_def s3_send_head_def fs_pathExists_def
        fs_stat_def io_defs Let_def)
  show ?thesis
    using 1 2 3 4 by blast
qed

theorem shouldUpdateFile_decision_witness:
  "fst (shouldUpdateFile env_model model_key model_path world0) = Inr True
   \<and> fst (shouldUpdateFile env_model model_key model_path
         (put_file model_path ''abcd'' 9000 world0)) = Inr True
   \<and> fst (shouldUpdateFile env_model model_key model_path
         (put_file model_path ''abc'' 4999 world0)) = Inr True
   \<and> fst (shouldUpdateFile env_model model_key model_path
         (put_file model_path ''abc'' 5000 world0)) = Inr False
   \<and> fst (shouldUpdateFile env0 model_key model_path
         (put_file model_path ''abc'' 5000 world0)) = Inr False
   \<and> Log WARN (''S3 object not found: '' @ model_key)
        \<in> set (trace (snd (shouldUpdateFile env0 model_key model_path
         (put_file model_path ''abc'' 5000 world0))))"
  using shouldUpdateFile_decision [of env_model model_key model_path world0]
    shouldUpdateFile_decision [of env_model model_key model_path
      "put_file model_path ''abcd'' 9000 world0"]
    shouldUpdateFile_decision [of env_model model_key model_path
      "put_file model_path ''abc'' 4999 world0"]
    shouldUpdateFile_decision [of env_model model_key model_path
      "put_file model_path ''abc'' 5000 world0"]
    shouldUpdateFile_decision [of env0 model_key model_path
      "put_file model_path ''abc'' 5000 world0"]
  by (simp add: env_model_def env0_def world0_def put_file_def fs_pathExists_def
      getObjectInfo_def s3_send_head_def fs_stat_def needsUpdate_spec_def io_defs)

subsection \<open>The download, verify and install protocol\<close>

lemma verifyFileIntegrity_no_throw: "verifyFileIntegrity E p n h w \<noteq> (Inl e, w')"
  by (simp add: verifyFileIntegrity_def io_return_def io_throw_def io_bind_def io_then_def
      try_catch_def logger_def split: prod.splits sum.splits)

lemma cleanupTempFile_run: "\<exists>w'. cleanupTempFile E p w = (Inr (), w')"
  using cleanupTempFile_total [of E p w] by (cases "cleanupTempFile E p w") simp

lemma downloadFile_staging_cases:
  assumes "downloadFile_staging E k p st info body (n, w) = (r, (n', w'))"
  obtains
    (pipeline_failed) e w1 where
      "pipeline E downloadFile_on_data body (p @ ''.tmp'') (n, w) = (Inl e, (n', w1))"
      "cleanupTempFile E (p @ ''.tmp'') w1 = (Inr (), w')"
      "r = Inl e"
  | (invalid) w1 w2 w3 where
      "pipeline E downloadFile_on_data body (p @ ''.tmp'') (n, w) = (Inr (), (n', w1))"
      "verifyFileIntegrity E (p @ ''.tmp'') (Some (obj_size info)) None w1 = (Inr False, w2)"
      "cleanupTempFile E (p @ ''.tmp'') w2 = (Inr (), w3)"
      "cleanupTempFile E (p @ ''.tmp'') w3 = (Inr (), w')"
      "r = Inl (JsError ''Error'' ''Downloaded file failed integrity check'')"
  | (move_failed) e w1 w2 w3 where
      "pipeline E downloadFile_on_data body (p @ ''.tmp'') (n, w) = (Inr (), (n', w1))"
      "verifyFileIntegrity E (p @ ''.tmp'') (Some (obj_size info)) None w1 = (Inr True, w2)"
      "fs_move E (p @ ''.tmp'') p w2 = (Inl e, w3)"
      "cleanupTempFile E (p @ ''.tmp'') w3 = (Inr (), w')"
      "r = Inl e"
  | (installed) w1 w2 w3 where
      "pipeline E downloadFile_on_data body (p @ ''.tmp'') (n, w) = (Inr (), (n', w1))"
      "verifyFileIntegrity E (p @ ''.tmp'') (Some (obj_size info)) None w1 = (Inr True, w2)"
      "fs_move E (p @ ''.tmp'') p w2 = (Inr (), w3)"
      "w' = w3\<lparr>trace := trace w3 @ [Log INFO ''Successfully downloaded file from S3'']\<rparr>"
      "r = Inr \<lparr>dl_success = True, dl_size = n', dl_duration = clock w3 - st\<rparr>"
proof -
  obtain rp n1 w1 where pipe:
    "pipeline E downloadFile_on_data body (p @ ''.tmp'') (n, w) = (rp, (n1, w1))"
    by (metis surj_pair)
  show thesis
  proof (cases rp)
    case (Inl e)
    obtain c1 where "cleanupTempFile E (p @ ''.tmp'') w1 = (Inr (), c1)"
      using cleanupTempFile_run by blast
    with Inl assms pipe pipeline_failed [of e w1]
    show thesis
      by (simp add: downloadFile_staging_def Let_def io_return_def io_throw_def io_bind_def
          io_then_def try_catch_def lift_def split: prod.splits sum.splits)
  next
    case (Inr u)
    obtain rv w2 where ver:
      "verifyFileIntegrity E (p @ ''.tmp'') (Some (obj_size info)) None w1 = (rv, w2)"
      by (metis surj_pair)
    then obtain v where rv: "rv = Inr v"
      using verifyFileIntegrity_no_throw by (cases rv) auto
    show thesis
    proof (cases v)
      case False
      obtain c1 where c1: "cleanupTempFile E (p @ ''.tmp'') w2 = (Inr (), c1)"
        using cleanupTempFile_run by blast
      obtain c2 where "cleanupTempFile E (p @ ''.tmp'') c1 = (Inr (), c2)"
        using cleanupTempFile_run by blast
      with False c1 assms pipe Inr ver rv invalid [of w1 w2 c1]
      show thesis
        by (simp add: downloadFile_staging_def Let_def io_return_def io_throw_def io_bind_def
            io_then_def try_catch_def lift_def split: prod.splits sum.splits)
    next
      case True
      obtain rm w3 where mv: "fs_move E (p @ ''.tmp'') p w2 = (rm, w3)"
        by (metis surj_pair)
      show thesis
      proof (cases rm)
        case (Inl e)
        obtain c1 where "cleanupTempFile E (p @ ''.tmp'') w3 = (Inr (), c1)"
          using cleanupTempFile_run by blast
        with Inl assms pipe \<open>rp = Inr u\<close> ver rv True mv move_failed [of w1 w2 e w3]
        show thesis
          by (simp add: downloadFile_staging_def Let_def io_return_def io_throw_def io_bind_def
              io_then_def try_catch_def lift_def split: prod.splits sum.splits)
      next
        case (Inr u')
        with assms pipe \<open>rp = Inr u\<close> ver rv True mv installed [of w1 w2 w3]
        show thesis
          by (auto simp add: downloadFile_staging_def Let_def io_return_def io_throw_def
              io_bind_def io_then_def try_catch_def lift_def get_local_def Date_now_def logger_def
              split: prod.splits sum.splits)
      qed
    qed
  qed
qed

lemma downloadFile_body_fetch:
  "downloadFile_body E k p st =
     io_bind (lift (downloadFile_fetch E k p))
       (\<lambda>(info, body). downloadFile_staging E k p st info body)"
  by (rule ext)
    (simp add: downloadFile_body_def downloadFile_fetch_def Let_def io_return_def io_throw_def
      io_bind_def io_then_def lift_def split: prod.splits sum.splits option.splits)

lemma preorder_same_files [simp]: "preorder_rel same_files"
  by (simp add: preorder_rel_def same_files_def)

lemma preorder_bytes_rel [simp]: "preorder_rel bytes_rel"
  by (auto simp add: preorder_rel_def bytes_rel_def)

lemma same_files_logger: "keeps same_files (logger lvl msg)"
  by (simp add: keeps_def same_files_def logger_def)

lemma same_files_ext:
  "(\<And>w. files (snd (act w)) = files w) \<Longrightarrow> keeps same_files (ext E ev act)"
  unfolding keeps_def same_files_def ext_def Let_def
proof (intro allI impI)
  fix w r w'
  assume a: "\<And>w. files (snd (act w)) = files w"
    and run: "(case fault E (trace w) ev of
        None \<Rightarrow> act (w\<lparr>clock := clock w + int (delay E (trace w) ev), trace := trace w @ [ev]\<rparr>)
      | Some e \<Rightarrow> (Inl e, w\<lparr>clock := clock w + int (delay E (trace w) ev), trace := trace w @ [ev]\<rparr>))
      = (r, w')"
  show "files w' = files w"
  proof (cases "fault E (trace w) ev")
    case None
    with run a [of "w\<lparr>clock := clock w + int (delay E (trace w) ev), trace := trace w @ [ev]\<rparr>"]
    show ?thesis by simp
  next
    case (Some e)
    with run show ?thesis by auto
  qed
qed

lemma same_files_fs_pathExists: "keeps same_files (fs_pathExists E p)"
  unfolding fs_pathExists_def
  by (intro keeps_try_catch same_files_ext keeps_return) simp_all

lemma same_files_fs_stat: "keeps same_files (fs_stat E p)"
  unfolding fs_stat_def by (rule same_files_ext) (simp split: option.splits)

lemma same_files_fs_ensureDir: "keeps same_files (fs_ensureDir E p)"
  unfolding fs_ensureDir_def by (rule same_files_ext) simp

lemma same_files_fs_access: "keeps same_files (fs_access E p)"
  unfolding fs_access_def by (rule same_files_ext) simp

lemma same_files_calculateSHA256: "keeps same_files (calculateSHA256 E p)"
  unfolding calculateSHA256_def by (rule same_files_ext) (simp split: option.splits)

lemma same_files_s3_send_head: "keeps same_files (s3_send_head E k)"
  unfolding s3_send_head_def by (rule same_files_ext) (simp split: option.splits)

lemma same_files_s3_send_get: "keeps same_files (s3_send_get E k)"
  unfolding s3_send_get_def by (rule same_files_ext) (simp split: option.splits)

lemmas same_files_intros = keeps_return keeps_throw keeps_of keeps_bind keeps_then
  keeps_try_catch keeps_Date_now same_files_logger same_files_fs_pathExists same_files_fs_stat
  same_files_fs_ensureDir same_files_fs_access same_files_calculateSHA256
  same_files_s3_send_head same_files_s3_send_get preorder_same_files

lemma same_files_verifyFileIntegrity: "keeps same_files (verifyFileIntegrity E p n h)"
  unfolding verifyFileIntegrity_def by (auto intro!: same_files_intros)

lemma same_files_getObjectInfo: "keeps same_files (getObjectInfo E k)"
  unfolding getObjectInfo_def by (auto intro!: same_files_intros)

lemma same_files_checkDiskSpace: "keeps same_files (checkDiskSpace E d)"
  unfolding checkDiskSpace_def by (auto intro!: same_files_intros)

lemma same_files_shouldUpdateFile: "keeps same_files (shouldUpdateFile E k p)"
  unfolding shouldUpdateFile_def
  by (auto intro!: same_files_intros same_files_getObjectInfo split: option.splits)

lemma same_files_downloadFile_fetch: "keeps same_files (downloadFile_fetch E k p)"
  unfolding downloadFile_fetch_def
  by (auto intro!: same_files_intros same_files_getObjectInfo same_files_checkDiskSpace
      split: option.splits)

lemma keeps_fetch_general:
  "A (HeadObject k) \<Longrightarrow> A (GetObject k) \<Longrightarrow> A (EnsureDir (dirname p)) \<Longrightarrow>
   A (Access (dirname p)) \<Longrightarrow> (\<And>l m. A (Log l m)) \<Longrightarrow>
   keeps (only_events A) (downloadFile_fetch E k p)"
  unfolding downloadFile_fetch_def
  by (auto intro!: keeps_intros keeps_getObjectInfo keeps_checkDiskSpace split: option.splits)

lemma keeps_bytes_lift:
  assumes "keeps (only_events (\<lambda>ev. \<forall>n. ev \<noteq> Data n)) m"
  shows "keeps bytes_rel (lift m)"
proof -
  have quiet: "list_all (\<lambda>ev. \<forall>n. ev \<noteq> Data n) evs \<Longrightarrow> data_bytes evs = 0" for evs
    by (induction evs rule: data_bytes.induct) simp_all
  show ?thesis
    unfolding keeps_def bytes_rel_def lift_def
  proof (intro allI impI)
    fix s :: "nat \<times> world" and r :: "js_error + 'a" and s'
    assume run: "(case s of (l, w) \<Rightarrow> case m w of (r, w') \<Rightarrow> (r, l, w')) = (r, s')"
    obtain l w where s: "s = (l, w)" by (cases s)
    obtain r1 w1 where m: "m w = (r1, w1)" by (cases "m w")
    from assms m obtain evs where "trace w1 = trace w @ evs"
      "list_all (\<lambda>ev. \<forall>n. ev \<noteq> Data n) evs"
      unfolding keeps_def only_events_def by blast
    with quiet have "data_bytes (trace w1) = data_bytes (trace w)" by simp
    with run s m show "data_bytes (trace (snd s')) + fst s = data_bytes (trace (snd s)) + fst s'"
      by auto
  qed
qed

lemma keeps_bytes_get_local: "keeps bytes_rel get_local"
  by (auto simp add: keeps_def bytes_rel_def get_local_def)

lemma keeps_bytes_data:
  assumes "keeps bytes_rel rest"
  shows "keeps bytes_rel (io_then (emit_data (length c)) (io_then (downloadFile_on_data c) rest))"
proof -
  have step: "keeps bytes_rel (io_then (emit_data (length c)) (downloadFile_on_data c))"
    by (auto simp add: keeps_def bytes_rel_def emit_data_def downloadFile_on_data_def
        io_return_def io_bind_def io_then_def lift_def get_local_def set_local_def logger_def
        split: prod.splits sum.splits if_splits)
  have assoc: "io_then (emit_data (length c)) (io_then (downloadFile_on_data c) rest) =
      io_then (io_then (emit_data (length c)) (downloadFile_on_data c)) rest"
    by (rule ext) (simp add: io_then_def io_bind_def split: prod.splits sum.splits)
  show ?thesis
    unfolding assoc by (rule keeps_then [OF preorder_bytes_rel step assms])
qed

lemma keeps_bytes_pump: "keeps bytes_rel (pump E downloadFile_on_data p cs)"
proof (induction cs)
  case Nil
  show ?case by (simp add: keeps_return)
next
  case (Cons c cs)
  show ?case
    unfolding pump.simps
    by (intro keeps_bytes_data keeps_then keeps_bytes_lift keeps_write_chunk Cons) simp_all
qed

lemma keeps_bytes_pipeline: "keeps bytes_rel (pipeline E downloadFile_on_data body p)"
  unfolding pipeline_def
  by (auto intro!: keeps_then keeps_bytes_lift keeps_open_write keeps_finish_write
      keeps_bytes_pump keeps_throw split: option.splits)

lemma keeps_bytes_staging: "keeps bytes_rel (downloadFile_staging E k p st info body)"
  unfolding downloadFile_staging_def Let_def
  by (auto intro!: keeps_try_catch keeps_then keeps_bind keeps_bytes_lift keeps_bytes_pipeline
      keeps_bytes_get_local keeps_verifyFileIntegrity keeps_cleanupTempFile keeps_fs_move
      keeps_Date_now keeps_logger keeps_throw keeps_return)

lemma keeps_bytes_body: "keeps bytes_rel (downloadFile_body E k p st)"
proof -
  have "keeps (only_events (\<lambda>ev. \<forall>n. ev \<noteq> Data n)) (downloadFile_fetch E k p)"
    by (rule keeps_fetch_general) simp_all
  then show ?thesis
    unfolding downloadFile_body_fetch
    by (auto intro!: keeps_bind keeps_bytes_lift keeps_bytes_staging)
qed

lemma downloadFile_body_cases:
  assumes "downloadFile_body E k p st (n, w) = (r, (n', w'))"
  obtains
    (fetch_failed) e where
      "downloadFile_fetch E k p w = (Inl e, w')" "r = Inl e" "n' = n"
  | (staged) info body w1 where
      "downloadFile_fetch E k p w = (Inr (info, body), w1)"
      "downloadFile_staging E k p st info body (n, w1) = (r, (n', w'))"
proof -
  obtain rf w1 where f: "downloadFile_fetch E k p w = (rf, w1)" by (metis surj_pair)
  show thesis
  proof (cases rf)
    case (Inl e)
    with assms f fetch_failed [of e] show thesis
      by (simp add: downloadFile_body_fetch io_bind_def lift_def)
  next
    case (Inr x)
    obtain info body where "x = (info, body)" by (cases x)
    with Inr assms f staged [of info body w1] show thesis
      by (simp add: downloadFile_body_fetch io_bind_def lift_def)
  qed
qed

lemma downloadFile_cases:
  assumes "downloadFile E k p w = (r, w')"
  obtains
    (succeeded) d n' where
      "downloadFile_body E k p (clock w) (0, w) = (Inr d, (n', w'))" "r = Inr d"
  | (failed) e n' w1 where
      "downloadFile_body E k p (clock w) (0, w) = (Inl e, (n', w1))"
      "r = Inr \<lparr>dl_success = False, dl_size = n', dl_duration = clock w1 - clock w\<rparr>"
      "w' = w1\<lparr>trace := trace w1 @
          [Log ERROR (''Failed to download file from S3: '' @ err_message e)]\<rparr>"
proof -
  obtain rb n1 w1 where b: "downloadFile_body E k p (clock w) (0, w) = (rb, (n1, w1))"
    by (metis surj_pair)
  show thesis
  proof (cases rb)
    case (Inr d)
    with assms b have "r = Inr d" "w' = w1"
      by (simp_all add: downloadFile_def io_bind_def Date_now_def with_local_def try_catch_def)
    with Inr b succeeded [of d n1] show thesis by simp
  next
    case (Inl e)
    with assms b have
      "r = Inr \<lparr>dl_success = False, dl_size = n1, dl_duration = clock w1 - clock w\<rparr>"
      "w' = w1\<lparr>trace := trace w1 @
          [Log ERROR (''Failed to download file from S3: '' @ err_message e)]\<rparr>"
      by (simp_all add: downloadFile_def io_bind_def io_then_def io_return_def Date_now_def
          with_local_def try_catch_def lift_def get_local_def logger_def Let_def)
    with Inl b failed [of e n1 w1] show thesis by simp
  qed
qed

lemma pump_written:
  "pump E downloadFile_on_data p cs (n, w) = (Inr (), (n', w')) \<Longrightarrow> files w p = Some f \<Longrightarrow>
   \<exists>f'. files w' p = Some f' \<and> length (content f') + n = n' + length (content f)"
proof (induction cs arbitrary: n w f)
  case Nil
  then show ?case by (simp add: io_return_def)
next
  case (Cons c cs)
  from Cons.prems(1) obtain n1 w1 n2 w2 where
    step: "io_then (emit_data (length c)) (downloadFile_on_data c) (n, w) = (Inr (), (n1, w1))"
    and wr: "write_chunk E p c w1 = (Inr (), w2)"
    and rest: "pump E downloadFile_on_data p cs (n1, w2) = (Inr (), (n', w'))"
    by (auto simp add: io_then_def io_bind_def lift_def split: prod.splits sum.splits)
  from step have n1: "n1 = n + length c" and f1: "files w1 = files w"
    by (auto simp add: emit_data_def downloadFile_on_data_def io_return_def io_bind_def
        io_then_def lift_def get_local_def set_local_def logger_def
        split: prod.splits sum.splits if_splits)
  from wr f1 Cons.prems(2) obtain f2 where
    f2: "files w2 p = Some f2" "content f2 = content f @ c"
    by (auto simp add: write_chunk_def ext_def Let_def split: option.splits)
  from Cons.IH [OF rest f2(1)] n1 f2(2) show ?case by auto
qed

lemma pipeline_written:
  assumes "pipeline E downloadFile_on_data body p (n, w) = (Inr (), (n', w'))"
  shows "\<exists>f. files w' p = Some f \<and> length (content f) + n = n'"
proof -
  from assms obtain w1 n2 w2 where
    op: "open_write E p w = (Inr (), w1)"
    and pu: "pump E downloadFile_on_data p (chunks body) (n, w1) = (Inr (), (n2, w2))"
    and fi: "(case stream_error body of Some e \<Rightarrow> io_throw e | None \<Rightarrow> lift (finish_write E p))
               (n2, w2) = (Inr (), (n', w'))"
    by (auto simp add: pipeline_def io_then_def io_bind_def lift_def split: prod.splits sum.splits)
  from op obtain f1 where f1: "files w1 p = Some f1" "content f1 = []"
    by (auto simp add: open_write_def ext_def Let_def split: option.splits)
  from pump_written [OF pu f1(1)] f1(2) obtain f2 where
    f2: "files w2 p = Some f2" "length (content f2) + n = n2" by auto
  from fi have "n' = n2" "files w' = files w2"
    by (auto simp add: io_throw_def lift_def finish_write_def ext_def Let_def
        split: option.splits prod.splits)
  with f2 show ?thesis by simp
qed

lemmas fs_defs = fs_pathExists_def fs_stat_def fs_remove_def fs_move_def fs_ensureDir_def
  fs_access_def open_write_def write_chunk_def finish_write_def emit_data_def

lemmas dl_defs = downloadFile_def downloadFile_body_def downloadFile_staging_def
  downloadFile_on_data_def getObjectInfo_def s3_send_head_def s3_send_get_def checkDiskSpace_def
  verifyFileIntegrity_def cleanupTempFile_def pipeline_def dirname_def Let_def

lemma downloadFile_no_throw: "downloadFile E k p w \<noteq> (Inl e, w')"
  by (simp add: downloadFile_def io_defs Let_def split: prod.splits sum.splits)

lemma downloadFile_outcomes:
  assumes "downloadFile E k p w = (r, w')"
  obtains
    (not_fetched) e w1 where
      "downloadFile_fetch E k p w = (Inl e, w1)"
      "r = Inr \<lparr>dl_success = False, dl_size = 0, dl_duration = clock w1 - clock w\<rparr>"
  | (stream_broke) info body w1 e n w2 where
      "downloadFile_fetch E k p w = (Inr (info, body), w1)"
      "pipeline E downloadFile_on_data body (p @ ''.tmp'') (0, w1) = (Inl e, (n, w2))"
      "\<not> dl_success (projr r)" "dl_size (projr r) = n"
  | (rejected) info body w1 n w2 w3 where
      "downloadFile_fetch E k p w = (Inr (info, body), w1)"
      "pipeline E downloadFile_on_data body (p @ ''.tmp'') (0, w1) = (Inr (), (n, w2))"
      "verifyFileIntegrity E (p @ ''.tmp'') (Some (obj_size info)) None w2 = (Inr False, w3)"
      "\<not> dl_success (projr r)" "dl_size (projr r) = n"
  | (not_moved) info body w1 n w2 w3 e w4 where
      "downloadFile_fetch E k p w = (Inr (info, body), w1)"
      "pipeline E downloadFile_on_data body (p @ ''.tmp'') (0, w1) = (Inr (), (n, w2))"
      "verifyFileIntegrity E (p @ ''.tmp'') (Some (obj_size info)) None w2 = (Inr True, w3)"
      "fs_move E (p @ ''.tmp'') p w3 = (Inl e, w4)"
      "\<not> dl_success (projr r)" "dl_size (projr r) = n"
  | (moved) info body w1 n w2 w3 w4 where
      "downloadFile_fetch E k p w = (Inr (info, body), w1)"
      "pipeline E downloadFile_on_data body (p @ ''.tmp'') (0, w1) = (Inr (), (n, w2))"
      "verifyFileIntegrity E (p @ ''.tmp'') (Some (obj_size info)) None w2 = (Inr True, w3)"
      "fs_move E (p @ ''.tmp'') p w3 = (Inr (), w4)"
      "dl_success (projr r)" "dl_size (projr r) = n" "files w' = files w4"
  using assms
proof (cases rule: downloadFile_cases)
  case (succeeded d n')
  from succeeded(1) show ?thesis
  proof (cases rule: downloadFile_body_cases)
    case (fetch_failed e)
    then show ?thesis by simp
  next
    case (staged info body w1)
    from staged(2) show ?thesis
    proof (cases rule: downloadFile_staging_cases)
      case (installed w2 w3 w4)
      with staged(1) succeeded(2) moved [of info body w1 n' w2 w3 w4] show ?thesis
        by simp
    qed simp_all
  qed
next
  case (failed e n' w1)
  from failed(1) show ?thesis
  proof (cases rule: downloadFile_body_cases)
    case (fetch_failed e')
    with failed(2) not_fetched [of e' w1] show ?thesis by simp
  next
    case (staged info body w0)
    from staged(2) show ?thesis
    proof (cases rule: downloadFile_staging_cases)
      case (pipeline_failed e' w2)
      with staged(1) failed(2) stream_broke [of info body w0 e' n' w2] show ?thesis by simp
    next
      case (invalid w2 w3 w4)
      with staged(1) failed(2) rejected [of info body w0 n' w2 w3] show ?thesis by simp
    next
      case (move_failed e' w2 w3 w4)
      with staged(1) failed(2) not_moved [of info body w0 n' w2 w3 e' w4] show ?thesis by simp
    next
      case (installed w2 w3 w4)
      then show ?thesis by simp
    qed
  qed
qed


lemma downloadFile_fetch_steps:
  "downloadFile_fetch E k p w = (Inr (info, body), w4) \<longleftrightarrow>
     (\<exists>w1 w2 w3 g.
        getObjectInfo E k (snd (logger INFO (''Starting download from S3: '' @ k @ '' -> '' @ p) w))
          = (Inr (Some info), w1)
        \<and> fs_ensureDir E (dirname p) w1 = (Inr (), w2)
        \<and> checkDiskSpace E (dirname p) w2 = (Inr True, w3)
        \<and> s3_send_get E k w3 = (Inr g, w4)
        \<and> Body g = Some body)"
  by (auto simp add: downloadFile_fetch_def io_then_def io_bind_def io_throw_def io_return_def
      logger_def split: prod.splits sum.splits option.splits if_splits)

lemma downloadFile_fetch_object_absent:
  assumes "getObjectInfo E k
      (snd (logger INFO (''Starting download from S3: '' @ k @ '' -> '' @ p) w)) = (Inr None, w1)"
  shows "downloadFile_fetch E k p w = (Inl (JsError ''Error'' (''S3 object not found: '' @ k)), w1)"
  using assms
  by (simp add: downloadFile_fetch_def io_then_def io_bind_def io_throw_def logger_def)

lemma downloadFile_fetch_no_space:
  assumes "getObjectInfo E k
      (snd (logger INFO (''Starting download from S3: '' @ k @ '' -> '' @ p) w))
        = (Inr (Some info), w1)"
    and "fs_ensureDir E (dirname p) w1 = (Inr (), w2)"
    and "checkDiskSpace E (dirname p) w2 = (Inr False, w3)"
  shows "\<exists>e. downloadFile_fetch E k p w = (Inl e, w3)"
  using assms
  by (simp add: downloadFile_fetch_def io_then_def io_bind_def io_throw_def logger_def)

lemma getObjectInfo_head_absent:
  "head_object E k = None \<Longrightarrow> getObjectInfo E k w \<noteq> (Inr (Some info), w')"
  by (auto simp add: getObjectInfo_def s3_send_head_def io_defs Let_def
      split: option.splits if_splits)

lemma getObjectInfo_size:
  "getObjectInfo E k w = (Inr (Some info), w') \<Longrightarrow>
   \<exists>response. head_object E k = Some response
     \<and> obj_size info = (case ContentLength response of None \<Rightarrow> 0 | Some n \<Rightarrow> n)"
  by (auto simp add: getObjectInfo_def s3_send_head_def io_defs Let_def
      split: option.splits if_splits)

lemma checkDiskSpace_refused:
  "fault E (trace w) (Access d) \<noteq> None \<Longrightarrow> fst (checkDiskSpace E d w) = Inr False"
  by (auto simp add: checkDiskSpace_def fs_access_def io_defs Let_def)

lemma s3_send_get_body:
  "s3_send_get E k w = (Inr g, w') \<Longrightarrow> get_object E k = Some g"
  by (auto simp add: s3_send_get_def ext_def Let_def split: option.splits)

lemma pipeline_stream_error:
  "stream_error body \<noteq> None \<Longrightarrow> pipeline E on_data body q s \<noteq> (Inr (), s')"
  by (auto simp add: pipeline_def io_then_def io_bind_def io_throw_def
      split: prod.splits sum.splits option.splits)

lemma verifyFileIntegrity_size:
  assumes "verifyFileIntegrity E q (Some m) None w = (Inr True, w')"
  shows "m = 0 \<or> (\<exists>f. files w q = Some f \<and> length (content f) = m)"
  using assms
  by (auto simp add: verifyFileIntegrity_def fs_stat_def io_defs Let_def
      split: option.splits if_splits prod.splits sum.splits)


lemma downloadFile_elapsed:
  assumes "downloadFile E k p w = (Inr r, w')"
  shows "dl_duration r = clock w' - clock w
    \<and> data_bytes (trace w') = data_bytes (trace w) + dl_size r"
  using assms
proof (cases rule: downloadFile_cases)
  case (succeeded d n')
  from succeeded(1) have bytes: "data_bytes (trace w') = data_bytes (trace w) + n'"
    using keeps_bytes_body [of E k p "clock w"]
    unfolding keeps_def bytes_rel_def by fastforce
  from succeeded(1) show ?thesis
  proof (cases rule: downloadFile_body_cases)
    case (fetch_failed e)
    then show ?thesis by simp
  next
    case (staged info body w1)
    from staged(2) show ?thesis
    proof (cases rule: downloadFile_staging_cases)
      case (installed w2 w3 w4)
      with bytes succeeded(2) show ?thesis by auto
    qed simp_all
  qed
next
  case (failed e n' w1)
  from failed(1) have "data_bytes (trace w1) = data_bytes (trace w) + n'"
    using keeps_bytes_body [of E k p "clock w"]
    unfolding keeps_def bytes_rel_def by fastforce
  with failed(2,3) show ?thesis by auto
qed

lemma downloadFile_installed_file:
  assumes "pipeline E downloadFile_on_data body (p @ ''.tmp'') (0, w1) = (Inr (), (n, w2))"
    and "verifyFileIntegrity E (p @ ''.tmp'') (Some m) None w2 = (Inr True, w3)"
    and "fs_move E (p @ ''.tmp'') p w3 = (Inr (), w4)"
  shows "\<exists>f. files w4 p = Some f \<and> length (content f) = n \<and> (m = 0 \<or> m = n)"
proof -
  from pipeline_written [OF assms(1)] obtain f where
    f: "files w2 (p @ ''.tmp'') = Some f" "length (content f) = n" by auto
  from assms(2) have same: "files w3 = files w2"
    using same_files_verifyFileIntegrity [of E "p @ ''.tmp''"]
    unfolding keeps_def same_files_def by blast
  with f assms(3) have "files w4 p = Some f"
    by (auto simp add: fs_move_def ext_def Let_def split: option.splits if_splits)
  moreover from verifyFileIntegrity_size [OF assms(2)] f have "m = 0 \<or> m = n" by auto
  ultimately show ?thesis using f(2) by simp
qed

text \<open>
  C3.  \<open>downloadFile\<close> never throws: from every world and in every environment it
  returns a result object.  The duration of the result is the time that has passed on
  the clock during the call, and its size is the number of bytes the \<open>data\<close> events
  of the call have delivered, on success and on failure alike.

  The result is a success exactly when every step went through: the steps before the
  staging file (the descriptor was found, the target directory was made, the disk-space
  check said yes, the object was sent with a body), the pipeline into the staging file,
  the verification of the staging file against the size of the descriptor, and the
  rename.  Then the final path holds a file of as many bytes as the result says, and
  that number is the content length of the remote object unless that length is 0 or
  missing (what the verification accepts is the matter of C5).

  The result is a failure, with no byte transferred, when the remote object is absent
  (the bucket has no such key, or \<open>getObjectInfo\<close> returns \<open>null\<close>) and when there
  is not enough space (\<open>checkDiskSpace\<close> returns \<open>false\<close>, as it does when reaching
  the directory fails).  It is a failure carrying the bytes counted so far when the
  pipeline rejects, as it does when the body stream fails, and when the verification
  returns \<open>false\<close>.
\<close>

theorem downloadFile_never_throws:
  "\<exists>r w'. downloadFile E k p w = (Inr r, w')
     \<and> dl_duration r = clock w' - clock w
     \<and> data_bytes (trace w') = data_bytes (trace w) + dl_size r
     \<and> (dl_success r \<longleftrightarrow>
          (\<exists>info body w1 w2 w3 w4.
             downloadFile_fetch E k p w = (Inr (info, body), w1)
             \<and> pipeline E downloadFile_on_data body (p @ ''.tmp'') (0, w1)
                 = (Inr (), (dl_size r, w2))
             \<and> verifyFileIntegrity E (p @ ''.tmp'') (Some (obj_size info)) None w2
                 = (Inr True, w3)
             \<and> fs_move E (p @ ''.tmp'') p w3 = (Inr (), w4)
             \<and> files w' = files w4))
     \<and> (dl_success r \<longrightarrow>
          (\<exists>f. files w' p = Some f \<and> length (content f) = dl_size r)
          \<and> (\<exists>response. head_object E k = Some response
                \<and> (case ContentLength response of
                      None \<Rightarrow> True
                    | Some m \<Rightarrow> m = 0 \<or> m = dl_size r)))
     \<and> (head_object E k = None \<longrightarrow> \<not> dl_success r \<and> dl_size r = 0)
     \<and> (\<forall>w1. getObjectInfo E k
                (snd (logger INFO (''Starting download from S3: '' @ k @ '' -> '' @ p) w))
                = (Inr None, w1) \<longrightarrow>
           \<not> dl_success r \<and> dl_size r = 0)
     \<and> (\<forall>info w1 w2 w3.
           getObjectInfo E k
             (snd (logger INFO (''Starting download from S3: '' @ k @ '' -> '' @ p) w))
             = (Inr (Some info), w1)
           \<and> fs_ensureDir E (dirname p) w1 = (Inr (), w2)
           \<and> checkDiskSpace E (dirname p) w2 = (Inr False, w3) \<longrightarrow>
           \<not> dl_success r \<and> dl_size r = 0)
     \<and> ((\<forall>h. fault E h (Access (dirname p)) \<noteq> None) \<longrightarrow> \<not> dl_success r \<and> dl_size r = 0)
     \<and> (\<forall>info body w1 e n w2.
           downloadFile_fetch E k p w = (Inr (info, body), w1)
           \<and> pipeline E downloadFile_on_data body (p @ ''.tmp'') (0, w1) = (Inl e, (n, w2)) \<longrightarrow>
           \<not> dl_success r \<and> dl_size r = n)
     \<and> (\<forall>g body. get_object E k = Some g \<and> Body g = Some body \<and> stream_error body \<noteq> None \<longrightarrow>
           \<not> dl_success r)
     \<and> (\<forall>info body w1 n w2 w3.
           downloadFile_fetch E k p w = (Inr (info, body), w1)
           \<and> pipeline E downloadFile_on_data body (p @ ''.tmp'') (0, w1) = (Inr (), (n, w2))
           \<and> verifyFileIntegrity E (p @ ''.tmp'') (Some (obj_size info)) None w2
               = (Inr False, w3) \<longrightarrow>
           \<not> dl_success r \<and> dl_size r = n)
     \<and> (\<forall>info body w4.
           downloadFile_fetch E k p w = (Inr (info, body), w4) \<longleftrightarrow>
           (\<exists>w1 w2 w3 g.
              getObjectInfo E k
                (snd (logger INFO (''Starting download from S3: '' @ k @ '' -> '' @ p) w))
                = (Inr (Some info), w1)
              \<and> fs_ensureDir E (dirname p) w1 = (Inr (), w2)
              \<and> checkDiskSpace E (dirname p) w2 = (Inr True, w3)
              \<and> s3_send_get E k w3 = (Inr g, w4)
              \<and> Body g = Some body))"
proof -
  obtain r0 w' where run0: "downloadFile E k p w = (r0, w')" by (metis surj_pair)
  then obtain r where run: "downloadFile E k p w = (Inr r, w')"
    using downloadFile_no_throw [of E k p w] by (cases r0) auto
  note elapsed = downloadFile_elapsed [OF run]
  have fetched_head: "\<exists>response. head_object E k = Some response
      \<and> obj_size info = (case ContentLength response of None \<Rightarrow> 0 | Some n \<Rightarrow> n)"
    if "downloadFile_fetch E k p w = (Inr (info, body), w1)" for info body w1
    using that getObjectInfo_size [of E k _ info] unfolding downloadFile_fetch_steps by blast
  have fetched_space: "\<exists>h. fault E h (Access (dirname p)) = None"
    if "downloadFile_fetch E k p w = (Inr (info, body), w1)" for info body w1
  proof -
    from that obtain w2 w3 where "checkDiskSpace E (dirname p) w2 = (Inr True, w3)"
      unfolding downloadFile_fetch_steps by blast
    with checkDiskSpace_refused [of E w2 "dirname p"]
    have "fault E (trace w2) (Access (dirname p)) = None"
      by (cases "fault E (trace w2) (Access (dirname p))") auto
    then show ?thesis ..
  qed
  have fetched_body: "\<exists>g. get_object E k = Some g \<and> Body g = Some body"
    if "downloadFile_fetch E k p w = (Inr (info, body), w1)" for info body w1
    using that s3_send_get_body [of E k] unfolding downloadFile_fetch_steps by blast
  have success: "dl_success r \<longleftrightarrow>
          (\<exists>info body w1 w2 w3 w4.
             downloadFile_fetch E k p w = (Inr (info, body), w1)
             \<and> pipeline E downloadFile_on_data body (p @ ''.tmp'') (0, w1)
                 = (Inr (), (dl_size r, w2))
             \<and> verifyFileIntegrity E (p @ ''.tmp'') (Some (obj_size info)) None w2
                 = (Inr True, w3)
             \<and> fs_move E (p @ ''.tmp'') p w3 = (Inr (), w4)
             \<and> files w' = files w4)"
    using run by (cases rule: downloadFile_outcomes) auto
  have installed: "(\<exists>f. files w' p = Some f \<and> length (content f) = dl_size r)
          \<and> (\<exists>response. head_object E k = Some response
                \<and> (case ContentLength response of
                      None \<Rightarrow> True
                    | Some m \<Rightarrow> m = 0 \<or> m = dl_size r))" if "dl_success r"
  proof -
    from that success obtain info body w1 w2 w3 w4 where
      st: "downloadFile_fetch E k p w = (Inr (info, body), w1)"
        "pipeline E downloadFile_on_data body (p @ ''.tmp'') (0, w1) = (Inr (), (dl_size r, w2))"
        "verifyFileIntegrity E (p @ ''.tmp'') (Some (obj_size info)) None w2 = (Inr True, w3)"
        "fs_move E (p @ ''.tmp'') p w3 = (Inr (), w4)" "files w' = files w4"
      by blast
    from downloadFile_installed_file [OF st(2,3,4)] st(5) obtain f where
      "files w' p = Some f" "length (content f) = dl_size r"
      "obj_size info = 0 \<or> obj_size info = dl_size r" by auto
    with fetched_head [OF st(1)] show ?thesis by (auto split: option.splits)
  qed
  have no_fetch: "\<not> dl_success r \<and> dl_size r = 0"
    if "\<And>info body w1. downloadFile_fetch E k p w \<noteq> (Inr (info, body), w1)"
    using run by (cases rule: downloadFile_outcomes) (auto simp add: that)
  have absent_head: "\<not> dl_success r \<and> dl_size r = 0" if "head_object E k = None"
    using that fetched_head by (intro no_fetch) fastforce
  have absent: "\<not> dl_success r \<and> dl_size r = 0"
    if "getObjectInfo E k
          (snd (logger INFO (''Starting download from S3: '' @ k @ '' -> '' @ p) w))
          = (Inr None, w1)" for w1
    using downloadFile_fetch_object_absent [OF that] by (intro no_fetch) simp
  have no_space: "\<not> dl_success r \<and> dl_size r = 0"
    if "getObjectInfo E k
          (snd (logger INFO (''Starting download from S3: '' @ k @ '' -> '' @ p) w))
          = (Inr (Some info), w1)"
      "fs_ensureDir E (dirname p) w1 = (Inr (), w2)"
      "checkDiskSpace E (dirname p) w2 = (Inr False, w3)" for info w1 w2 w3
    using downloadFile_fetch_no_space [OF that] by (intro no_fetch) auto
  have no_space_env: "\<not> dl_success r \<and> dl_size r = 0"
    if "\<forall>h. fault E h (Access (dirname p)) \<noteq> None"
    using that fetched_space by (intro no_fetch) blast
  have stream: "\<not> dl_success r \<and> dl_size r = n"
    if "downloadFile_fetch E k p w = (Inr (info, body), w1)"
      "pipeline E downloadFile_on_data body (p @ ''.tmp'') (0, w1) = (Inl e, (n, w2))"
    for info body w1 e n w2
    using run that by (cases rule: downloadFile_outcomes) auto
  have stream_env: "\<not> dl_success r"
    if "get_object E k = Some g" "Body g = Some body" "stream_error body \<noteq> None" for g body
  proof
    assume "dl_success r"
    with success obtain info body' w1 w2 where
      st: "downloadFile_fetch E k p w = (Inr (info, body'), w1)"
        "pipeline E downloadFile_on_data body' (p @ ''.tmp'') (0, w1) = (Inr (), (dl_size r, w2))"
      by blast
    from fetched_body [OF st(1)] that(1,2) have "body' = body" by auto
    with st(2) pipeline_stream_error [OF that(3)] show False by blast
  qed
  have integrity: "\<not> dl_success r \<and> dl_size r = n"
    if "downloadFile_fetch E k p w = (Inr (info, body), w1)"
      "pipeline E downloadFile_on_data body (p @ ''.tmp'') (0, w1) = (Inr (), (n, w2))"
      "verifyFileIntegrity E (p @ ''.tmp'') (Some (obj_size info)) None w2 = (Inr False, w3)"
    for info body w1 n w2 w3
    using run that by (cases rule: downloadFile_outcomes) auto
  show ?thesis
    apply (rule exI [of _ r], rule exI [of _ w'])
    apply (intro conjI)
    subgoal by (rule run)
    subgoal using elapsed by simp
    subgoal using elapsed by simp
    subgoal by (rule success)
    subgoal using installed by blast
    subgoal using absent_head by blast
    subgoal using absent by blast
    subgoal using no_space by blast
    subgoal using no_space_env by blast
    subgoal using stream by blast
    subgoal using stream_env by blast
    subgoal using integrity by blast
    subgoal using downloadFile_fetch_steps [of E k p w] by blast
    done
qed

theorem downloadFile_never_throws_witness:
  "fst (downloadFile env_model model_key model_path world0) =
     Inr \<lparr>dl_success = True, dl_size = 3, dl_duration = 10\<rparr>
   \<and> files (snd (downloadFile env_model model_key model_path world0)) model_path =
     Some \<lparr>content = ''abc'', mtime = 7\<rparr>
   \<and> head_object env0 model_key = None
   \<and> fst (downloadFile env0 model_key model_path world0) =
     Inr \<lparr>dl_success = False, dl_size = 0, dl_duration = 1\<rparr>
   \<and> (\<forall>h. fault env_full h (Access (dirname model_path)) \<noteq> None)
   \<and> fst (downloadFile env_full model_key model_path world0) =
     Inr \<lparr>dl_success = False, dl_size = 0, dl_duration = 3\<rparr>
   \<and> get_object env_aborted model_key =
     Some \<lparr>Body = Some \<lparr>chunks = [''ab''], stream_error = Some (JsError ''Error'' ''aborted'')\<rparr>\<rparr>
   \<and> fst (downloadFile env_aborted model_key model_path world0) =
     Inr \<lparr>dl_success = False, dl_size = 2, dl_duration = 8\<rparr>
   \<and> head_object env_truncated model_key =
     Some \<lparr>ContentLength = Some 3, LastModified = Some 5000, ETag = Some ''abc''\<rparr>
   \<and> Log WARN ''File size mismatch''
       \<in> set (trace (snd (downloadFile env_truncated model_key model_path world0)))
   \<and> fst (downloadFile env_truncated model_key model_path world0) =
     Inr \<lparr>dl_success = False, dl_size = 2, dl_duration = 11\<rparr>"
proof -
  have model: "fst (downloadFile env_model model_key model_path world0) =
       Inr \<lparr>dl_success = True, dl_size = 3, dl_duration = 10\<rparr>
     \<and> files (snd (downloadFile env_model model_key model_path world0)) model_path =
       Some \<lparr>content = ''abc'', mtime = 7\<rparr>"
  proof -
    from downloadFile_never_throws [of env_model model_key model_path world0]
    obtain r w' where "downloadFile env_model model_key model_path world0 = (Inr r, w')"
      and "dl_duration r = clock w' - clock world0"
      and "dl_success r \<longrightarrow>
          (\<exists>f. files w' model_path = Some f \<and> length (content f) = dl_size r)
          \<and> (\<exists>response. head_object env_model model_key = Some response
                \<and> (case ContentLength response of
                      None \<Rightarrow> True
                    | Some m \<Rightarrow> m = 0 \<or> m = dl_size r))"
      by (elim exE conjE) (rule that)
    then show ?thesis
      by (cases r) (auto simp add: dl_defs fs_defs io_defs env_model_def env0_def world0_def
          model_key_def model_path_def)
  qed
  have absent: "head_object env0 model_key = None"
    by (simp add: env0_def)
  have absent_run: "fst (downloadFile env0 model_key model_path world0) =
       Inr \<lparr>dl_success = False, dl_size = 0, dl_duration = 1\<rparr>"
  proof -
    from downloadFile_never_throws [of env0 model_key model_path world0]
    obtain r w' where "downloadFile env0 model_key model_path world0 = (Inr r, w')"
      and "dl_duration r = clock w' - clock world0"
      and "head_object env0 model_key = None \<longrightarrow> \<not> dl_success r \<and> dl_size r = 0"
      by (elim exE conjE) (rule that)
    with absent show ?thesis
      by (cases r) (auto simp add: dl_defs fs_defs io_defs env0_def world0_def
          model_key_def model_path_def)
  qed
  have full: "\<forall>h. fault env_full h (Access (dirname model_path)) \<noteq> None"
    by (simp add: env_full_def env_model_def env0_def model_path_def dirname_def
        Let_def)
  have full_run: "fst (downloadFile env_full model_key model_path world0) =
       Inr \<lparr>dl_success = False, dl_size = 0, dl_duration = 3\<rparr>"
  proof -
    from downloadFile_never_throws [of env_full model_key model_path world0]
    obtain r w' where "downloadFile env_full model_key model_path world0 = (Inr r, w')"
      and "dl_duration r = clock w' - clock world0"
      and "(\<forall>h. fault env_full h (Access (dirname model_path)) \<noteq> None) \<longrightarrow>
          \<not> dl_success r \<and> dl_size r = 0"
      by (elim exE conjE) (rule that)
    with full show ?thesis
      by (cases r) (auto simp add: dl_defs fs_defs io_defs env_full_def env_model_def env0_def
          world0_def model_key_def model_path_def)
  qed
  have aborted: "get_object env_aborted model_key =
     Some \<lparr>Body = Some \<lparr>chunks = [''ab''], stream_error = Some (JsError ''Error'' ''aborted'')\<rparr>\<rparr>"
    by (simp add: env_aborted_def env_model_def env0_def)
  have aborted_run: "fst (downloadFile env_aborted model_key model_path world0) =
     Inr \<lparr>dl_success = False, dl_size = 2, dl_duration = 8\<rparr>"
  proof -
    from downloadFile_never_throws [of env_aborted model_key model_path world0]
    obtain r w' where "downloadFile env_aborted model_key model_path world0 = (Inr r, w')"
      and "dl_duration r = clock w' - clock world0"
      and "data_bytes (trace w') = data_bytes (trace world0) + dl_size r"
      and "\<forall>g body. get_object env_aborted model_key = Some g \<and> Body g = Some body
             \<and> stream_error body \<noteq> None \<longrightarrow> \<not> dl_success r"
      by (elim exE conjE) (rule that)
    with aborted show ?thesis
      by (cases r) (auto simp add: dl_defs fs_defs io_defs env_aborted_def env_model_def env0_def
          world0_def model_key_def model_path_def)
  qed
  have truncated: "head_object env_truncated model_key =
     Some \<lparr>ContentLength = Some 3, LastModified = Some 5000, ETag = Some ''abc''\<rparr>"
    by (simp add: env_truncated_def env_model_def env0_def)
  have truncated_run: "Log WARN ''File size mismatch''
       \<in> set (trace (snd (downloadFile env_truncated model_key model_path world0)))
     \<and> fst (downloadFile env_truncated model_key model_path world0) =
       Inr \<lparr>dl_success = False, dl_size = 2, dl_duration = 11\<rparr>"
  proof -
    from downloadFile_never_throws [of env_truncated model_key model_path world0]
    obtain r w' where "downloadFile env_truncated model_key model_path world0 = (Inr r, w')"
      and "dl_duration r = clock w' - clock world0"
      and "data_bytes (trace w') = data_bytes (trace world0) + dl_size r"
      by (elim exE conjE) (rule that)
    then show ?thesis
      by (cases r) (auto simp add: dl_defs fs_defs io_defs env_truncated_def env_model_def env0_def
          world0_def model_key_def model_path_def)
  qed
  from model absent absent_run full full_run aborted aborted_run truncated truncated_run
  show ?thesis by blast
qed

text \<open>
  Where the descriptor announces a content length of 0 the verification compares no
  size (see C5): the body of three bytes is installed, and the result is a success.
\<close>

lemma downloadFile_unsized_installs:
  "fst (downloadFile env_unsized model_key model_path world0) =
     Inr \<lparr>dl_success = True, dl_size = 3, dl_duration = 10\<rparr>
   \<and> files (snd (downloadFile env_unsized model_key model_path world0)) model_path =
     Some \<lparr>content = ''abc'', mtime = 7\<rparr>"
  by (simp add: dl_defs fs_defs io_defs env_unsized_def env_model_def env0_def world0_def
      model_key_def model_path_def)

text \<open>
  C4 (as amended).  Cleanup of the staging file is best effort.  In every environment
  in which checking for the staging file and removing it do not themselves fail: when
  \<open>downloadFile\<close> returns, after a failure (a failed verification included) or a
  success, no file is left at the final path + \<open>.tmp\<close>, provided the staging file
  was created during the call or no such file existed before it.
\<close>

theorem downloadFile_staging_file_removed:
  assumes "\<forall>h. fault E h (PathExists (p @ ''.tmp'')) = None
             \<and> fault E h (Remove (p @ ''.tmp'')) = None"
    and "downloadFile E k p w = (r, w')"
    and "trace w' = trace w @ evs"
    and "files w (p @ ''.tmp'') = None \<or> OpenWrite (p @ ''.tmp'') \<in> set evs"
  shows "files w' (p @ ''.tmp'') = None"
proof -
  have cleaned: "cleanupTempFile E (p @ ''.tmp'') v = (x, v') \<Longrightarrow> files v' (p @ ''.tmp'') = None"
    for v x v'
    using cleanupTempFile_removes [OF assms(1), of v] by simp
  have staging: "files v' (p @ ''.tmp'') = None"
    if "downloadFile_staging E k p st info body (n, v) = (x, (n', v'))" for st info body n v x n' v'
    using that
  proof (cases rule: downloadFile_staging_cases)
    case (installed w1 w2 w3)
    from installed(3) have "files w3 (p @ ''.tmp'') = None"
      by (auto simp add: fs_move_def ext_def Let_def split: option.splits if_splits)
    with installed(4) show ?thesis by simp
  qed (auto dest: cleaned)
  have body: "files v' (p @ ''.tmp'') = None \<or>
      (files v' = files w \<and> (\<exists>es. trace v' = trace w @ es \<and> OpenWrite (p @ ''.tmp'') \<notin> set es))"
    if "downloadFile_body E k p st (n, w) = (x, (n', v'))" for st n x n' v'
    using that
  proof (cases rule: downloadFile_body_cases)
    case (fetch_failed e)
    from fetch_failed(1) have "files v' = files w"
      using same_files_downloadFile_fetch [of E k p] unfolding keeps_def same_files_def by blast
    moreover have "keeps (only_events (\<lambda>ev. ev \<noteq> OpenWrite (p @ ''.tmp'')))
        (downloadFile_fetch E k p)"
      by (rule keeps_fetch_general) simp_all
    with fetch_failed(1) obtain es where
      "trace v' = trace w @ es" "list_all (\<lambda>ev. ev \<noteq> OpenWrite (p @ ''.tmp'')) es"
      unfolding keeps_def only_events_def by blast
    ultimately show ?thesis
      by (auto simp add: list_all_iff)
  next
    case (staged info body w1)
    from staging [OF staged(2)] show ?thesis by simp
  qed
  from assms(2) show ?thesis
  proof (cases rule: downloadFile_cases)
    case (succeeded d n')
    from body [OF succeeded(1)] assms(3,4) show ?thesis by auto
  next
    case (failed e n' w1)
    from body [OF failed(1)] failed(3) assms(3,4) show ?thesis by auto
  qed
qed

theorem downloadFile_staging_file_removed_witness:
  "files (snd (downloadFile env_aborted model_key model_path world0)) (model_path @ ''.tmp'') = None
   \<and> OpenWrite (model_path @ ''.tmp'')
       \<in> set (trace (snd (downloadFile env_aborted model_key model_path world0)))
   \<and> fst (downloadFile env_aborted model_key model_path world0) =
     Inr \<lparr>dl_success = False, dl_size = 2, dl_duration = 8\<rparr>"
proof -
  have a: "\<forall>h. fault env_aborted h (PathExists (model_path @ ''.tmp'')) = None
             \<and> fault env_aborted h (Remove (model_path @ ''.tmp'')) = None"
    by (simp add: env_aborted_def env_model_def env0_def)
  have b: "downloadFile env_aborted model_key model_path world0 =
      (fst (downloadFile env_aborted model_key model_path world0),
       snd (downloadFile env_aborted model_key model_path world0))"
    by simp
  have c: "trace (snd (downloadFile env_aborted model_key model_path world0)) =
      trace world0 @ trace (snd (downloadFile env_aborted model_key model_path world0))"
    by (simp add: world0_def)
  have d: "files world0 (model_path @ ''.tmp'') = None \<or>
      OpenWrite (model_path @ ''.tmp'')
        \<in> set (trace (snd (downloadFile env_aborted model_key model_path world0)))"
    by (simp add: world0_def)
  show ?thesis
    using downloadFile_staging_file_removed [OF a b c d]
    by (simp add: dl_defs fs_defs io_defs env_aborted_def env_model_def env0_def world0_def
        model_key_def model_path_def)
qed

text \<open>
  As the claim C4 is stated, it fails where the removal itself fails: the body stream
  aborts after two bytes, or the two bytes written are fewer than the three expected,
  the removal of the staging file is refused, the refusal is logged and swallowed, and
  the staging file is still there when the failure result is returned.
\<close>

theorem downloadFile_staging_file_persists:
  "fst (downloadFile env_stuck model_key model_path world0) =
     Inr \<lparr>dl_success = False, dl_size = 2, dl_duration = 8\<rparr>
   \<and> OpenWrite (model_path @ ''.tmp'')
       \<in> set (trace (snd (downloadFile env_stuck model_key model_path world0)))
   \<and> files (snd (downloadFile env_stuck model_key model_path world0)) (model_path @ ''.tmp'') =
     Some \<lparr>content = ''ab'', mtime = 6\<rparr>
   \<and> fst (downloadFile env_short model_key model_path world0) =
     Inr \<lparr>dl_success = False, dl_size = 2, dl_duration = 12\<rparr>
   \<and> Log WARN ''File size mismatch''
       \<in> set (trace (snd (downloadFile env_short model_key model_path world0)))
   \<and> files (snd (downloadFile env_short model_key model_path world0)) (model_path @ ''.tmp'') =
     Some \<lparr>content = ''ab'', mtime = 6\<rparr>"
  by (simp add: dl_defs fs_defs io_defs env_stuck_def env_short_def env_aborted_def env_model_def
      env0_def world0_def model_key_def model_path_def)


lemma precedes_append:
  "precedes a b (xs @ ys) = (precedes a b xs \<and> (a \<in> set xs \<or> precedes a b ys))"
  by (induction xs) auto

lemma precedes_absent: "b \<notin> set xs \<Longrightarrow> precedes a b xs"
  by (induction xs) auto

lemma precedes_split:
  "precedes a b evs \<Longrightarrow> a \<noteq> b \<Longrightarrow> evs = pre @ b # post \<Longrightarrow> a \<in> set pre"
proof (induction evs arbitrary: pre)
  case Nil
  then show ?case by simp
next
  case (Cons x xs)
  show ?case
  proof (cases pre)
    case Nil
    with Cons.prems show ?thesis by auto
  next
    case (Cons y ys)
    with Cons.prems Cons.IH [of ys] show ?thesis by auto
  qed
qed

lemma keeps_emit_data: "A (Data n) \<Longrightarrow> keeps (on_world (only_events A)) (emit_data n)"
  unfolding emit_data_def
  by (rule keeps_lift) (simp add: keeps_def only_events_def)

lemma keeps_on_data:
  "(\<And>l m. A (Log l m)) \<Longrightarrow> keeps (on_world (only_events A)) (downloadFile_on_data c)"
  unfolding downloadFile_on_data_def
  by (auto intro!: keeps_intros)

lemma keeps_pump:
  "(\<And>n. A (Data n)) \<Longrightarrow> (\<And>n. A (Write q n)) \<Longrightarrow> (\<And>l m. A (Log l m)) \<Longrightarrow>
   keeps (on_world (only_events A)) (pump E downloadFile_on_data q cs)"
proof (induction cs)
  case Nil
  show ?case by (simp add: keeps_return)
next
  case (Cons c cs)
  then show ?case
    by (auto intro!: keeps_intros keeps_emit_data keeps_on_data)
qed

lemma keeps_pipeline:
  "A (OpenWrite q) \<Longrightarrow> A (Finish q) \<Longrightarrow> (\<And>n. A (Data n)) \<Longrightarrow> (\<And>n. A (Write q n)) \<Longrightarrow>
   (\<And>l m. A (Log l m)) \<Longrightarrow>
   keeps (on_world (only_events A)) (pipeline E downloadFile_on_data body q)"
  unfolding pipeline_def
  by (auto intro!: keeps_intros keeps_pump split: option.splits)

lemma pipeline_finished:
  assumes "pipeline E downloadFile_on_data body q (n, w) = (Inr (), (n', w'))"
  shows "\<exists>es. trace w' = trace w @ es \<and> Finish q \<in> set es"
proof -
  from assms obtain n2 w2 where
    before: "io_then (lift (open_write E q)) (pump E downloadFile_on_data q (chunks body)) (n, w)
       = (Inr (), (n2, w2))"
    and fi: "(case stream_error body of Some e \<Rightarrow> io_throw e | None \<Rightarrow> lift (finish_write E q))
               (n2, w2) = (Inr (), (n', w'))"
    by (auto simp add: pipeline_def io_then_def io_bind_def split: prod.splits sum.splits)
  have "keeps (on_world (only_events (\<lambda>ev. True)))
      (io_then (lift (open_write E q)) (pump E downloadFile_on_data q (chunks body)))"
    by (auto intro!: keeps_intros keeps_pump)
  with before obtain es where es: "trace w2 = trace w @ es"
    unfolding keeps_def on_world_def only_events_def by fastforce
  from fi have "trace w' = trace w2 @ [Finish q]"
    by (auto simp add: io_throw_def lift_def finish_write_def ext_def Let_def
        split: option.splits prod.splits)
  with es show ?thesis by simp
qed

lemma verifyFileIntegrity_verified:
  assumes "verifyFileIntegrity E q n None w = (Inr True, w')"
  shows "trace w' = trace w @ [Stat q, Log INFO ''File integrity verified successfully'']"
  using assms
  by (auto simp add: verifyFileIntegrity_def fs_stat_def io_defs Let_def
      split: option.splits if_splits prod.splits sum.splits)

text \<open>
  C7.  In every run of \<open>downloadFile\<close>, among the events of the call: a \<open>stat\<close>
  of the staging file, and a read of it for a digest, come only after the write stream
  of the staging file was flushed and closed (the \<open>Finish\<close> event, which the awaited
  promise of \<open>pipeline\<close> waits for); and the rename of the staging file to the final
  path comes only after that, after the \<open>stat\<close>, and after the verification has
  reported success.
\<close>

theorem downloadFile_verifies_after_finish:
  assumes run: "downloadFile E k p w = (r, w')"
    and tr: "trace w' = trace w @ evs"
  shows "(\<forall>pre post. evs = pre @ Stat (p @ ''.tmp'') # post \<longrightarrow>
            Finish (p @ ''.tmp'') \<in> set pre)
       \<and> (\<forall>pre post. evs = pre @ ReadStream (p @ ''.tmp'') # post \<longrightarrow>
            Finish (p @ ''.tmp'') \<in> set pre)
       \<and> (\<forall>pre post. evs = pre @ Move (p @ ''.tmp'') p # post \<longrightarrow>
            Finish (p @ ''.tmp'') \<in> set pre
            \<and> Stat (p @ ''.tmp'') \<in> set pre
            \<and> Log INFO ''File integrity verified successfully'' \<in> set pre)"
proof -
  let ?t = "p @ ''.tmp''"
  let ?ok = "Log INFO ''File integrity verified successfully''"
  let ?A = "\<lambda>ev. ev \<noteq> Stat ?t \<and> ev \<noteq> ReadStream ?t \<and> ev \<noteq> Move ?t p"
  define quiet where "quiet es = (Stat ?t \<notin> set es \<and> ReadStream ?t \<notin> set es
      \<and> Move ?t p \<notin> set es)" for es
  define good where "good es = (precedes (Finish ?t) (Stat ?t) es
      \<and> precedes (Finish ?t) (ReadStream ?t) es
      \<and> precedes (Finish ?t) (Move ?t p) es
      \<and> precedes (Stat ?t) (Move ?t p) es
      \<and> precedes ?ok (Move ?t p) es)" for es
  have quietI: "quiet es" if "list_all ?A es" for es
    using that unfolding quiet_def by (induction es) auto
  have good_quiet: "good es" if "quiet es" for es
    using that unfolding quiet_def good_def by (simp add: precedes_absent)
  have good_after: "good (es @ es')" if "quiet es" "good es'" for es es'
    using that unfolding quiet_def good_def by (simp add: precedes_append precedes_absent)
  have quiet_append: "quiet (es @ es')" if "quiet es" "quiet es'" for es es'
    using that unfolding quiet_def by simp
  have cleanup: "\<exists>es. trace v' = trace v @ es \<and> quiet es"
    if "cleanupTempFile E ?t v = (x, v')" for v x v'
  proof -
    have "keeps (only_events ?A) (cleanupTempFile E ?t)"
      by (rule keeps_cleanupTempFile) simp_all
    with that quietI show ?thesis unfolding keeps_def only_events_def by blast
  qed
  have pipe: "\<exists>es. trace v' = trace v @ es \<and> quiet es \<and> (x = Inr () \<longrightarrow> Finish ?t \<in> set es)"
    if "pipeline E downloadFile_on_data body ?t (n, v) = (x, (n', v'))" for body n v x n' v'
  proof -
    have "keeps (on_world (only_events ?A)) (pipeline E downloadFile_on_data body ?t)"
      by (rule keeps_pipeline) simp_all
    with that obtain es where es: "trace v' = trace v @ es" "list_all ?A es"
      unfolding keeps_def on_world_def only_events_def by fastforce
    moreover have "Finish ?t \<in> set es" if "x = Inr ()"
      using pipeline_finished [of E body ?t n v n' v'] that \<open>pipeline _ _ _ _ _ = _\<close> es(1)
      by auto
    ultimately show ?thesis using quietI by blast
  qed
  have staging: "\<exists>es. trace v' = trace v @ es \<and> good es"
    if "downloadFile_staging E k p st info body (n, v) = (x, (n', v'))"
    for st info body n v x n' v'
    using that
  proof (cases rule: downloadFile_staging_cases)
    case (pipeline_failed e w1)
    from pipe [OF pipeline_failed(1)] cleanup [OF pipeline_failed(2)]
    obtain es1 es2 where "trace w1 = trace v @ es1" "quiet es1" "trace v' = trace w1 @ es2"
      "quiet es2" by blast
    then have "trace v' = trace v @ (es1 @ es2)" "good (es1 @ es2)"
      using quiet_append good_quiet by simp_all
    then show ?thesis by blast
  next
    case (invalid w1 w2 w3)
    from pipe [OF invalid(1)] obtain es1 where
      es1: "trace w1 = trace v @ es1" "quiet es1" "Finish ?t \<in> set es1" by blast
    have "keeps (only_events (\<lambda>ev. ev \<noteq> Move ?t p))
        (verifyFileIntegrity E ?t (Some (obj_size info)) None)"
      by (rule keeps_verifyFileIntegrity) simp_all
    with invalid(2) obtain es2 where "trace w2 = trace w1 @ es2"
      "list_all (\<lambda>ev. ev \<noteq> Move ?t p) es2"
      unfolding keeps_def only_events_def by blast
    then have es2: "trace w2 = trace w1 @ es2" "Move ?t p \<notin> set es2"
      by (auto simp add: list_all_iff)
    from cleanup [OF invalid(3)] cleanup [OF invalid(4)] obtain es3 es4 where
      es34: "trace w3 = trace w2 @ es3" "quiet es3" "trace v' = trace w3 @ es4" "quiet es4"
      by blast
    have "good (es1 @ es2 @ es3 @ es4)"
      using es1 es2 es34 unfolding good_def quiet_def
      by (simp add: precedes_append precedes_absent)
    moreover have "trace v' = trace v @ (es1 @ es2 @ es3 @ es4)"
      using es1 es2 es34 by simp
    ultimately show ?thesis by blast
  next
    case (move_failed e w1 w2 w3)
    from pipe [OF move_failed(1)] obtain es1 where
      es1: "trace w1 = trace v @ es1" "quiet es1" "Finish ?t \<in> set es1" by blast
    from verifyFileIntegrity_verified [OF move_failed(2)]
    have es2: "trace w2 = trace w1 @ [Stat ?t, ?ok]" .
    from move_failed(3) have es3: "trace w3 = trace w2 @ [Move ?t p]"
      by (auto simp add: fs_move_def ext_def Let_def split: option.splits if_splits)
    from cleanup [OF move_failed(4)] obtain es4 where
      es4: "trace v' = trace w3 @ es4" "quiet es4" by blast
    have "good (es1 @ [Stat ?t, ?ok] @ [Move ?t p] @ es4)"
      using es1 es4 unfolding good_def quiet_def
      by (simp add: precedes_append precedes_absent)
    moreover have "trace v' = trace v @ (es1 @ [Stat ?t, ?ok] @ [Move ?t p] @ es4)"
      using es1 es2 es3 es4 by simp
    ultimately show ?thesis by blast
  next
    case (installed w1 w2 w3)
    from pipe [OF installed(1)] obtain es1 where
      es1: "trace w1 = trace v @ es1" "quiet es1" "Finish ?t \<in> set es1" by blast
    from verifyFileIntegrity_verified [OF installed(2)]
    have es2: "trace w2 = trace w1 @ [Stat ?t, ?ok]" .
    from installed(3) have es3: "trace w3 = trace w2 @ [Move ?t p]"
      by (auto simp add: fs_move_def ext_def Let_def split: option.splits if_splits)
    have "good (es1 @ [Stat ?t, ?ok] @ [Move ?t p]
        @ [Log INFO ''Successfully downloaded file from S3''])"
      using es1 unfolding good_def quiet_def
      by (simp add: precedes_append precedes_absent)
    moreover have "trace v' = trace v @ (es1 @ [Stat ?t, ?ok] @ [Move ?t p]
        @ [Log INFO ''Successfully downloaded file from S3''])"
      using es1 es2 es3 installed(4) by simp
    ultimately show ?thesis by blast
  qed
  have body: "\<exists>es. trace v' = trace w @ es \<and> good es"
    if "downloadFile_body E k p st (n, w) = (x, (n', v'))" for st n x n' v'
    using that
  proof (cases rule: downloadFile_body_cases)
    case (fetch_failed e)
    have "keeps (only_events ?A) (downloadFile_fetch E k p)"
      by (rule keeps_fetch_general) simp_all
    with fetch_failed(1) quietI good_quiet show ?thesis
      unfolding keeps_def only_events_def by blast
  next
    case (staged info body w1)
    have "keeps (only_events ?A) (downloadFile_fetch E k p)"
      by (rule keeps_fetch_general) simp_all
    with staged(1) quietI obtain es1 where es1: "trace w1 = trace w @ es1" "quiet es1"
      unfolding keeps_def only_events_def by blast
    from staging [OF staged(2)] obtain es2 where es2: "trace v' = trace w1 @ es2" "good es2"
      by blast
    from es1 es2 have "trace v' = trace w @ (es1 @ es2)" "good (es1 @ es2)"
      using good_after by simp_all
    then show ?thesis by blast
  qed
  have "good evs"
    using run
  proof (cases rule: downloadFile_cases)
    case (succeeded d n')
    from body [OF succeeded(1)] tr show ?thesis by auto
  next
    case (failed e n' w1)
    from body [OF failed(1)] obtain es where es: "trace w1 = trace w @ es" "good es" by blast
    with failed(3) tr have "evs = es @ [Log ERROR (''Failed to download file from S3: ''
        @ err_message e)]" by simp
    with es(2) show ?thesis
      unfolding good_def by (simp add: precedes_append)
  qed
  then have g1: "precedes (Finish ?t) (Stat ?t) evs"
    and g2: "precedes (Finish ?t) (ReadStream ?t) evs"
    and g3: "precedes (Finish ?t) (Move ?t p) evs"
    and g4: "precedes (Stat ?t) (Move ?t p) evs"
    and g5: "precedes ?ok (Move ?t p) evs"
    unfolding good_def by simp_all
  show ?thesis
    using precedes_split [OF g1] precedes_split [OF g2] precedes_split [OF g3]
      precedes_split [OF g4] precedes_split [OF g5]
    by (intro conjI allI impI) simp_all
qed

theorem downloadFile_verifies_after_finish_witness:
  "trace (snd (downloadFile env_model model_key model_path world0)) =
     [Log INFO (''Starting download from S3: '' @ model_key @ '' -> '' @ model_path),
      HeadObject model_key, EnsureDir ''/models/essential/voice'',
      Access ''/models/essential/voice'', GetObject model_key,
      OpenWrite (model_path @ ''.tmp''), Data 2, Write (model_path @ ''.tmp'') 2,
      Data 1, Write (model_path @ ''.tmp'') 1, Finish (model_path @ ''.tmp''),
      Stat (model_path @ ''.tmp''), Log INFO ''File integrity verified successfully'',
      Move (model_path @ ''.tmp'') model_path,
      Log INFO ''Successfully downloaded file from S3'']
   \<and> Finish (model_path @ ''.tmp'')
       \<in> set [Log INFO (''Starting download from S3: '' @ model_key @ '' -> '' @ model_path),
          HeadObject model_key, EnsureDir ''/models/essential/voice'',
          Access ''/models/essential/voice'', GetObject model_key,
          OpenWrite (model_path @ ''.tmp''), Data 2, Write (model_path @ ''.tmp'') 2,
          Data 1, Write (model_path @ ''.tmp'') 1, Finish (model_path @ ''.tmp'')]"
proof -
  have run: "downloadFile env_model model_key model_path world0 =
      (fst (downloadFile env_model model_key model_path world0),
       snd (downloadFile env_model model_key model_path world0))"
    by simp
  have tr: "trace (snd (downloadFile env_model model_key model_path world0)) =
      trace world0 @ trace (snd (downloadFile env_model model_key model_path world0))"
    by (simp add: world0_def)
  have split: "trace (snd (downloadFile env_model model_key model_path world0)) =
     [Log INFO (''Starting download from S3: '' @ model_key @ '' -> '' @ model_path),
      HeadObject model_key, EnsureDir ''/models/essential/voice'',
      Access ''/models/essential/voice'', GetObject model_key,
      OpenWrite (model_path @ ''.tmp''), Data 2, Write (model_path @ ''.tmp'') 2,
      Data 1, Write (model_path @ ''.tmp'') 1, Finish (model_path @ ''.tmp'')]
     @ Stat (model_path @ ''.tmp'')
     # [Log INFO ''File integrity verified successfully'',
        Move (model_path @ ''.tmp'') model_path,
        Log INFO ''Successfully downloaded file from S3'']"
    by (simp add: dl_defs fs_defs io_defs env_model_def env0_def world0_def
        model_key_def model_path_def)
  from downloadFile_verifies_after_finish [OF run tr] split
  have "Finish (model_path @ ''.tmp'')
       \<in> set [Log INFO (''Starting download from S3: '' @ model_key @ '' -> '' @ model_path),
          HeadObject model_key, EnsureDir ''/models/essential/voice'',
          Access ''/models/essential/voice'', GetObject model_key,
          OpenWrite (model_path @ ''.tmp''), Data 2, Write (model_path @ ''.tmp'') 2,
          Data 1, Write (model_path @ ''.tmp'') 1, Finish (model_path @ ''.tmp'')]"
    by blast
  with split show ?thesis by simp
qed

subsection \<open>Full reconciliation\<close>

lemma sync_key_total: "\<exists>out w'. sync_key E k w = (Inr out, w')"
  by (simp add: sync_key_def try_catch_def io_then_def io_bind_def io_return_def logger_def
      split: prod.splits sum.splits)

lemma sync_key_not_threw: "sync_key E k w \<noteq> (Inr (Threw e), w')"
  by (auto simp add: sync_key_def try_catch_def io_then_def io_bind_def io_return_def logger_def
      shouldUpdateFile_no_throw downloadFile_no_throw
      split: prod.splits sum.splits if_splits)

lemma triggerFullSync_step:
  assumes "sync_key E k w = (Inr out, w')"
  shows "triggerFullSync_models E (k # ks) ((errs, n), w) =
     triggerFullSync_models E ks
       ((errs @ error_entry (k, out), n + (if out = Synced then 1 else 0)), w')"
  using assms
  by (auto simp add: sync_key_def Let_def try_catch_def io_then_def io_bind_def io_return_def
      logger_def lift_def get_local_def set_local_def
      shouldUpdateFile_no_throw downloadFile_no_throw
      split: prod.splits sum.splits if_splits)

lemma triggerFullSync_models_refines:
  "sync_keys E ks w = (outs, w') \<Longrightarrow>
   triggerFullSync_models E ks ((errs, n), w) =
     (Inr (), ((errs @ concat (map error_entry (zip ks outs)),
                n + length (filter (\<lambda>out. out = Synced) outs)), w'))"
proof (induction ks arbitrary: w outs errs n w')
  case Nil
  then show ?case by (simp add: io_return_def)
next
  case (Cons k ks)
  obtain out w1 where k: "sync_key E k w = (Inr out, w1)"
    using sync_key_total by blast
  obtain outs1 w2 where rest: "sync_keys E ks w1 = (outs1, w2)" by (metis surj_pair)
  from Cons.prems k rest have outs: "outs = out # outs1" "w' = w2" by simp_all
  show ?case
    unfolding triggerFullSync_step [OF k] Cons.IH [OF rest] outs
    by simp
qed

lemma sync_keys_length: "sync_keys E ks w = (outs, w') \<Longrightarrow> length outs = length ks"
  by (induction ks arbitrary: w outs w') (auto split: prod.splits sum.splits)

lemma sync_keys_not_threw: "sync_keys E ks w = (outs, w') \<Longrightarrow> Threw e \<notin> set outs"
proof (induction ks arbitrary: w outs w')
  case Nil
  then show ?case by simp
next
  case (Cons k ks)
  obtain out w1 where k: "sync_key E k w = (Inr out, w1)"
    using sync_key_total by blast
  obtain outs1 w2 where rest: "sync_keys E ks w1 = (outs1, w2)" by (metis surj_pair)
  from Cons.prems k rest have "outs = out # outs1" by simp
  moreover from k have "out \<noteq> Threw e" using sync_key_not_threw by blast
  ultimately show ?case using Cons.IH [OF rest] by simp
qed

lemma keeps_downloadFile:
  assumes "A (HeadObject k)" "A (GetObject k)" "A (EnsureDir (dirname p))"
    "A (Access (dirname p))" "A (OpenWrite (p @ ''.tmp''))" "A (Finish (p @ ''.tmp''))"
    "\<And>n. A (Data n)" "\<And>n. A (Write (p @ ''.tmp'') n)" "A (Stat (p @ ''.tmp''))"
    "A (ReadStream (p @ ''.tmp''))" "A (PathExists (p @ ''.tmp''))" "A (Remove (p @ ''.tmp''))"
    "A (Move (p @ ''.tmp'') p)" "\<And>l m. A (Log l m)"
  shows "keeps (only_events A) (downloadFile E k p)"
proof -
  have staging: "keeps (on_world (only_events A)) (downloadFile_staging E k p st info body)"
    for st info body
    unfolding downloadFile_staging_def Let_def
    using assms
    by (auto intro!: keeps_intros keeps_pipeline keeps_verifyFileIntegrity
        keeps_cleanupTempFile)
  have "keeps (on_world (only_events A)) (downloadFile_body E k p st)" for st
    unfolding downloadFile_body_fetch
    using assms
    by (auto intro!: keeps_intros keeps_fetch_general staging)
  then show ?thesis
    unfolding downloadFile_def Let_def
    using assms
    by (auto intro!: keeps_intros)
qed

lemma shouldUpdateFile_first_event:
  assumes "shouldUpdateFile E k p w = (r, w')"
  shows "\<exists>es. trace w' = trace w @ PathExists p # es"
proof -
  obtain b w1 where pe: "fs_pathExists E p w = (Inr b, w1)"
    using fs_pathExists_no_throw [of E p w] by (metis old.sum.exhaust surj_pair)
  then have t1: "trace w1 = trace w @ [PathExists p]"
    by (auto simp add: fs_pathExists_def try_catch_def ext_def Let_def io_return_def
        split: option.splits)
  define rest where "rest = try_catch
       (if \<not> b then
            io_then (logger DEBUG (''Local file does not exist, update needed: '' @ p))
              (io_return True)
          else
            io_bind (getObjectInfo E k) (\<lambda>info.
              case info of
                None \<Rightarrow> io_then (logger WARN (''S3 object not found: '' @ k)) (io_return False)
              | Some s3Info \<Rightarrow>
                  io_bind (fs_stat E p) (\<lambda>localStats.
                    if fst localStats \<noteq> obj_size s3Info then
                      io_then (logger DEBUG ''File size differs, update needed'') (io_return True)
                    else if snd localStats < lastModified s3Info then
                      io_then (logger DEBUG ''S3 file is newer, update needed'') (io_return True)
                    else
                      io_then (logger DEBUG (''File is up to date: '' @ p))
                        (io_return False))))
       (\<lambda>error.
          io_then (logger ERROR (''Error checking if file should update: '' @ err_message error))
            (io_return True))"
  have "shouldUpdateFile E k p w = rest w1"
    using pe by (simp add: shouldUpdateFile_def rest_def try_catch_def io_bind_def)
  with assms have run: "rest w1 = (r, w')" by simp
  have "keeps (only_events (\<lambda>ev. True)) rest"
    unfolding rest_def
    by (auto intro!: keeps_intros keeps_getObjectInfo split: option.splits)
  with run obtain es where "trace w' = trace w1 @ es"
    unfolding keeps_def only_events_def by blast
  with t1 show ?thesis by simp
qed

lemma sync_key_attempts:
  assumes "sync_key E k w = (r, w')"
  shows "\<exists>es. trace w' = trace w @ PathExists (getLocalModelPath E k) # es"
proof -
  let ?p = "getLocalModelPath E k"
  obtain b w1 where su: "shouldUpdateFile E k ?p w = (Inr b, w1)"
    using shouldUpdateFile_no_throw [of E k ?p w] by (metis old.sum.exhaust surj_pair)
  from shouldUpdateFile_first_event [OF su] obtain es1 where
    t1: "trace w1 = trace w @ PathExists ?p # es1" by blast
  define rest where "rest = try_catch
       (if b then
            io_then (logger INFO (''Syncing model: '' @ k))
              (io_bind (downloadFile E k ?p) (\<lambda>result.
                 if dl_success result then
                   io_then (logger INFO (''Successfully synced: '' @ k)) (io_return Synced)
                 else
                   io_then (logger ERROR (''Failed to sync: '' @ k))
                     (io_return DownloadFailed)))
          else
            io_then (logger DEBUG (''Model already up to date: '' @ k))
              (io_return UpToDate))
       (\<lambda>error.
          io_then (logger ERROR (''Error syncing model '' @ k @ '': '' @ err_message error))
            (io_return (Threw error)))"
  have "sync_key E k w = rest w1"
    using su by (simp add: sync_key_def rest_def try_catch_def io_bind_def)
  with assms have run: "rest w1 = (r, w')" by simp
  have "keeps (only_events (\<lambda>ev. True)) rest"
    unfolding rest_def
    by (auto intro!: keeps_intros keeps_downloadFile)
  with run obtain es where "trace w' = trace w1 @ es"
    unfolding keeps_def only_events_def by blast
  with t1 show ?thesis by simp
qed

lemma sync_keys_attempts:
  "sync_keys E ks w = (outs, w') \<Longrightarrow>
   (\<exists>es. trace w' = trace w @ es) \<and>
   (\<forall>k\<in>set ks. PathExists (getLocalModelPath E k) \<in> set (trace w'))"
proof (induction ks arbitrary: w outs w')
  case Nil
  then show ?case by simp
next
  case (Cons k ks)
  obtain out w1 where k: "sync_key E k w = (Inr out, w1)"
    using sync_key_total by blast
  obtain outs1 w2 where rest: "sync_keys E ks w1 = (outs1, w2)" by (metis surj_pair)
  from Cons.prems k rest have w': "w' = w2" by simp
  from sync_key_attempts [OF k] obtain es1 where
    t1: "trace w1 = trace w @ PathExists (getLocalModelPath E k) # es1" by blast
  from Cons.IH [OF rest] obtain es2 where
    t2: "trace w2 = trace w1 @ es2"
    and all: "\<forall>k\<in>set ks. PathExists (getLocalModelPath E k) \<in> set (trace w2)" by blast
  from t1 t2 all w' show ?case by auto
qed

lemma errors_failed_keys:
  "(\<And>e. Threw e \<notin> set outs) \<Longrightarrow>
   concat (map error_entry (zip ks outs)) =
     map (\<lambda>k. ''Failed to download '' @ k) (failed_keys ks outs)"
proof (induction ks arbitrary: outs)
  case Nil
  then show ?case by (simp add: failed_keys_def)
next
  case (Cons k ks)
  show ?case
  proof (cases outs)
    case Nil
    then show ?thesis by (simp add: failed_keys_def)
  next
    case (Cons out outs1)
    with Cons.prems have rest: "\<And>e. Threw e \<notin> set outs1" and out: "\<forall>e. out \<noteq> Threw e"
      by auto
    from Cons.IH [OF rest] Cons out show ?thesis
      by (cases out) (auto simp add: failed_keys_def)
  qed
qed

lemma filter_single:
  "i < length xs \<Longrightarrow> (\<forall>j<length xs. P (xs ! j) = (j = i)) \<Longrightarrow> filter P xs = [xs ! i]"
proof (induction xs arbitrary: i)
  case Nil
  then show ?case by simp
next
  case (Cons x xs)
  show ?case
  proof (cases i)
    case 0
    with Cons.prems have "P x" by auto
    moreover from Cons.prems 0 have "\<forall>j<length xs. \<not> P (xs ! j)" by auto
    then have "filter P xs = []" by (auto simp add: filter_empty_conv in_set_conv_nth)
    ultimately show ?thesis using 0 by simp
  next
    case (Suc i')
    with Cons.prems have "\<not> P x" by auto
    moreover from Cons.prems Suc have "i' < length xs" "\<forall>j<length xs. P (xs ! j) = (j = i')"
      by auto
    ultimately show ?thesis using Cons.IH [of i'] Suc by simp
  qed
qed

lemma failed_keys_single:
  assumes "length outs = length keys" "i < length keys"
    "\<forall>j<length keys. (outs ! j = DownloadFailed) = (j = i)"
  shows "failed_keys keys outs = [keys ! i]"
proof -
  have "filter (\<lambda>(k, out). out = DownloadFailed) (zip keys outs) = [zip keys outs ! i]"
    using assms by (intro filter_single) auto
  with assms show ?thesis by (simp add: failed_keys_def)
qed

text \<open>
  C6.  When the listing returns \<open>keys\<close>, \<open>triggerFullSync\<close> returns a summary and does
  not raise.  Every key is attempted: each has an outcome, and the existence check of
  its local path is in the trace, whatever happened to the keys before it.  The summary
  reports the number of keys, the number of keys whose download succeeded, one error
  entry for every key whose download failed (in the order of the keys, naming the key),
  the time the call took, and success exactly when there is no error entry.  When the
  download of exactly one key fails, the error list is the one entry that names it.
\<close>

theorem triggerFullSync_isolates_failures:
  assumes "listed_keys E w = Some (Inr keys)"
  shows "\<exists>s w'. triggerFullSync E w = Some (Inr s, w')
      \<and> r_totalModels s = length keys
      \<and> length (key_outcomes E w keys) = length keys
      \<and> (\<forall>k\<in>set keys. PathExists (getLocalModelPath E k) \<in> set (trace w'))
      \<and> r_syncedModels s = length (filter (\<lambda>out. out = Synced) (key_outcomes E w keys))
      \<and> r_errors s =
          map (\<lambda>k. ''Failed to download '' @ k) (failed_keys keys (key_outcomes E w keys))
      \<and> r_success s = (r_errors s = [])
      \<and> r_duration s = clock w' - clock w
      \<and> (\<forall>i<length keys.
            (\<forall>j<length keys. (key_outcomes E w keys ! j = DownloadFailed) = (j = i)) \<longrightarrow>
            r_errors s = [''Failed to download '' @ keys ! i])"
proof -
  let ?w1 = "snd (logger INFO ''Starting manual full sync...'' w)"
  from assms obtain w2 where la: "listAllModels E ?w1 = Some (Inr keys, w2)"
    unfolding listed_keys_def by (cases "listAllModels E ?w1") auto
  have clock1: "clock ?w1 = clock w" by (simp add: logger_def)
  show ?thesis
  proof (cases "keys = []")
    case True
    with la have "triggerFullSync E w =
        Some (Inr \<lparr>r_success = True, r_totalModels = 0, r_syncedModels = 0, r_errors = [],
                   r_duration = clock w2 - clock w\<rparr>,
              w2\<lparr>trace := trace w2 @ [Log INFO ''No models found in S3 bucket'']\<rparr>)"
      by (simp add: triggerFullSync_def Let_def io_defs)
    with True show ?thesis
      by (simp add: key_outcomes_def failed_keys_def)
  next
    case False
    let ?w3 = "snd (logger INFO ''Found models in S3, starting sync...'' w2)"
    have start: "sync_start E w keys = ?w3"
      using la False by (simp add: sync_start_def)
    obtain outs w4 where sk: "sync_keys E keys ?w3 = (outs, w4)" by (metis surj_pair)
    then have outs: "key_outcomes E w keys = outs"
      by (simp add: key_outcomes_def start)
    have len: "length outs = length keys" using sync_keys_length [OF sk] .
    have nothrew: "\<And>e. Threw e \<notin> set outs" using sync_keys_not_threw [OF sk] .
    have errs: "concat (map error_entry (zip keys outs)) =
        map (\<lambda>k. ''Failed to download '' @ k) (failed_keys keys outs)"
      using errors_failed_keys [OF nothrew] .
    from sync_keys_attempts [OF sk] have
      att: "\<forall>k\<in>set keys. PathExists (getLocalModelPath E k) \<in> set (trace w4)" by blast
    have loop: "triggerFullSync_models E keys (([], 0), ?w3) =
        (Inr (), ((concat (map error_entry (zip keys outs)),
                   length (filter (\<lambda>out. out = Synced) outs)), w4))"
      using triggerFullSync_models_refines [OF sk, of "[]" 0] by simp
    have "triggerFullSync E w =
        Some (Inr \<lparr>r_success = (concat (map error_entry (zip keys outs)) = []),
                   r_totalModels = length keys,
                   r_syncedModels = length (filter (\<lambda>out. out = Synced) outs),
                   r_errors = concat (map error_entry (zip keys outs)),
                   r_duration = clock w4 - clock w\<rparr>,
              w4\<lparr>trace := trace w4 @ [Log INFO ''Full sync completed'']\<rparr>)"
      using la False loop
      by (simp add: triggerFullSync_def Let_def io_return_def io_bind_def io_then_def
          try_catch_def io_of_def with_local_def lift_def get_local_def Date_now_def logger_def)
    with errs att outs len failed_keys_single [OF len] show ?thesis
      by auto
  qed
qed


lemmas list_defs = listAllModels_def listAllModels_loop.simps s3_send_list_def listed_models_def
  isModelFile_def endsWith_def toLower_def

theorem triggerFullSync_isolates_failures_witness:
  "\<exists>s. map_option fst (triggerFullSync env_bucket world0) = Some (Inr s)
      \<and> r_totalModels s = 3 \<and> r_syncedModels s = 2
      \<and> r_errors s = [''Failed to download optional/bert/b.bin'']
      \<and> \<not> r_success s"
proof -
  have listed: "listed_keys env_bucket world0 =
      Some (Inr [''essential/voice/a.bin'', ''optional/bert/b.bin'', ''optional/g2p/c.json''])"
    by (simp add: listed_keys_def list_defs env_bucket_def env0_def world0_def io_defs)
  have outcomes: "key_outcomes env_bucket world0
      [''essential/voice/a.bin'', ''optional/bert/b.bin'', ''optional/g2p/c.json''] =
      [Synced, DownloadFailed, Synced]"
    by (simp add: key_outcomes_def sync_start_def sync_key_def shouldUpdateFile_def
        getLocalModelPath_def list_defs dl_defs fs_defs env_bucket_def env0_def world0_def io_defs)
  from triggerFullSync_isolates_failures [OF listed] outcomes show ?thesis
    by (auto simp add: failed_keys_def)
qed

subsection \<open>The local path of a key\<close>

lemma split_on_not_Nil [simp]: "split_on d s \<noteq> []"
  by (induction s) (auto split: list.splits)

lemma split_on_append: "split_on d (a @ d # b) = split_on d a @ split_on d b"
  by (induction a) (auto split: list.splits)

lemma resolve_prefix:
  "''..'' \<notin> set segs \<Longrightarrow> prefix dirs (foldl resolve_step dirs segs)"
proof (induction segs arbitrary: dirs)
  case Nil
  then show ?case by simp
next
  case (Cons seg segs)
  then have "prefix dirs (resolve_step dirs seg)"
    by (auto simp add: resolve_step_def)
  moreover from Cons have "prefix (resolve_step dirs seg) (foldl resolve_step dirs (seg # segs))"
    by simp
  ultimately show ?case by (rule prefix_order.trans)
qed

lemma lies_under_local_path:
  assumes "''..'' \<notin> set (split_on (CHR ''/'') key)"
  shows "lies_under (modelsBasePath E) (getLocalModelPath E key)"
proof -
  have "normalize (getLocalModelPath E key) =
      foldl resolve_step (normalize (modelsBasePath E)) (split_on (CHR ''/'') key)"
    by (simp add: normalize_def getLocalModelPath_def split_on_append)
  with resolve_prefix [OF assms] show ?thesis
    by (simp add: lies_under_def)
qed

lemma parseModelEvent_key:
  assumes "parseModelEvent rcd key w = (Inr (Some ev), w')"
  shows "ev_key ev = key \<and> 2 \<le> length (split_on (CHR ''/'') key)
    \<and> ev_category ev = split_on (CHR ''/'') key ! 0
    \<and> ev_modelType ev = split_on (CHR ''/'') key ! 1"
  using assms
  by (auto simp add: parseModelEvent_def Let_def try_catch_def io_bind_def io_then_def
      io_return_def io_of_def logger_def split: if_splits sum.splits prod.splits)

lemma keeps_parseModelEvent:
  "(\<And>l m. A (Log l m)) \<Longrightarrow> keeps (only_events A) (parseModelEvent rcd key)"
  unfolding parseModelEvent_def Let_def
  by (auto intro!: keeps_intros)

lemma keeps_notifyApplications:
  "(\<And>m. A (SendMessage m)) \<Longrightarrow> (\<And>l m. A (Log l m)) \<Longrightarrow>
   keeps (only_events A) (notifyApplications E n)"
  unfolding notifyApplications_def Let_def
  by (auto intro!: keeps_intros keeps_prim simp add: io_return_def)

lemma keeps_bind_post:
  assumes "preorder_rel R" "keeps R m" "\<And>s x s'. m s = (Inr x, s') \<Longrightarrow> Q x"
    "\<And>x. Q x \<Longrightarrow> keeps R (f x)"
  shows "keeps R (io_bind m f)"
  unfolding keeps_def io_bind_def
proof (intro allI impI)
  fix s r s'
  assume run: "(case m s of (Inl e, s1) \<Rightarrow> (Inl e, s1) | (Inr x, s1) \<Rightarrow> f x s1) = (r, s')"
  obtain r1 s1 where m: "m s = (r1, s1)" by (cases "m s")
  with assms(2) have 1: "R s s1" by (simp add: keeps_def)
  show "R s s'"
  proof (cases r1)
    case (Inl e)
    with run m 1 show ?thesis by simp
  next
    case (Inr x)
    with run m have "f x s1 = (r, s')" by simp
    moreover from Inr m assms(3) have "Q x" by blast
    ultimately have "R s1 s'" using assms(4) by (simp add: keeps_def)
    with 1 assms(1) show ?thesis unfolding preorder_rel_def by blast
  qed
qed

lemma keeps_handleModelUpdate:
  "keeps (only_events (touches_only
      {getLocalModelPath E (ev_key ev), getLocalModelPath E (ev_key ev) @ ''.tmp'',
       dirname (getLocalModelPath E (ev_key ev))}))
     (handleModelUpdate E ev)"
  unfolding handleModelUpdate_def Let_def
  by (auto intro!: keeps_intros keeps_shouldUpdateFile keeps_downloadFile
      keeps_notifyApplications simp add: touches_only_def)

lemma keeps_handleModelDeletion:
  "keeps (only_events (touches_only
      {getLocalModelPath E (ev_key ev), getLocalModelPath E (ev_key ev) @ ''.tmp'',
       dirname (getLocalModelPath E (ev_key ev))}))
     (handleModelDeletion E ev)"
  unfolding handleModelDeletion_def Let_def
  by (auto intro!: keeps_intros keeps_cleanupTempFile simp add: touches_only_def)

lemma handleS3Event_no_key:
  "record_key rcd = Inl e \<Longrightarrow> handleS3Event E rcd w = (Inl e, w)"
  by (auto simp add: handleS3Event_def record_key_def io_bind_def io_of_def split: sum.splits)

lemma keeps_handleS3Event:
  assumes "record_key rcd = Inr key"
  shows "keeps (only_events (touches_only
      {getLocalModelPath E key, getLocalModelPath E key @ ''.tmp'',
       dirname (getLocalModelPath E key)}))
     (handleS3Event E rcd)"
proof -
  let ?A = "touches_only {getLocalModelPath E key, getLocalModelPath E key @ ''.tmp'',
       dirname (getLocalModelPath E key)}"
  define handle where "handle = (\<lambda>eventName modelEvent.
      io_bind (io_of (js_includes eventName ''ObjectCreated'')) (\<lambda>created.
      io_bind (if created then io_return True
               else io_of (js_includes eventName ''ObjectModified'')) (\<lambda>updated.
        if updated then handleModelUpdate E modelEvent
        else
          io_bind (io_of (js_includes eventName ''ObjectRemoved'')) (\<lambda>removed.
            if removed then handleModelDeletion E modelEvent
            else logger DEBUG (''Unsupported event type: '' @ ToString eventName)))))"
  define rest where "rest =
     io_bind (io_of (get_prop rcd ''eventName'')) (\<lambda>eventName.
       io_then (logger INFO (''Processing S3 event: '' @ ToString eventName @ '' for '' @ key))
         (if \<not> isModelFile key then
            io_then (logger DEBUG (''Skipping non-model file: '' @ key)) (io_return ())
          else
            io_bind (parseModelEvent rcd key) (\<lambda>parsed.
              case parsed of
                None \<Rightarrow>
                  io_then (logger WARN (''Failed to parse model event for: '' @ key))
                    (io_return ())
              | Some modelEvent \<Rightarrow> handle eventName modelEvent)))"
  have eq: "handleS3Event E rcd = rest"
    using assms
    by (intro ext)
      (auto simp add: handleS3Event_def rest_def handle_def record_key_def io_bind_def io_of_def
        split: sum.splits)
  have handle: "keeps (only_events ?A) (handle eventName modelEvent)"
    if "ev_key modelEvent = key" for eventName modelEvent
    unfolding handle_def
    using keeps_handleModelUpdate [of E modelEvent] keeps_handleModelDeletion [of E modelEvent]
      that
    by (auto intro!: keeps_intros simp add: touches_only_def)
  have parsed: "keeps (only_events ?A)
      (io_bind (parseModelEvent rcd key) (\<lambda>parsed.
         case parsed of
           None \<Rightarrow>
             io_then (logger WARN (''Failed to parse model event for: '' @ key)) (io_return ())
         | Some modelEvent \<Rightarrow> handle eventName modelEvent))" for eventName
  proof (rule keeps_bind_post [where Q = "\<lambda>parsed. \<forall>ev. parsed = Some ev \<longrightarrow> ev_key ev = key"])
    show "preorder_rel (only_events ?A)" by simp
    show "keeps (only_events ?A) (parseModelEvent rcd key)"
      by (rule keeps_parseModelEvent) (simp add: touches_only_def)
    show "\<forall>ev. x = Some ev \<longrightarrow> ev_key ev = key"
      if "parseModelEvent rcd key s = (Inr x, s')" for s x s'
      using that parseModelEvent_key [of rcd key s _ s'] by auto
    show "keeps (only_events ?A)
        (case x of
           None \<Rightarrow>
             io_then (logger WARN (''Failed to parse model event for: '' @ key)) (io_return ())
         | Some modelEvent \<Rightarrow> handle eventName modelEvent)"
      if "\<forall>ev. x = Some ev \<longrightarrow> ev_key ev = key" for x
      using that handle
      by (auto intro!: keeps_intros simp add: touches_only_def split: option.splits)
  qed
  have skipped: "keeps (only_events ?A)
      (io_then (logger DEBUG (''Skipping non-model file: '' @ key)) (io_return ()))"
    by (intro keeps_then keeps_logger keeps_return) (simp_all add: touches_only_def)
  have logged: "keeps (only_events ?A) (logger INFO msg)" for msg
    by (rule keeps_logger) (simp add: touches_only_def)
  show ?thesis
    unfolding eq rest_def
  proof (intro keeps_bind keeps_then keeps_of logged)
    show "keeps (only_events ?A)
        (if \<not> isModelFile key then
           io_then (logger DEBUG (''Skipping non-model file: '' @ key)) (io_return ())
         else
           io_bind (parseModelEvent rcd key) (\<lambda>parsed.
             case parsed of
               None \<Rightarrow>
                 io_then (logger WARN (''Failed to parse model event for: '' @ key))
                   (io_return ())
             | Some modelEvent \<Rightarrow> handle eventName modelEvent))" for eventName
    proof (cases "isModelFile key")
      case True
      then show ?thesis
        using parsed [of eventName] by (simp only: not_True_eq_False if_False)
    next
      case False
      then show ?thesis
        using skipped by (simp only: not_False_eq_True if_True)
    qed
  qed simp_all
qed

lemmas uri_defs = decodeURIComponent_def hex_digit_def lead_ones_def utf8_ok_def utf8_value_def

lemma decodeURIComponent_examples:
  "decodeURIComponent (JStr ''essential/voice/my%20model.bin'') =
     Inr ''essential/voice/my model.bin''"
  "decodeURIComponent (JStr ''a/%E5%9C%93.bin'') =
     Inr (''a/'' @ map byte_char [229, 156, 147] @ ''.bin'')"
  "decodeURIComponent (JStr ''a/%E5%9C.bin'') = Inl (JsError ''URIError'' ''URI malformed'')"
  "decodeURIComponent (JStr ''a/%2'') = Inl (JsError ''URIError'' ''URI malformed'')"
  "decodeURIComponent (JStr ''a/%C0%80'') = Inl (JsError ''URIError'' ''URI malformed'')"
  "decodeURIComponent JUndefined = Inr ''undefined''"
  "decodeURIComponent (JNum (- 120)) = Inr ''-120''"
  "decodeURIComponent (JArr [JStr ''a'', JNull, JNum 5]) = Inr ''a,,5''"
  by (simp_all add: uri_defs byte_char_def show_int_def show_nat.simps digit_char_def)

text \<open>
  C8 (as amended).  The local path is the base path, a slash, and the key, so its
  segments are those of the base followed by those of the key; a parsed event keeps the
  decoded key, and its category and model type are the first two segments of the key.
  While an event is handled, on the update path and on the deletion path alike, every
  file-system call is on the base path joined with the URL-decoded key of the record, on
  that path + \<open>.tmp\<close>, or on its directory.  The path lies under the base path
  whenever no segment of the key is \<open>..\<close>.
\<close>

theorem local_path_mirrors_key:
  "getLocalModelPath E key = modelsBasePath E @ ''/'' @ key
   \<and> split_on (CHR ''/'') (getLocalModelPath E key) =
       split_on (CHR ''/'') (modelsBasePath E) @ split_on (CHR ''/'') key
   \<and> (\<forall>ev w'. parseModelEvent rcd key w = (Inr (Some ev), w') \<longrightarrow>
         ev_key ev = key \<and> 2 \<le> length (split_on (CHR ''/'') key)
         \<and> ev_category ev = split_on (CHR ''/'') key ! 0
         \<and> ev_modelType ev = split_on (CHR ''/'') key ! 1)
   \<and> (\<forall>r w' evs ev q.
         handleS3Event E rcd w = (r, w') \<and> trace w' = trace w @ evs \<and> ev \<in> set evs
         \<and> q \<in> set (fs_paths ev) \<longrightarrow>
         (\<exists>k. record_key rcd = Inr k
            \<and> q \<in> {getLocalModelPath E k, getLocalModelPath E k @ ''.tmp'',
                    dirname (getLocalModelPath E k)}))
   \<and> (''..'' \<notin> set (split_on (CHR ''/'') key) \<longrightarrow>
         lies_under (modelsBasePath E) (getLocalModelPath E key))"
proof -
  have paths: "\<exists>k. record_key rcd = Inr k
            \<and> q \<in> {getLocalModelPath E k, getLocalModelPath E k @ ''.tmp'',
                    dirname (getLocalModelPath E k)}"
    if run: "handleS3Event E rcd w = (r, w')" and tr: "trace w' = trace w @ evs"
      and ev: "ev \<in> set evs" and q: "q \<in> set (fs_paths ev)" for r w' evs ev q
  proof (cases "record_key rcd")
    case (Inl e)
    with run tr handleS3Event_no_key [of rcd e E w] have "evs = []" by simp
    with ev show ?thesis by simp
  next
    case (Inr k)
    from keeps_handleS3Event [OF Inr, of E] run obtain es where
      "trace w' = trace w @ es"
      "list_all (touches_only {getLocalModelPath E k, getLocalModelPath E k @ ''.tmp'',
         dirname (getLocalModelPath E k)}) es"
      unfolding keeps_def only_events_def by blast
    with tr ev have "touches_only {getLocalModelPath E k, getLocalModelPath E k @ ''.tmp'',
         dirname (getLocalModelPath E k)} ev"
      by (simp add: list_all_iff)
    with q Inr show ?thesis
      unfolding touches_only_def by blast
  qed
  show ?thesis
    using parseModelEvent_key [of rcd key w] paths lies_under_local_path [of key E]
    by (simp add: getLocalModelPath_def split_on_append) blast
qed

theorem local_path_mirrors_key_witness:
  "getLocalModelPath env0 ''essential/voice/my model.bin'' =
     ''/models/essential/voice/my model.bin''
   \<and> record_key (removed_record ''essential/voice/my%20model.bin'') =
     Inr ''essential/voice/my model.bin''
   \<and> lies_under ''/models'' ''/models/essential/voice/my model.bin''
   \<and> trace (snd (handleS3Event env0 (removed_record ''essential/voice/my%20model.bin'')
        (put_file ''/models/essential/voice/my model.bin'' ''abc'' 0 world0))) =
     [Log INFO ''Processing S3 event: ObjectRemoved:Delete for essential/voice/my model.bin'',
      Log INFO ''Processing model deletion: essential/voice/my model.bin'',
      PathExists ''/models/essential/voice/my model.bin'',
      Remove ''/models/essential/voice/my model.bin'',
      Log DEBUG ''Cleaned up temp file: /models/essential/voice/my model.bin'',
      Log INFO ''Model deleted successfully: essential/voice/my model.bin'']"
  using local_path_mirrors_key [of env0 "''essential/voice/my model.bin''"
      "removed_record ''essential/voice/my%20model.bin''"
      "put_file ''/models/essential/voice/my model.bin'' ''abc'' 0 world0"]
  by (simp add: removed_record_def record_key_def get_prop_def uri_defs byte_char_def
      handleS3Event_def parseModelEvent_def handleModelDeletion_def cleanupTempFile_def
      js_includes_def isModelFile_def endsWith_def toLower_def
      getLocalModelPath_def fs_defs io_defs env0_def world0_def put_file_def Let_def)

text \<open>
  As the claim C8 is stated, it fails for a key with \<open>..\<close> segments: the key below is
  a model file by its extension and parses, its local path leads to \<open>/etc/passwd.txt\<close>,
  outside the base path \<open>/models\<close>, and the deletion path removes the file there.
\<close>

theorem local_path_escapes_base:
  "isModelFile ''essential/../../etc/passwd.txt''
   \<and> record_key (removed_record ''essential/../../etc/passwd.txt'') =
     Inr ''essential/../../etc/passwd.txt''
   \<and> getLocalModelPath env0 ''essential/../../etc/passwd.txt'' =
     ''/models/essential/../../etc/passwd.txt''
   \<and> normalize ''/models/essential/../../etc/passwd.txt'' = [''etc'', ''passwd.txt'']
   \<and> \<not> lies_under (modelsBasePath env0)
         (getLocalModelPath env0 ''essential/../../etc/passwd.txt'')
   \<and> Remove ''/models/essential/../../etc/passwd.txt''
       \<in> set (trace (snd (handleS3Event env0 (removed_record ''essential/../../etc/passwd.txt'')
            (put_file ''/models/essential/../../etc/passwd.txt'' ''abc'' 0 world0))))"
  by (simp add: removed_record_def record_key_def get_prop_def uri_defs
      handleS3Event_def parseModelEvent_def handleModelDeletion_def cleanupTempFile_def
      js_includes_def isModelFile_def endsWith_def toLower_def
      lies_under_def normalize_def resolve_step_def
      getLocalModelPath_def fs_defs io_defs env0_def world0_def put_file_def Let_def)

subsection \<open>Messages with malformed records\<close>

lemmas msg_defs = handleMessage_def handleS3Event_def parseModelEvent_def
  handleModelDeletion_def cleanupTempFile_def get_prop_def js_includes_def isModelFile_def
  endsWith_def toLower_def getLocalModelPath_def uri_defs message_def
  env_messages_def removed_record_def bare_record_def keyless_record_def model_key_def
  model_path_def

text \<open>
  C1.  A record lacking the expected structure is to be skipped, and the records after
  it processed.  The message below has a \<open>Records\<close> array of a record with no \<open>s3\<close>
  member and a well-formed removal record.  Alone, the removal record is processed: the
  local file is removed.  After the record with no \<open>s3\<close> member it is not: reading
  \<open>record.s3.object\<close> throws a TypeError, \<open>handleMessage\<close> logs it and throws it on,
  and the local file is still there.
\<close>

theorem handleMessage_malformed_record_raises:
  "fst (handleMessage env_messages (message ''removed'') (put_file model_path ''abc'' 0 world0))
     = Inr ()
   \<and> files (snd (handleMessage env_messages (message ''removed'')
        (put_file model_path ''abc'' 0 world0))) model_path = None
   \<and> fst (handleMessage env_messages (message ''bare, removed'')
        (put_file model_path ''abc'' 0 world0))
     = Inl (JsError ''TypeError'' ''Cannot read properties of undefined (reading 'object')'')
   \<and> files (snd (handleMessage env_messages (message ''bare, removed'')
        (put_file model_path ''abc'' 0 world0))) model_path
     = Some \<lparr>content = ''abc'', mtime = 0\<rparr>
   \<and> trace (snd (handleMessage env_messages (message ''bare, removed'')
        (put_file model_path ''abc'' 0 world0)))
     = [Log ERROR ''Error parsing SQS message: Cannot read properties of undefined (reading 'object')'']"
  by (simp add: msg_defs fs_defs io_defs env0_def world0_def put_file_def Let_def)

text \<open>
  At that message the parsed body has a \<open>Records\<close> member that is an array, so the
  loop over the records is entered; the first record has no \<open>s3\<close> member.
\<close>

theorem handleMessage_malformed_record_raises_witness:
  "JSON_parse env_messages ''bare, removed''
     = Inr (JObj [(''Records'', JArr [bare_record, removed_record model_key])])
   \<and> truthy (JArr [bare_record, removed_record model_key])
   \<and> isArray (JArr [bare_record, removed_record model_key])
   \<and> get_prop bare_record ''s3'' = Inr JUndefined
   \<and> (\<exists>e. fst (handleMessage env_messages (message ''bare, removed'')
               (put_file model_path ''abc'' 0 world0)) = Inl e)
   \<and> files (snd (handleMessage env_messages (message ''bare, removed'')
        (put_file model_path ''abc'' 0 world0))) model_path \<noteq> None"
proof -
  have parsed: "JSON_parse env_messages ''bare, removed''
      = Inr (JObj [(''Records'', JArr [bare_record, removed_record model_key])])"
    by (simp add: env_messages_def)
  have shape: "truthy (JArr [bare_record, removed_record model_key])"
    "isArray (JArr [bare_record, removed_record model_key])"
    "get_prop bare_record ''s3'' = Inr JUndefined"
    by (simp_all add: bare_record_def get_prop_def)
  have run: "(\<exists>e. fst (handleMessage env_messages (message ''bare, removed'')
               (put_file model_path ''abc'' 0 world0)) = Inl e)
   \<and> files (snd (handleMessage env_messages (message ''bare, removed'')
        (put_file model_path ''abc'' 0 world0))) model_path \<noteq> None"
    using handleMessage_malformed_record_raises by simp
  from parsed shape run show ?thesis by blast
qed

text \<open>
  The records that are skipped: one whose object has no key (its key reads as the text
  \<open>undefined\<close>, which is not a model file: a debug line, not a warning), and one whose
  key has a single segment (a warning).  The removal record after them is processed.
\<close>

lemma handleMessage_skipped_records:
  "fst (handleMessage env_messages (message ''keyless, removed'')
        (put_file model_path ''abc'' 0 world0)) = Inr ()
   \<and> files (snd (handleMessage env_messages (message ''keyless, removed'')
        (put_file model_path ''abc'' 0 world0))) model_path = None
   \<and> Log DEBUG ''Skipping non-model file: undefined''
       \<in> set (trace (snd (handleMessage env_messages (message ''keyless, removed'')
        (put_file model_path ''abc'' 0 world0))))
   \<and> fst (handleMessage env_messages (message ''flat, removed'')
        (put_file model_path ''abc'' 0 world0)) = Inr ()
   \<and> files (snd (handleMessage env_messages (message ''flat, removed'')
        (put_file model_path ''abc'' 0 world0))) model_path = None
   \<and> Log WARN ''Failed to parse model event for: model.bin''
       \<in> set (trace (snd (handleMessage env_messages (message ''flat, removed'')
        (put_file model_path ''abc'' 0 world0))))"
  by (simp add: msg_defs fs_defs io_defs env0_def world0_def put_file_def Let_def)

end
